(* ===== verification/Cpp_Prelude.thy ===== *)
theory Cpp_Prelude
  imports Main "HOL-Library.Sublist"
begin

text \<open>
  What the model uses of C++ and its standard library: outcomes of a call (a value, an
  exception, undefined behaviour, a call that blocks for ever), the part of
  \<^verbatim>\<open>std::string\<close> the sources call (\<^verbatim>\<open>find\<close>, \<^verbatim>\<open>find_last_of\<close>, \<^verbatim>\<open>substr\<close>,
  \<^verbatim>\<open>std::to_string\<close>, \<^verbatim>\<open>std::stoull\<close>) and 64-bit \<^verbatim>\<open>size_t\<close> arithmetic. A
  \<^verbatim>\<open>std::string\<close>, a ZeroMQ frame and a raw buffer are all byte strings, here a list of
  (8-bit) characters.
\<close>

named_theorems res_simps \<open>evaluation of outcomes\<close>
named_theorems str_simps \<open>facts on searched and cut strings\<close>

type_synonym bytes = string
type_synonym frame = string
type_synonym multipart = "frame list"

section \<open>Outcomes\<close>

text \<open>The errno values the sources tell apart are EINTR and ETERM.\<close>

datatype errno = EINTR | ETERM | Other_errno int

datatype exn =
    Runtime_error string
  | Parse_error
  | Type_error
  | Out_of_range
  | Invalid_argument
  | Zmq_error errno
  | System_error
  | Bad_function_call

text \<open>
  \<open>Throws\<close> is an exception in flight; every exception of the sources derives from
  \<^verbatim>\<open>std::exception\<close>. \<open>Undefined\<close> is undefined behaviour (an out-of-bounds read, the
  front of an empty deque). \<open>Blocks\<close> is a blocking receive for which nothing arrives.
\<close>

datatype fault = Throws exn | Undefined | Blocks

type_synonym 'a res = "fault + 'a"

fun rbind :: "'a res \<Rightarrow> ('a \<Rightarrow> 'b res) \<Rightarrow> 'b res" where
  "rbind (Inl e) f = Inl e"
| "rbind (Inr x) f = f x"

text \<open>\<^verbatim>\<open>try { ... } catch (std::exception&)\<close> with a handler that yields a value.\<close>

fun catch_exn :: "'a res \<Rightarrow> 'a \<Rightarrow> 'a res" where
  "catch_exn (Inl (Throws e)) y = Inr y"
| "catch_exn r y = r"

lemma rbind_cong [fundef_cong]:
  "r = r' \<Longrightarrow> (\<And>x. r' = Inr x \<Longrightarrow> f x = g x) \<Longrightarrow> rbind r f = rbind r' g"
  by (cases r') auto

lemma rbind_Inr_iff [res_simps]: "rbind r f = Inr y \<longleftrightarrow> (\<exists>x. r = Inr x \<and> f x = Inr y)"
  by (cases r) auto

lemma rbind_Inl_iff: "rbind r f = Inl e \<longleftrightarrow> r = Inl e \<or> (\<exists>x. r = Inr x \<and> f x = Inl e)"
  by (cases r) auto

lemma rbind_assoc: "rbind (rbind r f) g = rbind r (\<lambda>x. rbind (f x) g)"
  by (cases r) auto

lemma catch_exn_Inr [simp]: "catch_exn (Inr x) y = Inr x"
  by simp

section \<open>Sizes\<close>

definition size_max :: nat where "size_max = 2 ^ 64"

definition sz_add :: "nat \<Rightarrow> nat \<Rightarrow> nat" where
  "sz_add a b = (a + b) mod size_max"

section \<open>Searching and cutting strings\<close>

text \<open>
  \<open>str_index\<close> is the least position at which \<open>pat\<close> stands in \<open>s\<close>; \<open>str_find\<close> is
  \<^verbatim>\<open>s.find(pat, from)\<close>, with \<open>None\<close> for \<^verbatim>\<open>npos\<close>; \<open>pos_value\<close> is the number a
  position has in size arithmetic.
\<close>

fun str_index :: "string \<Rightarrow> string \<Rightarrow> nat option" where
  "str_index pat [] = (if pat = [] then Some 0 else None)"
| "str_index pat (c # s) = (if prefix pat (c # s) then Some 0 else map_option Suc (str_index pat s))"

definition str_find :: "string \<Rightarrow> string \<Rightarrow> nat \<Rightarrow> nat option" where
  "str_find s pat from =
     (if from \<le> length s then map_option (\<lambda>i. from + i) (str_index pat (drop from s)) else None)"

definition pos_value :: "nat option \<Rightarrow> nat" where
  "pos_value p = (case p of None \<Rightarrow> size_max - 1 | Some i \<Rightarrow> i)"

text \<open>\<^verbatim>\<open>s.find_last_of(c)\<close> for a single character.\<close>

fun find_last_char :: "char \<Rightarrow> string \<Rightarrow> nat option" where
  "find_last_char c [] = None"
| "find_last_char c (x # s) =
     (case find_last_char c s of
        Some i \<Rightarrow> Some (Suc i)
      | None \<Rightarrow> if x = c then Some 0 else None)"

text \<open>\<^verbatim>\<open>s.substr(pos)\<close> and \<^verbatim>\<open>s.substr(pos, n)\<close>.\<close>

definition substr_from :: "string \<Rightarrow> nat \<Rightarrow> string res" where
  "substr_from s pos = (if pos \<le> length s then Inr (drop pos s) else Inl (Throws Out_of_range))"

definition substr_len :: "string \<Rightarrow> nat \<Rightarrow> nat \<Rightarrow> string res" where
  "substr_len s pos n =
     (if pos \<le> length s then Inr (take n (drop pos s)) else Inl (Throws Out_of_range))"

lemma append_eq_longer:
  "a @ r = b @ w \<Longrightarrow> length b \<le> length a \<Longrightarrow> \<exists>y. a = b @ y \<and> y @ r = w"
  by (auto simp: append_eq_append_conv2)

lemma str_index_bound: "str_index pat s = Some i \<Longrightarrow> i + length pat \<le> length s"
proof (induction s arbitrary: i)
  case Nil
  then show ?case by (simp split: if_splits)
next
  case (Cons c s)
  show ?case
  proof (cases "prefix pat (c # s)")
    case True
    with Cons.prems show ?thesis by (auto dest: prefix_length_le)
  next
    case False
    with Cons.prems obtain j where "i = Suc j" "str_index pat s = Some j" by auto
    with Cons.IH show ?thesis by fastforce
  qed
qed

lemma str_find_bound: "str_find s pat from = Some i \<Longrightarrow> from \<le> i \<and> i + length pat \<le> length s"
  by (auto simp: str_find_def dest!: str_index_bound split: if_splits)

lemma str_index_prefix [str_simps]: "prefix pat s \<Longrightarrow> str_index pat s = Some 0"
  by (cases s) auto

lemma str_index_short [str_simps]: "length s < length pat \<Longrightarrow> str_index pat s = None"
  using str_index_bound by (metis add_leD2 not_le option.exhaust)

text \<open>
  The search used to find a separator after a field that does not contain the separator's
  first character: the separator is found exactly when all of it has arrived.
\<close>

lemma str_index_after:
  "hd pat \<notin> set ds \<Longrightarrow> pat \<noteq> [] \<Longrightarrow> str_index pat (ds @ pat @ z) = Some (length ds)"
proof (induction ds)
  case Nil
  then show ?case by (simp add: str_index_prefix)
next
  case (Cons d ds)
  then have "\<not> prefix pat ((d # ds) @ pat @ z)" by (cases pat) auto
  with Cons show ?case by simp
qed

lemma str_index_take_before:
  "hd pat \<notin> set ds \<Longrightarrow> pat \<noteq> [] \<Longrightarrow> n < length ds + length pat
   \<Longrightarrow> str_index pat (take n (ds @ pat @ z)) = None"
proof (induction ds arbitrary: n)
  case Nil
  then show ?case by (simp add: str_index_short)
next
  case (Cons d ds)
  show ?case
  proof (cases n)
    case 0
    with Cons.prems show ?thesis by simp
  next
    case (Suc m)
    have "\<not> prefix pat (d # take m (ds @ pat @ z))"
      using Cons.prems by (cases pat) auto
    with Suc Cons show ?thesis by simp
  qed
qed

text \<open>The last position of a character, and what the end points are cut at.\<close>

lemma find_last_char_absent: "c \<notin> set s \<Longrightarrow> find_last_char c s = None"
  by (induction s) auto

lemma find_last_char_append:
  "c \<notin> set t \<Longrightarrow> find_last_char c (s @ c # t) = Some (length s)"
  by (induction s) (auto simp: find_last_char_absent)

section \<open>Numbers in decimal\<close>

definition digit_char :: "nat \<Rightarrow> char" where "digit_char d = char_of (48 + d)"

text \<open>\<^verbatim>\<open>std::to_string\<close> of an unsigned value.\<close>

fun to_string :: "nat \<Rightarrow> string" where
  "to_string n = (if n < 10 then [digit_char n] else to_string (n div 10) @ [digit_char (n mod 10)])"

declare to_string.simps [simp del]

definition is_digit :: "char \<Rightarrow> bool" where
  "is_digit c \<longleftrightarrow> 48 \<le> (of_char c :: nat) \<and> (of_char c :: nat) \<le> 57"

definition is_space :: "char \<Rightarrow> bool" where
  "is_space c \<longleftrightarrow> (of_char c :: nat) = 32 \<or> 9 \<le> (of_char c :: nat) \<and> (of_char c :: nat) \<le> 13"

definition digits_value :: "string \<Rightarrow> nat" where
  "digits_value = foldl (\<lambda>n c. 10 * n + (of_char c - 48)) 0"

text \<open>
  \<^verbatim>\<open>std::stoull(s)\<close>, base 10: white space, an optional sign, then the longest run of
  digits; \<^verbatim>\<open>invalid_argument\<close> without a digit, \<^verbatim>\<open>out_of_range\<close> above the 64-bit range, and
  a minus sign negates modulo the range.
\<close>

definition stoull :: "string \<Rightarrow> nat res" where
  "stoull s =
     (let s1 = dropWhile is_space s;
          neg = (case s1 of [] \<Rightarrow> False | c # _ \<Rightarrow> c = CHR ''-'');
          s2 = (case s1 of [] \<Rightarrow> [] | c # cs \<Rightarrow> if c = CHR ''-'' \<or> c = CHR ''+'' then cs else s1);
          ds = takeWhile is_digit s2;
          n = digits_value ds
      in if ds = [] then Inl (Throws Invalid_argument)
         else if size_max \<le> n then Inl (Throws Out_of_range)
         else Inr (if neg then (size_max - n) mod size_max else n))"

lemma of_digit_char [simp]: "d < 10 \<Longrightarrow> (of_char (digit_char d) :: nat) = 48 + d"
  by (simp add: digit_char_def)

lemma digit_char_values [simp]:
  "digit_char 0 = CHR ''0''" "digit_char (Suc 0) = CHR ''1''" "digit_char (Suc (Suc 0)) = CHR ''2''" "digit_char 2 = CHR ''2''" "digit_char 3 = CHR ''3''" "digit_char 4 = CHR ''4''"
  "digit_char 5 = CHR ''5''" "digit_char 6 = CHR ''6''" "digit_char 7 = CHR ''7''" "digit_char 8 = CHR ''8''" "digit_char 9 = CHR ''9''"
  by (simp_all add: digit_char_def char_of_def bit_Suc_0_iff)

lemma is_digit_digit_char [simp]: "d < 10 \<Longrightarrow> is_digit (digit_char d)"
  by (simp add: is_digit_def)

lemma to_string_digits: "\<forall>c \<in> set (to_string n). is_digit c"
proof (induction n rule: to_string.induct)
  case (1 n)
  then show ?case by (subst to_string.simps) auto
qed

lemma to_string_nonempty [simp]: "to_string n \<noteq> []"
  by (subst to_string.simps) simp

lemma digits_value_snoc: "digits_value (s @ [c]) = 10 * digits_value s + (of_char c - 48)"
  by (simp add: digits_value_def)

lemma digits_value_to_string [simp]: "digits_value (to_string n) = n"
proof (induction n rule: to_string.induct)
  case (1 n)
  show ?case
  proof (cases "n < 10")
    case True
    then show ?thesis by (subst to_string.simps) (simp add: digits_value_def)
  next
    case False
    with 1 show ?thesis by (subst to_string.simps) (simp add: digits_value_snoc)
  qed
qed

lemma not_digit_in_to_string: "\<not> is_digit c \<Longrightarrow> c \<notin> set (to_string n)"
  using to_string_digits by blast

text \<open>Reading back a printed number, whatever non-digit follows it.\<close>

lemma stoull_to_string:
  assumes "n < size_max" "\<not> is_digit c"
  shows "stoull (to_string n @ c # z) = Inr n"
proof -
  obtain d ds where ts: "to_string n = d # ds"
    by (cases "to_string n") auto
  have d: "is_digit d" using to_string_digits [of n] ts by simp
  then have "\<not> is_space d" "d \<noteq> CHR ''-''" "d \<noteq> CHR ''+''"
    by (auto simp: is_digit_def is_space_def)
  moreover have "takeWhile is_digit (to_string n @ c # z) = to_string n"
    using to_string_digits [of n] assms(2) by (simp add: takeWhile_tail)
  ultimately show ?thesis
    using assms(1) d digits_value_to_string [of n] by (simp add: stoull_def ts)
qed

end
