(* ===== verification/Dap_Framing.thy ===== *)
theory Dap_Framing
  imports Cpp_Prelude
begin

text \<open>
  The wire format of the Debug Adapter Protocol client
  (\<^verbatim>\<open>src/debugger/xdap_tcp_client_impl.cpp\<close>): \<^verbatim>\<open>Content-Length\<close> framing on the sending
  side, and \<^verbatim>\<open>handle_tcp_socket\<close>, which reassembles messages from the chunks that arrive on
  the TCP stream. The stream is the list of frames that successive \<^verbatim>\<open>recv\<close> calls return; a
  chunk is two of them, a ZeroMQ identity (discarded) and the bytes.
\<close>

section \<open>The format\<close>

definition HEADER :: string where "HEADER = ''Content-Length: ''"
definition HEADER_LENGTH :: nat where "HEADER_LENGTH = 16"
definition SEPARATOR :: string where "SEPARATOR = [CHR 0x0D, CHR 0x0A, CHR 0x0D, CHR 0x0A]"
definition SEPARATOR_LENGTH :: nat where "SEPARATOR_LENGTH = 4"

definition dap_buffer :: "string \<Rightarrow> string" where
  "dap_buffer content =
     (let content_length = length content
      in HEADER @ to_string content_length @ SEPARATOR @ content)"

lemma length_HEADER [simp]: "length HEADER = 16"
  by (simp add: HEADER_def)

lemma length_SEPARATOR [simp]: "length SEPARATOR = 4"
  by (simp add: SEPARATOR_def)

lemma SEPARATOR_cases [simp]: "SEPARATOR \<noteq> []" "hd SEPARATOR = CHR 0x0D"
  by (simp_all add: SEPARATOR_def)

section \<open>Reassembling messages\<close>

fun append_tcp_message :: "frame list \<Rightarrow> string \<Rightarrow> (frame list \<times> string) res" where
  "append_tcp_message (header # content # ins) buffer = Inr (ins, buffer @ content)"
| "append_tcp_message ins buffer = Inl Blocks"

lemma append_tcp_message_shorter [termination_simp]:
  "append_tcp_message ins buffer = Inr (ins', buffer') \<Longrightarrow> length ins' < length ins"
  by (cases "(ins, buffer)" rule: append_tcp_message.cases) auto

text \<open>
  \<^verbatim>\<open>while(pos == npos) { append_tcp_message(buffer); pos = buffer.find(pat, hint); }\<close>, the
  loop that waits for a header and the one that waits for a separator.
\<close>

fun search_loop :: "string \<Rightarrow> nat \<Rightarrow> frame list \<Rightarrow> string \<Rightarrow> nat option \<Rightarrow> (frame list \<times> string \<times> nat) res"
where
  "search_loop pat hint ins buffer (Some pos) = Inr (ins, buffer, pos)"
| "search_loop pat hint ins buffer None =
     (case append_tcp_message ins buffer of
        Inl e \<Rightarrow> Inl e
      | Inr (ins', buffer') \<Rightarrow> search_loop pat hint ins' buffer' (str_find buffer' pat hint))"

text \<open>\<^verbatim>\<open>while(buffer.size() - msg_pos < msg_size) append_tcp_message(buffer);\<close>\<close>

fun size_loop :: "nat \<Rightarrow> nat \<Rightarrow> frame list \<Rightarrow> string \<Rightarrow> (frame list \<times> string) res" where
  "size_loop msg_pos msg_size ins buffer =
     (if length buffer - msg_pos < msg_size
      then (case append_tcp_message ins buffer of
              Inl e \<Rightarrow> Inl e
            | Inr (ins', buffer') \<Rightarrow> size_loop msg_pos msg_size ins' buffer')
      else Inr (ins, buffer))"

declare size_loop.simps [simp del]

lemma search_loop_progress:
  "search_loop pat hint ins buffer pos = Inr (ins', buffer', p) \<Longrightarrow>
   length ins' \<le> length ins \<and> (pos = None \<longrightarrow> length ins' < length ins) \<and>
   (pos = None \<longrightarrow> str_find buffer' pat hint = Some p) \<and>
   (pos \<noteq> None \<longrightarrow> pos = Some p \<and> ins' = ins \<and> buffer' = buffer)"
proof (induction pat hint ins buffer pos rule: search_loop.induct)
  case (2 pat hint ins buffer)
  then obtain ins1 buffer1 where a: "append_tcp_message ins buffer = Inr (ins1, buffer1)"
    by (auto split: sum.splits)
  from 2(1) [OF a refl] 2(2) a append_tcp_message_shorter [OF a] show ?case
    by (cases "str_find buffer1 pat hint") auto
qed auto

lemma size_loop_progress:
  "size_loop msg_pos msg_size ins buffer = Inr (ins', buffer') \<Longrightarrow>
   length ins' \<le> length ins \<and> (length ins' = length ins \<longrightarrow> ins' = ins \<and> buffer' = buffer) \<and>
   msg_size \<le> length buffer' - msg_pos"
proof (induction msg_pos msg_size ins buffer rule: size_loop.induct)
  case (1 msg_pos msg_size ins buffer)
  show ?case
  proof (cases "length buffer - msg_pos < msg_size")
    case True
    with 1(2) obtain ins1 buffer1 where a: "append_tcp_message ins buffer = Inr (ins1, buffer1)"
      by (subst (asm) size_loop.simps) (auto split: sum.splits)
    with True 1(2) have "size_loop msg_pos msg_size ins1 buffer1 = Inr (ins', buffer')"
      by (subst (asm) size_loop.simps) auto
    with 1(1) [OF True a refl] append_tcp_message_shorter [OF a] show ?thesis by auto
  next
    case False
    with 1(2) show ?thesis by (subst (asm) size_loop.simps) auto
  qed
qed

text \<open>
  The outer loop: \<open>header_pos\<close>, \<open>hint\<close> and the buffer are the code's variables, the result
  holds what is left of the stream and the message queue. The loop ends when the buffer ends
  exactly at the end of a message.
\<close>

function handle_tcp_loop :: "frame list \<Rightarrow> string \<Rightarrow> nat option \<Rightarrow> nat \<Rightarrow> string list
    \<Rightarrow> (frame list \<times> string list) res" where
  "handle_tcp_loop ins buffer header_pos hint message_queue =
     rbind (search_loop HEADER hint ins buffer header_pos) (\<lambda>(ins1, buffer1, hpos).
       let hint1 = hpos + HEADER_LENGTH in
       rbind (search_loop SEPARATOR hint1 ins1 buffer1 (str_find buffer1 SEPARATOR hint1))
         (\<lambda>(ins2, buffer2, separator_pos).
           rbind (substr_len buffer2 (hpos + HEADER_LENGTH) separator_pos) (\<lambda>field.
             rbind (stoull field) (\<lambda>msg_size.
               let msg_pos = separator_pos + SEPARATOR_LENGTH in
               rbind (size_loop msg_pos msg_size ins2 buffer2) (\<lambda>(ins3, buffer3).
                 if length buffer3 - msg_pos = msg_size
                 then Inr (ins3, message_queue @ [drop msg_pos buffer3])
                 else
                   let hint2 = msg_pos + msg_size in
                   handle_tcp_loop ins3 buffer3 (str_find buffer3 HEADER hint2) hint2
                     (message_queue @ [take msg_size (drop msg_pos buffer3)]))))))"
  by pat_completeness auto
termination
proof (relation "measures [\<lambda>(ins, buffer, hp, hint, q). length ins,
    \<lambda>(ins, buffer, hp, hint, q). case hp of None \<Rightarrow> 0 | Some p \<Rightarrow> Suc (length buffer - p)]")
  fix ins buffer header_pos hint message_queue x ins1 y buffer1 hpos hint1 x1 ins2 y1
    buffer2 separator_pos field msg_size msg_pos x2 ins3 buffer3 hint2
  assume h: "search_loop HEADER hint ins buffer header_pos = Inr x"
      "(ins1, y) = x" "(buffer1, hpos) = y" "hint1 = hpos + HEADER_LENGTH"
    and s: "search_loop SEPARATOR hint1 ins1 buffer1 (str_find buffer1 SEPARATOR hint1) = Inr x1"
      "(ins2, y1) = x1" "(buffer2, separator_pos) = y1"
    and m: "msg_pos = separator_pos + SEPARATOR_LENGTH"
      "size_loop msg_pos msg_size ins2 buffer2 = Inr x2" "(ins3, buffer3) = x2"
    and n: "hint2 = msg_pos + msg_size"
  from h have hl: "search_loop HEADER hint ins buffer header_pos = Inr (ins1, buffer1, hpos)" by simp
  from s have sl: "search_loop SEPARATOR hint1 ins1 buffer1 (str_find buffer1 SEPARATOR hint1)
      = Inr (ins2, buffer2, separator_pos)" by simp
  from m have ml: "size_loop msg_pos msg_size ins2 buffer2 = Inr (ins3, buffer3)" by simp
  note hp = search_loop_progress [OF hl] and sp = search_loop_progress [OF sl]
    and mp = size_loop_progress [OF ml]
  have "length ins3 < length ins \<or> length ins3 = length ins \<and> (case str_find buffer3 HEADER hint2 of
      None \<Rightarrow> 0 | Some p \<Rightarrow> Suc (length buffer3 - p)) <
      (case header_pos of None \<Rightarrow> 0 | Some p \<Rightarrow> Suc (length buffer - p))"
  proof (cases "length ins3 < length ins")
    case False
    with hp sp mp have same: "header_pos = Some hpos" "buffer3 = buffer" "buffer1 = buffer"
      "length ins3 = length ins" "str_find buffer SEPARATOR hint1 = Some separator_pos"
      by auto
    show ?thesis
    proof (cases "str_find buffer3 HEADER hint2")
      case None
      with same show ?thesis by simp
    next
      case (Some p)
      then have "hint2 \<le> p" "p < length buffer"
        using str_find_bound [of buffer HEADER hint2 p] same by auto
      moreover have "hpos < hint2"
        using str_find_bound [OF same(5)] h(4) m(1) n by (simp add: HEADER_LENGTH_def)
      ultimately have "length buffer - p < length buffer - hpos" by arith
      with Some same show ?thesis by simp
    qed
  qed simp
  then show "((ins3, buffer3, str_find buffer3 HEADER hint2, hint2,
        message_queue @ [take msg_size (drop msg_pos buffer3)]),
      (ins, buffer, header_pos, hint, message_queue))
    \<in> measures [\<lambda>(ins, buffer, hp, hint, q). length ins,
      \<lambda>(ins, buffer, hp, hint, q). case hp of None \<Rightarrow> 0 | Some p \<Rightarrow> Suc (length buffer - p)]"
    by auto
qed simp

declare handle_tcp_loop.simps [simp del]

definition handle_tcp_socket :: "frame list \<Rightarrow> string list \<Rightarrow> (frame list \<times> string list) res" where
  "handle_tcp_socket ins message_queue = handle_tcp_loop ins [] None 0 message_queue"

section \<open>What a chunked stream holds\<close>

text \<open>
  A stream is a list of chunks, each an identity frame and a content frame; \<open>payload\<close> is the
  byte stream they carry.
\<close>

definition tcp_frames :: "(frame \<times> frame) list \<Rightarrow> frame list" where
  "tcp_frames cs = concat (map (\<lambda>(h, c). [h, c]) cs)"

definition payload :: "(frame \<times> frame) list \<Rightarrow> string" where
  "payload cs = concat (map snd cs)"

lemma tcp_frames_simps [simp]:
  "tcp_frames [] = []" "tcp_frames ((h, c) # cs) = h # c # tcp_frames cs"
  by (simp_all add: tcp_frames_def)

lemma payload_simps [simp]:
  "payload [] = []" "payload ((h, c) # cs) = c @ payload cs" "payload (cs @ ds) = payload cs @ payload ds"
  by (simp_all add: payload_def)

lemma search_loop_chunks:
  assumes "str_find (buffer @ payload cs) pat hint \<noteq> None"
  shows "\<exists>ds es p. cs = ds @ es \<and> str_find (buffer @ payload ds) pat hint = Some p \<and>
    search_loop pat hint (tcp_frames cs) buffer (str_find buffer pat hint)
      = Inr (tcp_frames es, buffer @ payload ds, p)"
  using assms
proof (induction cs arbitrary: buffer)
  case Nil
  then show ?case by auto
next
  case (Cons hc cs)
  obtain h c where hc: "hc = (h, c)" by (cases hc)
  show ?case
  proof (cases "str_find buffer pat hint")
    case None
    from Cons.prems hc have "str_find ((buffer @ c) @ payload cs) pat hint \<noteq> None" by simp
    from Cons.IH [OF this] obtain ds es p where r: "cs = ds @ es"
        "str_find ((buffer @ c) @ payload ds) pat hint = Some p"
        "search_loop pat hint (tcp_frames cs) (buffer @ c) (str_find (buffer @ c) pat hint)
          = Inr (tcp_frames es, (buffer @ c) @ payload ds, p)" by blast
    from r None hc show ?thesis by (intro exI [of _ "hc # ds"] exI [of _ es] exI [of _ p]) simp
  next
    case (Some p)
    then show ?thesis by (intro exI [of _ "[]"] exI [of _ "hc # cs"] exI [of _ p]) simp
  qed
qed

lemma size_loop_chunks:
  assumes "msg_size \<le> length (buffer @ payload cs) - msg_pos"
  shows "\<exists>ds es. cs = ds @ es \<and> msg_size \<le> length (buffer @ payload ds) - msg_pos \<and>
    size_loop msg_pos msg_size (tcp_frames cs) buffer = Inr (tcp_frames es, buffer @ payload ds)"
  using assms
proof (induction cs arbitrary: buffer)
  case Nil
  then show ?case by (subst size_loop.simps) auto
next
  case (Cons hc cs)
  obtain h c where hc: "hc = (h, c)" by (cases hc)
  show ?case
  proof (cases "length buffer - msg_pos < msg_size")
    case True
    from Cons.prems hc have "msg_size \<le> length ((buffer @ c) @ payload cs) - msg_pos" by simp
    from Cons.IH [OF this] obtain ds es where r: "cs = ds @ es"
        "msg_size \<le> length ((buffer @ c) @ payload ds) - msg_pos"
        "size_loop msg_pos msg_size (tcp_frames cs) (buffer @ c)
          = Inr (tcp_frames es, (buffer @ c) @ payload ds)" by blast
    from True hc have "size_loop msg_pos msg_size (tcp_frames (hc # cs)) buffer
        = size_loop msg_pos msg_size (tcp_frames cs) (buffer @ c)"
      by (subst size_loop.simps) simp
    with r hc show ?thesis by (intro exI [of _ "hc # ds"] exI [of _ es]) simp
  next
    case False
    then show ?thesis
      by (intro exI [of _ "[]"] exI [of _ "hc # cs"]) (simp add: size_loop.simps)
  qed
qed

section \<open>Positions in a framed stream\<close>

text \<open>
  In a stream \<open>w\<close> that continues with one framed message at position \<open>length p\<close>, a search in
  what has arrived so far finds the header and the separator where they are, once all of
  them has arrived, and nothing before.
\<close>

lemma find_header_in_stream:
  assumes "buffer @ rest = p @ dap_buffer m @ z" "length p \<le> length buffer"
    "str_find buffer HEADER (length p) = Some i"
  shows "i = length p"
proof -
  have "drop (length p) buffer = take (length buffer - length p) (dap_buffer m @ z)"
    using assms(1,2) by (metis append_eq_conv_conj drop_take)
  then have d: "drop (length p) buffer = take (length buffer - length p)
      ([] @ HEADER @ to_string (length m) @ SEPARATOR @ m @ z)"
    by (simp add: dap_buffer_def Let_def)
  show ?thesis
  proof (cases "length buffer - length p < 16")
    case True
    then have "str_index HEADER (drop (length p) buffer) = None" by (simp add: str_index_short)
    with assms(2,3) show ?thesis by (simp add: str_find_def)
  next
    case False
    then have "prefix HEADER (drop (length p) buffer)"
      using d by (simp add: take_append)
    with assms(2,3) show ?thesis by (simp add: str_find_def str_index_prefix)
  qed
qed

lemma find_separator_in_stream:
  assumes "buffer @ rest = p @ ds @ SEPARATOR @ z" "length p \<le> length buffer"
    "CHR 0x0D \<notin> set ds" "str_find buffer SEPARATOR (length p) = Some i"
  shows "i = length p + length ds"
proof -
  let ?n = "length buffer - length p"
  have d: "drop (length p) buffer = take ?n (ds @ SEPARATOR @ z)"
    using assms(1,2) by (metis append_eq_conv_conj drop_take)
  show ?thesis
  proof (cases "?n < length ds + 4")
    case True
    then have "str_index SEPARATOR (drop (length p) buffer) = None"
      using d str_index_take_before [of SEPARATOR ds ?n z] assms(3) by simp
    with assms(2,4) show ?thesis by (simp add: str_find_def)
  next
    case False
    then have "drop (length p) buffer = ds @ SEPARATOR @ take (?n - length ds - 4) z"
      using d by simp
    then have "str_index SEPARATOR (drop (length p) buffer) = Some (length ds)"
      using str_index_after [of SEPARATOR ds] assms(3) by simp
    with assms(2,4) show ?thesis by (simp add: str_find_def)
  qed
qed

lemma to_string_no_CR [simp]: "CHR 0x0D \<notin> set (to_string n)"
  by (rule not_digit_in_to_string) (simp add: is_digit_def)

lemma stoull_length_field:
  assumes "length m < size_max" "0 < n"
  shows "stoull (take (length (to_string (length m)) + n) (to_string (length m) @ SEPARATOR @ z))
    = Inr (length m)"
proof -
  obtain k where "n = Suc k" using assms(2) by (cases n) auto
  then have "take (length (to_string (length m)) + n) (to_string (length m) @ SEPARATOR @ z)
      = to_string (length m) @ CHR 0x0D # take k (tl SEPARATOR @ z)"
    by (simp add: SEPARATOR_def)
  then show ?thesis using assms(1) by (simp add: stoull_to_string is_digit_def)
qed

section \<open>One message\<close>

text \<open>
  One turn of the outer loop on a stream that continues with \<open>dap_buffer m\<close> at position
  \<open>length p\<close>: it pushes \<open>m\<close>, and goes on exactly when more bytes have arrived already.
\<close>

lemma handle_tcp_loop_message:
  assumes stream: "buffer @ payload cs = p @ dap_buffer m @ z"
    and here: "length p \<le> length buffer" and size: "length m < size_max"
  shows "\<exists>ds es z1. cs = ds @ es \<and> buffer @ payload ds = p @ dap_buffer m @ z1 \<and>
    handle_tcp_loop (tcp_frames cs) buffer (str_find buffer HEADER (length p)) (length p) q =
      (if z1 = [] then Inr (tcp_frames es, q @ [m])
       else let b = buffer @ payload ds; h = length (p @ dap_buffer m)
            in handle_tcp_loop (tcp_frames es) b (str_find b HEADER h) h (q @ [m]))"
proof -
  let ?ds = "to_string (length m)" and ?h = "length p"
  let ?sep = "?h + 16 + length ?ds"
  have full: "buffer @ payload cs = p @ HEADER @ ?ds @ SEPARATOR @ m @ z"
    using stream by (simp add: dap_buffer_def Let_def)
  have "str_find (buffer @ payload cs) HEADER ?h \<noteq> None"
    by (simp add: full str_find_def str_index_prefix)
  from search_loop_chunks [OF this] obtain d1 e1 i where s1: "cs = d1 @ e1"
    "str_find (buffer @ payload d1) HEADER ?h = Some i"
    "search_loop HEADER ?h (tcp_frames cs) buffer (str_find buffer HEADER ?h)
      = Inr (tcp_frames e1, buffer @ payload d1, i)" by blast
  define b1 where "b1 = buffer @ payload d1"
  have st1: "b1 @ payload e1 = p @ dap_buffer m @ z" using stream s1(1) by (simp add: b1_def)
  have i: "i = ?h"
    using find_header_in_stream [OF st1] s1(2) here by (simp add: b1_def)
  have b1: "?h + 16 \<le> length b1" using str_find_bound [OF s1(2)] i by (simp add: b1_def)
  have f1: "b1 @ payload e1 = (p @ HEADER) @ ?ds @ SEPARATOR @ m @ z"
    using st1 by (simp add: dap_buffer_def Let_def)
  have "drop (?h + 16) (b1 @ payload e1) = ?ds @ SEPARATOR @ m @ z" unfolding f1 by simp
  then have "str_find (b1 @ payload e1) SEPARATOR (?h + 16) \<noteq> None"
    using b1 str_index_after [of SEPARATOR ?ds "m @ z"] by (simp add: str_find_def del: drop_append)
  from search_loop_chunks [OF this] obtain d2 e2 j where s2: "e1 = d2 @ e2"
    "str_find (b1 @ payload d2) SEPARATOR (?h + 16) = Some j"
    "search_loop SEPARATOR (?h + 16) (tcp_frames e1) b1 (str_find b1 SEPARATOR (?h + 16))
      = Inr (tcp_frames e2, b1 @ payload d2, j)" by blast
  define b2 where "b2 = b1 @ payload d2"
  have f2: "b2 @ payload e2 = (p @ HEADER) @ ?ds @ SEPARATOR @ m @ z"
    using f1 s2(1) by (simp add: b2_def)
  have j: "j = ?sep"
    using find_separator_in_stream [OF f2, of j] s2(2) b1 by (simp add: b2_def)
  have b2: "?sep + 4 \<le> length b2" using str_find_bound [OF s2(2)] j by (simp add: b2_def)
  have "b2 @ payload e2 = (p @ HEADER @ ?ds @ SEPARATOR) @ m @ z" using f2 by simp
  from append_eq_longer [OF this] b2
  obtain y where y: "b2 = p @ HEADER @ ?ds @ SEPARATOR @ y" "y @ payload e2 = m @ z" by auto
  have field: "substr_len b2 (?h + 16) ?sep = Inr (take (length ?ds + (?h + 16)) (?ds @ SEPARATOR @ y))"
    using y(1) by (simp add: substr_len_def add_ac)
  have num: "stoull (take (length ?ds + (?h + 16)) (?ds @ SEPARATOR @ y)) = Inr (length m)"
    using size by (intro stoull_length_field) simp_all
  have "length m \<le> length (b2 @ payload e2) - (?sep + 4)" unfolding f2 by simp
  from size_loop_chunks [OF this] obtain d3 e3 where s3: "e2 = d3 @ e3"
    "length m \<le> length (b2 @ payload d3) - (?sep + 4)"
    "size_loop (?sep + 4) (length m) (tcp_frames e2) b2 = Inr (tcp_frames e3, b2 @ payload d3)"
    by blast
  have "(y @ payload d3) @ payload e3 = m @ z" using y(2) s3(1) by simp
  from append_eq_longer [OF this] s3(2) y(1) obtain z1 where z1: "y @ payload d3 = m @ z1" by auto
  define b3 where "b3 = b2 @ payload d3"
  have b3: "b3 = p @ dap_buffer m @ z1"
    using z1 by (simp add: b3_def y(1) dap_buffer_def Let_def)
  have b3': "buffer @ payload (d1 @ d2 @ d3) = b3" by (simp add: b1_def b2_def b3_def)
  have msg: "drop (?sep + 4) b3 = m @ z1" using z1 by (simp add: b3_def y(1))
  then have rest: "length b3 - (?sep + 4) = length m + length z1" by (metis length_append length_drop)
  have len: "length (p @ dap_buffer m) = ?sep + 4 + length m" by (simp add: dap_buffer_def Let_def)
  have l1: "search_loop HEADER ?h (tcp_frames cs) buffer (str_find buffer HEADER ?h)
      = Inr (tcp_frames e1, b1, ?h)" using s1(3) i by (simp add: b1_def)
  have l2: "search_loop SEPARATOR (?h + 16) (tcp_frames e1) b1 (str_find b1 SEPARATOR (?h + 16))
      = Inr (tcp_frames e2, b2, ?sep)" using s2(3) j by (simp add: b2_def)
  have l3: "size_loop (?sep + 4) (length m) (tcp_frames e2) b2 = Inr (tcp_frames e3, b3)"
    using s3(3) by (simp add: b3_def)
  have "handle_tcp_loop (tcp_frames cs) buffer (str_find buffer HEADER ?h) ?h q =
      (if z1 = [] then Inr (tcp_frames e3, q @ [m])
       else let b = b3; h = length (p @ dap_buffer m)
            in handle_tcp_loop (tcp_frames e3) b (str_find b HEADER h) h (q @ [m]))"
    unfolding len
    by (subst handle_tcp_loop.simps)
      (simp only: l1 l2 l3 field num rest msg rbind.simps prod.case Let_def HEADER_LENGTH_def
        SEPARATOR_LENGTH_def, simp)
  then show ?thesis
    using s1(1) s2(1) s3(1) b3 unfolding b3' [symmetric]
    by (intro exI [of _ "d1 @ d2 @ d3"] exI [of _ e3] exI [of _ z1]) simp
qed

section \<open>The whole stream\<close>

lemma handle_tcp_loop_messages:
  "buffer @ payload cs = p @ concat (map dap_buffer ms) \<Longrightarrow> length p \<le> length buffer \<Longrightarrow> ms \<noteq> [] \<Longrightarrow>
   \<forall>m \<in> set ms. length m < size_max \<Longrightarrow>
   \<exists>k ds es. 0 < k \<and> k \<le> length ms \<and> cs = ds @ es \<and>
     payload es = concat (map dap_buffer (drop k ms)) \<and>
     handle_tcp_loop (tcp_frames cs) buffer (str_find buffer HEADER (length p)) (length p) q
       = Inr (tcp_frames es, q @ take k ms)"
proof (induction ms arbitrary: buffer cs p q)
  case Nil
  then show ?case by simp
next
  case (Cons m ms)
  let ?z = "concat (map dap_buffer ms)" and ?h = "length (p @ dap_buffer m)"
  from Cons.prems have "buffer @ payload cs = p @ dap_buffer m @ ?z" "length m < size_max" by simp_all
  from handle_tcp_loop_message [OF this(1) Cons.prems(2) this(2), of q]
  obtain ds es z1 where one: "cs = ds @ es" "buffer @ payload ds = p @ dap_buffer m @ z1"
    "handle_tcp_loop (tcp_frames cs) buffer (str_find buffer HEADER (length p)) (length p) q =
      (if z1 = [] then Inr (tcp_frames es, q @ [m])
       else let b = buffer @ payload ds
            in handle_tcp_loop (tcp_frames es) b (str_find b HEADER ?h) ?h (q @ [m]))"
    by (auto simp: Let_def)
  have "(buffer @ payload ds) @ payload es = p @ dap_buffer m @ ?z"
    using Cons.prems(1) one(1) by simp
  then have rest: "z1 @ payload es = ?z" unfolding one(2) by simp
  show ?case
  proof (cases "z1 = []")
    case True
    with one rest show ?thesis
      by (intro exI [of _ 1] exI [of _ ds] exI [of _ es]) simp
  next
    case False
    then have ne: "ms \<noteq> []" using rest by auto
    have "(p @ dap_buffer m @ z1) @ payload es = (p @ dap_buffer m) @ ?z" using rest by simp
    from Cons.IH [OF this _ ne, of "q @ [m]"] Cons.prems(4)
    obtain k ds' es' where ih: "0 < k" "k \<le> length ms" "es = ds' @ es'"
      "payload es' = concat (map dap_buffer (drop k ms))"
      "handle_tcp_loop (tcp_frames es) (p @ dap_buffer m @ z1)
        (str_find (p @ dap_buffer m @ z1) HEADER ?h) ?h (q @ [m]) = Inr (tcp_frames es', (q @ [m]) @ take k ms)"
      by auto
    from one ih False show ?thesis
      by (intro exI [of _ "Suc k"] exI [of _ "ds @ ds'"] exI [of _ es']) (simp add: Let_def)
  qed
qed

text \<open>
  C1. However the TCP stream of a sequence of framed messages is cut into chunks, one call of
  \<^verbatim>\<open>handle_tcp_socket\<close> returns, appends a non-empty run of the messages to the queue, in
  order and byte for byte, and leaves exactly the stream of the remaining messages.
\<close>

theorem handle_tcp_socket_reassembles:
  assumes "payload cs = concat (map dap_buffer ms)" "ms \<noteq> []" "\<forall>m \<in> set ms. length m < size_max"
  shows "\<exists>k ds es. 0 < k \<and> k \<le> length ms \<and> cs = ds @ es \<and>
    payload es = concat (map dap_buffer (drop k ms)) \<and>
    handle_tcp_socket (tcp_frames cs) message_queue = Inr (tcp_frames es, message_queue @ take k ms)"
  using handle_tcp_loop_messages [of "[]" cs "[]" ms message_queue] assms
  by (simp add: handle_tcp_socket_def str_find_def HEADER_def)

theorem handle_tcp_socket_reassembles_witness:
  "\<exists>k ds es. 0 < k \<and> k \<le> length [''ab'', ''c''] \<and>
    [(''i'', ''Content-''), (''i'', ''Length: 2'' @ SEPARATOR @ ''a''),
     (''i'', ''bContent-Length: 1'' @ SEPARATOR @ ''c'')] = ds @ es \<and>
    payload es = concat (map dap_buffer (drop k [''ab'', ''c''])) \<and>
    handle_tcp_socket (tcp_frames [(''i'', ''Content-''), (''i'', ''Length: 2'' @ SEPARATOR @ ''a''),
     (''i'', ''bContent-Length: 1'' @ SEPARATOR @ ''c'')]) [] = Inr (tcp_frames es, [] @ take k [''ab'', ''c''])"
  by (rule handle_tcp_socket_reassembles)
    (simp_all add: payload_def dap_buffer_def HEADER_def Let_def size_max_def to_string.simps)

end
