(* ===== verification/Json_Api.thy ===== *)
theory Json_Api
  imports Cpp_Prelude "HOL-Library.AList"
begin

text \<open>
  The JSON library (nlohmann/json) is not part of the repository: its values are a type
  variable \<open>'j\<close> and its operations a parameter of every definition that uses them, collected
  in the record \<open>json_api\<close>. A field returns an outcome where the library's call can raise.
  What a theorem relies on (that parsing inverts dumping on some values, that a key that was
  set is found) is a named hypothesis about this record.
\<close>

datatype error_handler = strict | replace | ignore

record 'j json_api =
  j_parse :: "string \<Rightarrow> 'j res"
  j_dump :: "error_handler \<Rightarrow> 'j \<Rightarrow> string res"
  j_null :: 'j
  j_object :: "(string \<times> 'j) list \<Rightarrow> 'j"
  j_array :: "'j list \<Rightarrow> 'j"
  j_string :: "string \<Rightarrow> 'j"
  j_number :: "int \<Rightarrow> 'j"
  j_bool :: "bool \<Rightarrow> 'j"
  j_at :: "'j \<Rightarrow> string \<Rightarrow> 'j res"
  j_set :: "'j \<Rightarrow> string \<Rightarrow> 'j \<Rightarrow> 'j res"
  j_erase :: "'j \<Rightarrow> string \<Rightarrow> 'j res"
  j_contains :: "'j \<Rightarrow> string \<Rightarrow> bool"
  j_is_array :: "'j \<Rightarrow> bool"
  j_elems :: "'j \<Rightarrow> 'j list"
  j_get_string :: "'j \<Rightarrow> string res"
  j_get_int :: "'j \<Rightarrow> int res"
  j_get_bool :: "'j \<Rightarrow> bool res"

text \<open>
  Documented behaviour used as a hypothesis: a value that dumps without an error parses back
  to itself.
\<close>

definition json_reads_back :: "'j json_api \<Rightarrow> error_handler \<Rightarrow> 'j \<Rightarrow> bool" where
  "json_reads_back J eh v \<longleftrightarrow> (\<exists>s. j_dump J eh v = Inr s \<and> j_parse J s = Inr v)"

text \<open>
  \<^verbatim>\<open>v[k1][k2]...\<close> of a constant value: \<open>j_at\<close> is a read of a member, which is undefined
  for a key an object does not have and a type error for other values.
\<close>

fun j_path :: "'j json_api \<Rightarrow> 'j \<Rightarrow> string list \<Rightarrow> 'j res" where
  "j_path J v [] = Inr v"
| "j_path J v (k # ks) = rbind (j_at J v k) (\<lambda>w. j_path J w ks)"

text \<open>\<^verbatim>\<open>v[k1][k2]... == "s"\<close>: a comparison of JSON values.\<close>

definition j_path_is :: "'j json_api \<Rightarrow> 'j \<Rightarrow> string list \<Rightarrow> string \<Rightarrow> bool res" where
  "j_path_is J v ks s = rbind (j_path J v ks) (\<lambda>w. Inr (w = j_string J s))"

text \<open>
  \<^verbatim>\<open>v[k]\<close> of a value that is not constant: a missing member is inserted as null, and so the
  value may change. \<open>j_index2\<close> is \<^verbatim>\<open>v[k1][k2]\<close>.
\<close>

definition j_index :: "'j json_api \<Rightarrow> 'j \<Rightarrow> string \<Rightarrow> ('j \<times> 'j) res" where
  "j_index J v k =
     (if j_contains J v k then rbind (j_at J v k) (\<lambda>e. Inr (v, e))
      else rbind (j_set J v k (j_null J)) (\<lambda>v'. Inr (v', j_null J)))"

definition j_index2 :: "'j json_api \<Rightarrow> 'j \<Rightarrow> string \<Rightarrow> string \<Rightarrow> ('j \<times> 'j) res" where
  "j_index2 J v k1 k2 =
     rbind (j_index J v k1) (\<lambda>(v1, b).
       if j_contains J b k2 then rbind (j_at J b k2) (\<lambda>e. Inr (v1, e))
       else rbind (j_set J b k2 (j_null J)) (\<lambda>b1.
            rbind (j_set J v1 k1 b1) (\<lambda>v2. Inr (v2, j_null J))))"

text \<open>\<^verbatim>\<open>v[k1][k2] = x\<close>\<close>

definition j_assign2 :: "'j json_api \<Rightarrow> 'j \<Rightarrow> string \<Rightarrow> string \<Rightarrow> 'j \<Rightarrow> 'j res" where
  "j_assign2 J v k1 k2 x =
     rbind (j_index J v k1) (\<lambda>(v1, b).
     rbind (j_set J b k2 x) (\<lambda>b1. j_set J v1 k1 b1))"

text \<open>\<^verbatim>\<open>int + 1\<close>, undefined on overflow.\<close>

definition int_succ :: "int \<Rightarrow> int res" where
  "int_succ i = (if i + 1 < 2 ^ 31 then Inr (i + 1) else Inl Undefined)"

section \<open>A concrete instance\<close>

text \<open>
  For closed instances of the theorems: JSON values as a datatype, with the element access of
  the library, and a table for the texts that parse.
\<close>

datatype jv = JNull | JBool bool | JNum int | JStr string | JArr "jv list" | JObj "(string \<times> jv) list"

fun jv_at :: "jv \<Rightarrow> string \<Rightarrow> jv res" where
  "jv_at (JObj kvs) k = (case map_of kvs k of Some v \<Rightarrow> Inr v | None \<Rightarrow> Inl Undefined)"
| "jv_at v k = Inl (Throws Type_error)"

fun jv_set :: "jv \<Rightarrow> string \<Rightarrow> jv \<Rightarrow> jv res" where
  "jv_set (JObj kvs) k v = Inr (JObj (AList.update k v kvs))"
| "jv_set JNull k v = Inr (JObj [(k, v)])"
| "jv_set w k v = Inl (Throws Type_error)"

fun jv_erase :: "jv \<Rightarrow> string \<Rightarrow> jv res" where
  "jv_erase (JObj kvs) k = Inr (JObj (AList.delete k kvs))"
| "jv_erase w k = Inl (Throws Type_error)"

fun jv_contains :: "jv \<Rightarrow> string \<Rightarrow> bool" where
  "jv_contains (JObj kvs) k = (map_of kvs k \<noteq> None)"
| "jv_contains v k = False"

fun jv_is_array :: "jv \<Rightarrow> bool" where
  "jv_is_array (JArr vs) = True"
| "jv_is_array v = False"

fun jv_elems :: "jv \<Rightarrow> jv list" where
  "jv_elems (JArr vs) = vs"
| "jv_elems (JObj kvs) = List.map snd kvs"
| "jv_elems JNull = []"
| "jv_elems v = [v]"

fun jv_string :: "jv \<Rightarrow> string res" where
  "jv_string (JStr s) = Inr s"
| "jv_string v = Inl (Throws Type_error)"

fun jv_int :: "jv \<Rightarrow> int res" where
  "jv_int (JNum i) = Inr i"
| "jv_int v = Inl (Throws Type_error)"

fun jv_bool :: "jv \<Rightarrow> bool res" where
  "jv_bool (JBool b) = Inr b"
| "jv_bool v = Inl (Throws Type_error)"

definition table_json :: "(string \<times> jv) list \<Rightarrow> jv json_api" where
  "table_json tbl = \<lparr>
     j_parse = (\<lambda>s. case map_of tbl s of Some v \<Rightarrow> Inr v | None \<Rightarrow> Inl (Throws Parse_error)),
     j_dump = (\<lambda>eh v. case map_of (List.map (\<lambda>(s, v). (v, s)) tbl) v of
                 Some s \<Rightarrow> Inr s | None \<Rightarrow> Inl (Throws Type_error)),
     j_null = JNull, j_object = JObj, j_array = JArr, j_string = JStr, j_number = JNum,
     j_bool = JBool, j_at = jv_at, j_set = jv_set, j_erase = jv_erase, j_contains = jv_contains,
     j_is_array = jv_is_array, j_elems = jv_elems, j_get_string = jv_string, j_get_int = jv_int, j_get_bool = jv_bool\<rparr>"

lemma table_json_selects [simp]:
  "j_parse (table_json tbl) s = (case map_of tbl s of Some v \<Rightarrow> Inr v | None \<Rightarrow> Inl (Throws Parse_error))"
  "j_dump (table_json tbl) eh v = (case map_of (List.map (\<lambda>(s, v). (v, s)) tbl) v of
      Some s \<Rightarrow> Inr s | None \<Rightarrow> Inl (Throws Type_error))"
  "j_null (table_json tbl) = JNull" "j_object (table_json tbl) = JObj" "j_array (table_json tbl) = JArr"
  "j_string (table_json tbl) = JStr" "j_number (table_json tbl) = JNum" "j_bool (table_json tbl) = JBool"
  "j_at (table_json tbl) = jv_at" "j_set (table_json tbl) = jv_set" "j_erase (table_json tbl) = jv_erase"
  "j_contains (table_json tbl) = jv_contains" "j_is_array (table_json tbl) = jv_is_array" "j_elems (table_json tbl) = jv_elems"
  "j_get_string (table_json tbl) = jv_string" "j_get_int (table_json tbl) = jv_int"
  "j_get_bool (table_json tbl) = jv_bool"
  by (simp_all add: table_json_def)

text \<open>A printer of JSON values, for the concrete systems.\<close>

definition quoted :: "string \<Rightarrow> string" where
  "quoted s = CHR 0x22 # s @ [CHR 0x22]"

fun comma_separated :: "string list \<Rightarrow> string" where
  "comma_separated [] = []"
| "comma_separated [s] = s"
| "comma_separated (s # ss) = s @ '','' @ comma_separated ss"

fun jv_print :: "jv \<Rightarrow> string" where
  "jv_print JNull = ''null''"
| "jv_print (JBool b) = (if b then ''true'' else ''false'')"
| "jv_print (JNum n) = (if n < 0 then CHR ''-'' # to_string (nat (- n)) else to_string (nat n))"
| "jv_print (JStr s) = quoted s"
| "jv_print (JArr vs) = ''['' @ comma_separated (map jv_print vs) @ '']''"
| "jv_print (JObj kvs) = ''{'' @ comma_separated (map (\<lambda>(k, v). quoted k @ '':'' @ jv_print v) kvs) @ ''}''"

lemma jv_print_not_stop: "jv_print v \<noteq> ''stop''"
proof (cases v)
  case (JNum n)
  have "to_string m \<noteq> ''stop''" for m using to_string_digits [of m] by (auto simp: is_digit_def)
  with JNum show ?thesis by simp
qed (auto simp: quoted_def)

end
