(* ===== verification/Authentication.thy ===== *)
theory Authentication
  imports Cpp_Prelude
begin

text \<open>
  Message signing (\<^verbatim>\<open>src/common/xauthentication.cpp\<close>). OpenSSL's EVP_MAC is a parameter: the
  record \<open>mac_api\<close> over an abstract context. So is \<^verbatim>\<open>hex_string\<close>, a function of xeus.
\<close>

section \<open>The libraries behind it\<close>

record 'c mac_api =
  mac_fetched :: bool
  mac_ctx_new :: "'c option"
  mac_init :: "'c \<Rightarrow> bytes \<Rightarrow> string \<Rightarrow> 'c"
  mac_update :: "'c \<Rightarrow> bytes \<Rightarrow> 'c"
  mac_final_size :: "'c \<Rightarrow> nat"
  mac_final :: "'c \<Rightarrow> nat \<Rightarrow> bytes \<times> 'c"

text \<open>
  Documented behaviour of an EVP_MAC context, used as a hypothesis: initialising a context
  forgets what it held, and the final call gives the code of all the data fed since.
\<close>

definition mac_computes :: "'c mac_api \<Rightarrow> (bytes \<Rightarrow> string \<Rightarrow> bytes \<Rightarrow> bytes) \<Rightarrow> bool" where
  "mac_computes M hmac \<longleftrightarrow>
     (\<forall>c key digest bs. let c' = foldl (mac_update M) (mac_init M c key digest) bs
        in fst (mac_final M c' (mac_final_size M c')) = hmac key digest (concat bs))"

section \<open>The OpenSSL authentication object\<close>

record 'c openssl_xauthentication =
  m_key :: string
  m_hash_name :: string
  m_evp_mac_ctx :: 'c

definition init_hex_signature ::
  "'c mac_api \<Rightarrow> 'c openssl_xauthentication \<Rightarrow> 'c openssl_xauthentication" where
  "init_hex_signature M a =
     a\<lparr>m_evp_mac_ctx := mac_init M (m_evp_mac_ctx a) (m_key a) (m_hash_name a)\<rparr>"

definition mac_feed ::
  "'c mac_api \<Rightarrow> bytes \<Rightarrow> 'c openssl_xauthentication \<Rightarrow> 'c openssl_xauthentication" where
  "mac_feed M b a = a\<lparr>m_evp_mac_ctx := mac_update M (m_evp_mac_ctx a) b\<rparr>"

definition finalize_hex_signature ::
  "'c mac_api \<Rightarrow> (bytes \<Rightarrow> string) \<Rightarrow> 'c openssl_xauthentication
    \<Rightarrow> string \<times> 'c openssl_xauthentication" where
  "finalize_hex_signature M hex_string a =
     (let final_size = mac_final_size M (m_evp_mac_ctx a);
          (sig, ctx) = mac_final M (m_evp_mac_ctx a) final_size
      in (hex_string sig, a\<lparr>m_evp_mac_ctx := ctx\<rparr>))"

text \<open>\<^verbatim>\<open>compute_hex_signature\<close>, over the four parts of a message and over a single buffer.\<close>

definition compute_hex_signature ::
  "'c mac_api \<Rightarrow> (bytes \<Rightarrow> string) \<Rightarrow> 'c openssl_xauthentication
    \<Rightarrow> bytes \<Rightarrow> bytes \<Rightarrow> bytes \<Rightarrow> bytes \<Rightarrow> string \<times> 'c openssl_xauthentication" where
  "compute_hex_signature M hex_string a header parent_header meta_data content =
     (let a = init_hex_signature M a;
          a = mac_feed M header a;
          a = mac_feed M parent_header a;
          a = mac_feed M meta_data a;
          a = mac_feed M content a
      in finalize_hex_signature M hex_string a)"

definition compute_hex_signature1 ::
  "'c mac_api \<Rightarrow> (bytes \<Rightarrow> string) \<Rightarrow> 'c openssl_xauthentication
    \<Rightarrow> bytes \<Rightarrow> string \<times> 'c openssl_xauthentication" where
  "compute_hex_signature1 M hex_string a content =
     (let a = init_hex_signature M a;
          a = mac_feed M content a
      in finalize_hex_signature M hex_string a)"

text \<open>
  \<^verbatim>\<open>CRYPTO_memcmp(hex_sig.c_str(), signature.data(), hex_sig.size()) == 0\<close>: it reads as many
  bytes of the received signature as the computed one has, whatever the received size.
\<close>

definition memcmp_signature :: "string \<Rightarrow> bytes \<Rightarrow> bool res" where
  "memcmp_signature hex_sig signature =
     (if length signature < length hex_sig then Inl Undefined
      else Inr (take (length hex_sig) signature = hex_sig))"

section \<open>The interface and the factory\<close>

text \<open>
  \<open>xauthentication\<close> is the class's interface: the outcomes of its public methods in the
  object's current state. Each of them calls the private virtual method that the classes
  implement, \<open>xauthentication_impl\<close>.
\<close>

record xauthentication =
  sign :: "bytes \<Rightarrow> bytes \<Rightarrow> bytes \<Rightarrow> bytes \<Rightarrow> string"
  verify :: "bytes \<Rightarrow> bytes \<Rightarrow> bytes \<Rightarrow> bytes \<Rightarrow> bytes \<Rightarrow> bool res"
  sign1 :: "bytes \<Rightarrow> string"
  verify1 :: "bytes \<Rightarrow> bytes \<Rightarrow> bool res"

record xauthentication_impl =
  sign_impl :: "bytes \<Rightarrow> bytes \<Rightarrow> bytes \<Rightarrow> bytes \<Rightarrow> string"
  verify_impl :: "bytes \<Rightarrow> bytes \<Rightarrow> bytes \<Rightarrow> bytes \<Rightarrow> bytes \<Rightarrow> bool res"
  sign_impl1 :: "bytes \<Rightarrow> string"
  verify_impl1 :: "bytes \<Rightarrow> bytes \<Rightarrow> bool res"

definition xauthentication_methods :: "xauthentication_impl \<Rightarrow> xauthentication" where
  "xauthentication_methods this = \<lparr>
     sign = (\<lambda>header parent_header meta_data content. sign_impl this header parent_header meta_data content),
     verify = (\<lambda>signature header parent_header meta_data content.
       verify_impl this signature header parent_header meta_data content),
     sign1 = (\<lambda>content. sign_impl1 this content),
     verify1 = (\<lambda>signature content. verify_impl1 this signature content)\<rparr>"

definition no_xauthentication_impl :: xauthentication_impl where
  "no_xauthentication_impl = \<lparr>
     sign_impl = (\<lambda>header parent_header meta_data content. ''''),
     verify_impl = (\<lambda>signature header parent_header meta_data content. Inr True),
     sign_impl1 = (\<lambda>content. ''''),
     verify_impl1 = (\<lambda>signature content. Inr True)\<rparr>"

definition no_xauthentication :: xauthentication where
  "no_xauthentication = xauthentication_methods no_xauthentication_impl"

definition openssl_impl ::
  "'c mac_api \<Rightarrow> (bytes \<Rightarrow> string) \<Rightarrow> 'c openssl_xauthentication \<Rightarrow> xauthentication_impl" where
  "openssl_impl M hex_string a = \<lparr>
     sign_impl = (\<lambda>h p m c. fst (compute_hex_signature M hex_string a h p m c)),
     verify_impl = (\<lambda>s h p m c. memcmp_signature (fst (compute_hex_signature M hex_string a h p m c)) s),
     sign_impl1 = (\<lambda>c. fst (compute_hex_signature1 M hex_string a c)),
     verify_impl1 = (\<lambda>s c. memcmp_signature (fst (compute_hex_signature1 M hex_string a c)) s)\<rparr>"

definition openssl_methods ::
  "'c mac_api \<Rightarrow> (bytes \<Rightarrow> string) \<Rightarrow> 'c openssl_xauthentication \<Rightarrow> xauthentication" where
  "openssl_methods M hex_string a = xauthentication_methods (openssl_impl M hex_string a)"

lemma no_xauthentication_eq: "no_xauthentication = \<lparr>
     sign = (\<lambda>header parent_header meta_data content. ''''),
     verify = (\<lambda>signature header parent_header meta_data content. Inr True),
     sign1 = (\<lambda>content. ''''), verify1 = (\<lambda>signature content. Inr True)\<rparr>"
  by (simp add: no_xauthentication_def no_xauthentication_impl_def xauthentication_methods_def)

lemma openssl_methods_eq: "openssl_methods M hex_string a = \<lparr>
     sign = (\<lambda>h p m c. fst (compute_hex_signature M hex_string a h p m c)),
     verify = (\<lambda>s h p m c. memcmp_signature (fst (compute_hex_signature M hex_string a h p m c)) s),
     sign1 = (\<lambda>c. fst (compute_hex_signature1 M hex_string a c)),
     verify1 = (\<lambda>s c. memcmp_signature (fst (compute_hex_signature1 M hex_string a c)) s)\<rparr>"
  by (simp add: openssl_methods_def openssl_impl_def xauthentication_methods_def)

definition toupper :: "char \<Rightarrow> char" where
  "toupper c = (if 97 \<le> (of_char c :: nat) \<and> (of_char c :: nat) \<le> 122
                then char_of ((of_char c :: nat) - 32) else c)"

definition make_openssl_xauthentication ::
  "'c mac_api \<Rightarrow> string \<Rightarrow> string \<Rightarrow> 'c openssl_xauthentication res" where
  "make_openssl_xauthentication M scheme key =
     rbind (substr_from scheme 5) (\<lambda>hash_name.
       let hash_name = map toupper hash_name
       in if \<not> mac_fetched M then Inl (Throws (Runtime_error ''Could not fetch evp_mac''))
          else case mac_ctx_new M of
              None \<Rightarrow> Inl (Throws (Runtime_error ''Could not allocate evp_mac_ctx''))
            | Some ctx \<Rightarrow> Inr \<lparr>m_key = key, m_hash_name = hash_name, m_evp_mac_ctx = ctx\<rparr>)"

definition make_xauthentication ::
  "'c mac_api \<Rightarrow> (bytes \<Rightarrow> string) \<Rightarrow> string \<Rightarrow> string \<Rightarrow> xauthentication res" where
  "make_xauthentication M hex_string scheme key =
     (if scheme = ''none'' then Inr no_xauthentication
      else rbind (make_openssl_xauthentication M scheme key)
             (\<lambda>a. Inr (openssl_methods M hex_string a)))"

section \<open>The contract of an authentication object\<close>

text \<open>
  What the serialiser relies on: an object accepts what it signed. Both kinds of objects the
  factory makes keep the contract.
\<close>

locale authenticator =
  fixes auth :: xauthentication
  assumes verify_sign: "verify auth (sign auth h p m c) h p m c = Inr True"
    and verify_sign1: "verify1 auth (sign1 auth c) c = Inr True"

lemma memcmp_signature_same [simp]: "memcmp_signature s s = Inr True"
  by (simp add: memcmp_signature_def)

lemma memcmp_signature_eq:
  "memcmp_signature hex_sig s = (if length s < length hex_sig then Inl Undefined else Inr (prefix hex_sig s))"
  by (auto simp: memcmp_signature_def prefix_def) (metis append_take_drop_id append_eq_conv_conj)+

interpretation no_auth: authenticator no_xauthentication
  by unfold_locales (simp_all add: no_xauthentication_eq)

interpretation openssl_auth: authenticator "openssl_methods M hex_string a" for M hex_string a
  by unfold_locales (simp_all add: openssl_methods_eq)

lemma make_xauthentication_cases:
  assumes "make_xauthentication M hex_string scheme key = Inr auth"
  obtains (none) "scheme = ''none''" "auth = no_xauthentication"
    | (openssl) a where "scheme \<noteq> ''none''" "make_openssl_xauthentication M scheme key = Inr a"
        "auth = openssl_methods M hex_string a"
  using assms by (auto simp: make_xauthentication_def res_simps split: if_splits)

lemma make_xauthentication_authenticator:
  "make_xauthentication M hex_string scheme key = Inr auth \<Longrightarrow> authenticator auth"
  by (erule make_xauthentication_cases)
    (simp_all add: no_auth.authenticator_axioms openssl_auth.authenticator_axioms)

section \<open>What is signed\<close>

lemma mac_of_parts:
  assumes "mac_computes M hmac"
  shows "fst (mac_final M (foldl (mac_update M) (mac_init M c key digest) bs)
      (mac_final_size M (foldl (mac_update M) (mac_init M c key digest) bs))) = hmac key digest (concat bs)"
  using assms by (simp add: mac_computes_def Let_def)

lemma compute_hex_signature_value:
  assumes "mac_computes M hmac"
  shows "fst (compute_hex_signature M hex_string a h p m c)
      = hex_string (hmac (m_key a) (m_hash_name a) (h @ p @ m @ c))"
  using mac_of_parts [OF assms, of "m_evp_mac_ctx a" "m_key a" "m_hash_name a" "[h, p, m, c]"]
  by (simp add: compute_hex_signature_def init_hex_signature_def mac_feed_def
      finalize_hex_signature_def Let_def split_def)

lemma compute_hex_signature1_value:
  assumes "mac_computes M hmac"
  shows "fst (compute_hex_signature1 M hex_string a c)
      = hex_string (hmac (m_key a) (m_hash_name a) c)"
  using mac_of_parts [OF assms, of "m_evp_mac_ctx a" "m_key a" "m_hash_name a" "[c]"]
  by (simp add: compute_hex_signature1_def init_hex_signature_def mac_feed_def
      finalize_hex_signature_def Let_def split_def)

text \<open>
  The context is shared by all calls on one object and every call (signing or verifying)
  runs it through a computation; \<open>after_call\<close> is the state a call leaves behind.
\<close>

datatype auth_call = Call4 bytes bytes bytes bytes | Call1 bytes

fun after_call :: "'c mac_api \<Rightarrow> (bytes \<Rightarrow> string) \<Rightarrow> 'c openssl_xauthentication \<Rightarrow> auth_call
    \<Rightarrow> 'c openssl_xauthentication" where
  "after_call M hex_string a (Call4 h p m c) = snd (compute_hex_signature M hex_string a h p m c)"
| "after_call M hex_string a (Call1 c) = snd (compute_hex_signature1 M hex_string a c)"

lemma after_call_keeps:
  "m_key (after_call M hex_string a x) = m_key a"
  "m_hash_name (after_call M hex_string a x) = m_hash_name a"
  by (cases x; simp add: compute_hex_signature_def compute_hex_signature1_def
      init_hex_signature_def mac_feed_def finalize_hex_signature_def Let_def split_def)+

lemma after_calls_keep:
  "m_key (foldl (after_call M hex_string) a xs) = m_key a \<and>
   m_hash_name (foldl (after_call M hex_string) a xs) = m_hash_name a"
  by (induction xs arbitrary: a) (simp_all add: after_call_keeps)

lemma make_openssl_fields:
  "make_openssl_xauthentication M scheme key = Inr a \<Longrightarrow>
   m_key a = key \<and> m_hash_name a = map toupper (drop 5 scheme) \<and> 5 \<le> length scheme"
  by (auto simp: make_openssl_xauthentication_def substr_from_def res_simps Let_def
      split: if_splits option.splits)

text \<open>
  Whatever calls were made on an object before, it signs a message with the hexadecimal
  HMAC, under the configured key and the digest named after the scheme's first five
  characters (in upper case), of the header, parent header, metadata and content one after
  the other.
\<close>

lemma openssl_signature_of_history:
  assumes "mac_computes M hmac" "make_openssl_xauthentication M scheme key = Inr a"
  shows "sign (openssl_methods M hex_string (foldl (after_call M hex_string) a calls)) h p m c
      = hex_string (hmac key (map toupper (drop 5 scheme)) (h @ p @ m @ c)) \<and>
    sign1 (openssl_methods M hex_string (foldl (after_call M hex_string) a calls)) c
      = hex_string (hmac key (map toupper (drop 5 scheme)) c)"
  using after_calls_keep [of M hex_string a calls] make_openssl_fields [OF assms(2)]
  by (simp_all add: openssl_methods_eq compute_hex_signature_value [OF assms(1)]
      compute_hex_signature1_value [OF assms(1)])

text \<open>
  A MAC that prints the key, the digest's name and the data, for closed instances: its context
  is what it has been fed, and initialising starts it afresh.
\<close>

definition echo_mac :: "(string \<times> string \<times> string) mac_api" where
  "echo_mac = \<lparr>mac_fetched = True, mac_ctx_new = Some ([], [], []),
     mac_init = (\<lambda>c key digest. (key, digest, [])),
     mac_update = (\<lambda>(k, d, s) b. (k, d, s @ b)),
     mac_final_size = (\<lambda>(k, d, s). length (k @ d @ s)),
     mac_final = (\<lambda>(k, d, s) n. (take n (k @ d @ s), (k, d, s)))\<rparr>"

lemma echo_mac_computes: "mac_computes echo_mac (\<lambda>key digest data. key @ digest @ data)"
proof -
  have "foldl (\<lambda>(k, d, s) b. (k, d, s @ b)) (k, d, s) bs = (k, d, s @ concat bs)"
    for k d s :: string and bs
    by (induction bs arbitrary: s) simp_all
  then show ?thesis by (simp add: mac_computes_def echo_mac_def Let_def)
qed

text \<open>The authentication object of the closed instances of other theories.\<close>

definition sample_auth :: xauthentication where
  "sample_auth = openssl_methods echo_mac id
     \<lparr>m_key = ''k'', m_hash_name = ''SHA256'', m_evp_mac_ctx = ([], [], [])\<rparr>"

lemma make_sample_auth: "make_xauthentication echo_mac id ''hmac-sha256'' ''k'' = Inr sample_auth"
  by (simp add: sample_auth_def make_xauthentication_def make_openssl_xauthentication_def substr_from_def
      echo_mac_def toupper_def char_of_def bit_Suc_0_iff)

text \<open>
  Verification reads as many bytes as the computed signature has: it accepts exactly the
  received signatures that start with it, so bytes appended to a valid signature are not
  noticed, and it reads out of bounds exactly when the received signature is shorter.
\<close>

lemma openssl_verify_outcomes:
  "verify (openssl_methods M hex_string a) s h p m c =
    (if length s < length (sign (openssl_methods M hex_string a) h p m c) then Inl Undefined
     else Inr (prefix (sign (openssl_methods M hex_string a) h p m c) s))"
  by (simp add: openssl_methods_eq memcmp_signature_eq)

end
