(* ===== verification/Serializer.thy ===== *)
theory Serializer
  imports Json_Api Authentication
begin

text \<open>
  Messages and their wire format (\<^verbatim>\<open>src/common/xzmq_serializer.cpp\<close>). A multipart message is
  the list of its frames; \<^verbatim>\<open>wire_msg.add\<close> appends a frame, \<^verbatim>\<open>wire_msg.pop\<close> takes the first one
  and is undefined on an empty message.
\<close>

section \<open>Messages\<close>

text \<open>The fields of xeus' message classes that the serialiser reads and fills.\<close>

record 'j xmessage_base_data =
  m_header :: 'j
  m_parent_header :: 'j
  m_metadata :: 'j
  m_content :: 'j
  m_buffers :: "bytes list"

record 'j xmessage = "'j xmessage_base_data" +
  identities :: "string list"

record 'j xpub_message = "'j xmessage_base_data" +
  topic :: string

definition base_data :: "('j, 'm) xmessage_base_data_scheme \<Rightarrow> 'j xmessage_base_data" where
  "base_data msg = \<lparr>m_header = m_header msg, m_parent_header = m_parent_header msg,
     m_metadata = m_metadata msg, m_content = m_content msg, m_buffers = m_buffers msg\<rparr>"

definition make_xmessage :: "string list \<Rightarrow> 'j xmessage_base_data \<Rightarrow> 'j xmessage" where
  "make_xmessage ids data = \<lparr>m_header = m_header data, m_parent_header = m_parent_header data,
     m_metadata = m_metadata data, m_content = m_content data, m_buffers = m_buffers data,
     identities = ids\<rparr>"

definition make_xpub_message :: "string \<Rightarrow> 'j xmessage_base_data \<Rightarrow> 'j xpub_message" where
  "make_xpub_message tpc data = \<lparr>m_header = m_header data, m_parent_header = m_parent_header data,
     m_metadata = m_metadata data, m_content = m_content data, m_buffers = m_buffers data,
     topic = tpc\<rparr>"

section \<open>Frames\<close>

definition DELIMITER :: string where "DELIMITER = ''<IDS|MSG>''"

definition is_delimiter :: "frame \<Rightarrow> bool" where
  "is_delimiter frame = (if length frame \<noteq> length DELIMITER then False else frame = DELIMITER)"

fun pop :: "multipart \<Rightarrow> (frame \<times> multipart) res" where
  "pop [] = Inl Undefined"
| "pop (f # wire) = Inr (f, wire)"

section \<open>Serialising\<close>

definition serialize_message_base :: "'j json_api \<Rightarrow> ('j, 'm) xmessage_base_data_scheme \<Rightarrow> xauthentication
    \<Rightarrow> error_handler \<Rightarrow> multipart \<Rightarrow> multipart res" where
  "serialize_message_base J msg auth eh wire_msg =
     rbind (j_dump J eh (m_header msg)) (\<lambda>header.
     rbind (j_dump J eh (m_parent_header msg)) (\<lambda>parent_header.
     rbind (j_dump J eh (m_metadata msg)) (\<lambda>metadata.
     rbind (j_dump J eh (m_content msg)) (\<lambda>content.
       let sig = sign auth header parent_header metadata content
       in Inr (wire_msg @ [sig, header, parent_header, metadata, content] @ m_buffers msg)))))"

definition serialize_zmq_id :: "string list \<Rightarrow> multipart \<Rightarrow> multipart" where
  "serialize_zmq_id ids wire_msg = wire_msg @ ids @ [DELIMITER]"

definition serialize_topic :: "'j xpub_message \<Rightarrow> multipart \<Rightarrow> multipart" where
  "serialize_topic msg wire_msg = wire_msg @ [topic msg, DELIMITER]"

definition serialize :: "'j json_api \<Rightarrow> 'j xmessage \<Rightarrow> xauthentication \<Rightarrow> error_handler \<Rightarrow> multipart res" where
  "serialize J msg auth eh =
     (let wire_msg = serialize_zmq_id (identities msg) []
      in serialize_message_base J msg auth eh wire_msg)"

definition serialize_iopub ::
  "'j json_api \<Rightarrow> 'j xpub_message \<Rightarrow> xauthentication \<Rightarrow> error_handler \<Rightarrow> multipart res" where
  "serialize_iopub J msg auth eh =
     (let wire_msg = serialize_topic msg []
      in serialize_message_base J msg auth eh wire_msg)"

section \<open>Deserialising\<close>

text \<open>The loop that collects identities: \<open>frame\<close> is the frame popped last.\<close>

fun zmq_id_loop :: "string list \<Rightarrow> frame \<Rightarrow> multipart \<Rightarrow> string list \<times> multipart" where
  "zmq_id_loop zmq_id frame [] = (zmq_id, [])"
| "zmq_id_loop zmq_id frame (f # wire) =
     (if is_delimiter frame then (zmq_id, f # wire) else zmq_id_loop (zmq_id @ [frame]) f wire)"

definition deserialize_zmq_id :: "multipart \<Rightarrow> (string list \<times> multipart) res" where
  "deserialize_zmq_id wire_msg =
     rbind (pop wire_msg) (\<lambda>(frame, wire_msg).
       let (zmq_id, wire_msg) = zmq_id_loop [] frame wire_msg
       in if length wire_msg = 0
          then Inl (Throws (Runtime_error ''ERROR: Delimiter not present in message''))
          else Inr (zmq_id, wire_msg))"

definition deserialize_topic :: "multipart \<Rightarrow> (string \<times> multipart) res" where
  "deserialize_topic wire_msg =
     rbind (pop wire_msg) (\<lambda>(tpc, wire_msg).
     rbind (pop wire_msg) (\<lambda>(_, wire_msg). Inr (tpc, wire_msg)))"

definition deserialize_message_base ::
  "'j json_api \<Rightarrow> multipart \<Rightarrow> xauthentication \<Rightarrow> 'j xmessage_base_data res" where
  "deserialize_message_base J wire_msg auth =
     rbind (pop wire_msg) (\<lambda>(signature, wire_msg).
     rbind (pop wire_msg) (\<lambda>(header, wire_msg).
     rbind (pop wire_msg) (\<lambda>(parent_header, wire_msg).
     rbind (pop wire_msg) (\<lambda>(metadata, wire_msg).
     rbind (pop wire_msg) (\<lambda>(content, wire_msg).
     rbind (j_parse J header) (\<lambda>jheader.
     rbind (j_parse J parent_header) (\<lambda>jparent.
     rbind (j_parse J metadata) (\<lambda>jmetadata.
     rbind (j_parse J content) (\<lambda>jcontent.
       let data = \<lparr>m_header = jheader, m_parent_header = jparent, m_metadata = jmetadata,
                   m_content = jcontent, m_buffers = wire_msg\<rparr>
       in rbind (verify auth signature header parent_header metadata content) (\<lambda>ok.
            if \<not> ok then Inl (Throws (Runtime_error ''ERROR: Signatures don't match''))
            else Inr data))))))))))"

definition deserialize :: "'j json_api \<Rightarrow> multipart \<Rightarrow> xauthentication \<Rightarrow> 'j xmessage res" where
  "deserialize J wire_msg auth =
     rbind (deserialize_zmq_id wire_msg) (\<lambda>(zmq_id, wire_msg).
     rbind (deserialize_message_base J wire_msg auth) (\<lambda>data. Inr (make_xmessage zmq_id data)))"

definition deserialize_iopub :: "'j json_api \<Rightarrow> multipart \<Rightarrow> xauthentication \<Rightarrow> 'j xpub_message res" where
  "deserialize_iopub J wire_msg auth =
     rbind (deserialize_topic wire_msg) (\<lambda>(tpc, wire_msg).
     rbind (deserialize_message_base J wire_msg auth) (\<lambda>data. Inr (make_xpub_message tpc data)))"

section \<open>Identities and the delimiter\<close>

lemma is_delimiter_iff [simp]: "is_delimiter f \<longleftrightarrow> f = DELIMITER"
  by (auto simp: is_delimiter_def)

lemma zmq_id_loop_found:
  "DELIMITER \<notin> set (f # ids) \<Longrightarrow> w \<noteq> [] \<Longrightarrow>
   zmq_id_loop acc f (ids @ DELIMITER # w) = (acc @ f # ids, w)"
proof (induction ids arbitrary: acc f)
  case Nil
  then show ?case by (cases w) auto
next
  case (Cons g ids)
  then show ?case by auto
qed

lemma zmq_id_loop_exhausted:
  "DELIMITER \<notin> set (butlast (f # ids)) \<Longrightarrow> snd (zmq_id_loop acc f ids) = []"
proof (induction ids arbitrary: acc f)
  case (Cons g ids)
  from Cons.prems Cons.IH [of g "acc @ [f]"] show ?case by auto
qed simp

lemma deserialize_zmq_id_found:
  assumes "DELIMITER \<notin> set ids" "w \<noteq> []"
  shows "deserialize_zmq_id (ids @ DELIMITER # w) = Inr (ids, w)"
proof (cases ids)
  case Nil
  with assms show ?thesis by (cases w) (auto simp: deserialize_zmq_id_def)
next
  case (Cons f fs)
  with assms zmq_id_loop_found [of f fs w "[]"] show ?thesis by (simp add: deserialize_zmq_id_def)
qed

text \<open>A delimiter that is missing, or is the last frame, is reported as missing.\<close>

lemma deserialize_zmq_id_missing:
  assumes "wire \<noteq> []" "DELIMITER \<notin> set (butlast wire)"
  shows "deserialize_zmq_id wire
    = Inl (Throws (Runtime_error ''ERROR: Delimiter not present in message''))"
proof (cases wire)
  case (Cons f fs)
  with assms zmq_id_loop_exhausted [of f fs "[]"] show ?thesis
    by (auto simp: deserialize_zmq_id_def split: prod.splits)
qed (use assms in simp)

lemma wire_cases:
  obtains (empty) "wire = []"
    | (missing) "wire \<noteq> []" "DELIMITER \<notin> set (butlast wire)"
    | (found) ids w where "wire = ids @ DELIMITER # w" "DELIMITER \<notin> set ids" "w \<noteq> []"
proof (cases "DELIMITER \<in> set (butlast wire)")
  case True
  then obtain ids w where "butlast wire = ids @ DELIMITER # w" "DELIMITER \<notin> set ids"
    by (auto dest: split_list_first)
  moreover from True have "wire = butlast wire @ [last wire]" by (cases wire) auto
  ultimately have "wire = ids @ DELIMITER # (w @ [last wire])" by simp
  then show ?thesis using found \<open>DELIMITER \<notin> set ids\<close> by blast
next
  case False
  then show ?thesis using empty missing by blast
qed

section \<open>The body of a message\<close>

lemma deserialize_message_base_short:
  "length w < 5 \<Longrightarrow> deserialize_message_base J w auth = Inl Undefined"
  by (cases w rule: remdups_adj.cases; cases "drop 2 w" rule: remdups_adj.cases)
    (auto simp: deserialize_message_base_def)

lemma five_frames:
  assumes "\<not> length w < 5"
  obtains s h p m c bufs where "w = s # h # p # m # c # bufs"
proof -
  from assms have "Suc (Suc (Suc (Suc (Suc 0)))) \<le> length w" by simp
  with that show ?thesis by (auto simp: Suc_le_length_iff)
qed

lemma deserialize_message_base_parts:
  "deserialize_message_base J (s # h # p # m # c # bufs) auth =
     rbind (j_parse J h) (\<lambda>jh. rbind (j_parse J p) (\<lambda>jp.
     rbind (j_parse J m) (\<lambda>jm. rbind (j_parse J c) (\<lambda>jc.
     rbind (verify auth s h p m c) (\<lambda>ok.
       if \<not> ok then Inl (Throws (Runtime_error ''ERROR: Signatures don't match''))
       else Inr \<lparr>m_header = jh, m_parent_header = jp, m_metadata = jm, m_content = jc,
                 m_buffers = bufs\<rparr>)))))"
  by (simp add: deserialize_message_base_def Let_def)

lemma deserialize_message_base_Inr_iff:
  "deserialize_message_base J w auth = Inr data \<longleftrightarrow>
    (\<exists>signature header parent_header metadata content.
      w = [signature, header, parent_header, metadata, content] @ m_buffers data \<and>
      j_parse J header = Inr (m_header data) \<and> j_parse J parent_header = Inr (m_parent_header data) \<and>
      j_parse J metadata = Inr (m_metadata data) \<and> j_parse J content = Inr (m_content data) \<and>
      verify auth signature header parent_header metadata content = Inr True)"
    (is "?L \<longleftrightarrow> ?R")
proof (cases "length w < 5")
  case True
  then have "\<not> ?R" by auto
  with True show ?thesis by (simp add: deserialize_message_base_short)
next
  case False
  then obtain s h p m c bufs where w: "w = s # h # p # m # c # bufs" by (rule five_frames)
  show ?thesis
    by (cases data) (auto simp: w deserialize_message_base_parts res_simps)
qed


section \<open>Messages that are accepted\<close>

lemma deserialize_found:
  assumes "DELIMITER \<notin> set ids" "w \<noteq> []"
  shows "deserialize J (ids @ DELIMITER # w) auth
    = rbind (deserialize_message_base J w auth) (\<lambda>data. Inr (make_xmessage ids data))"
  using deserialize_zmq_id_found [OF assms] by (simp add: deserialize_def)

lemma make_xmessage_eq_iff:
  "make_xmessage ids data = msg \<longleftrightarrow> identities msg = ids \<and> base_data msg = data"
  by (cases msg; cases data) (auto simp: make_xmessage_def base_data_def)

lemma base_data_selects [simp]:
  "m_header (base_data msg) = m_header msg" "m_parent_header (base_data msg) = m_parent_header msg"
  "m_metadata (base_data msg) = m_metadata msg" "m_content (base_data msg) = m_content msg"
  "m_buffers (base_data msg) = m_buffers msg"
  by (simp_all add: base_data_def)

lemma deserialize_InrE:
  assumes "deserialize J wire auth = Inr msg"
  obtains signature header parent_header metadata content where
    "DELIMITER \<notin> set (identities msg)"
    "wire = identities msg @ [DELIMITER, signature, header, parent_header, metadata, content] @ m_buffers msg"
    "j_parse J header = Inr (m_header msg)" "j_parse J parent_header = Inr (m_parent_header msg)"
    "j_parse J metadata = Inr (m_metadata msg)" "j_parse J content = Inr (m_content msg)"
    "verify auth signature header parent_header metadata content = Inr True"
proof (cases wire rule: wire_cases)
  case (found ids w)
  with assms that show ?thesis
    by (auto simp: deserialize_found res_simps make_xmessage_eq_iff deserialize_message_base_Inr_iff)
next
  case missing
  with assms show ?thesis by (simp add: deserialize_def deserialize_zmq_id_missing)
next
  case empty
  with assms show ?thesis by (simp add: deserialize_def deserialize_zmq_id_def)
qed

text \<open>
  C2. A wire message is accepted, as \<open>msg\<close>, exactly when it is the identities of \<open>msg\<close>, the
  first delimiter, a signature, the four JSON parts of \<open>msg\<close> in the order header, parent
  header, metadata, content, and then the buffers of \<open>msg\<close>, and the signature verifies.
\<close>

theorem deserialize_accepts_iff:
  "deserialize J wire auth = Inr msg \<longleftrightarrow>
    DELIMITER \<notin> set (identities msg) \<and>
    (\<exists>signature header parent_header metadata content.
      wire = identities msg @ [DELIMITER, signature, header, parent_header, metadata, content] @ m_buffers msg \<and>
      j_parse J header = Inr (m_header msg) \<and> j_parse J parent_header = Inr (m_parent_header msg) \<and>
      j_parse J metadata = Inr (m_metadata msg) \<and> j_parse J content = Inr (m_content msg) \<and>
      verify auth signature header parent_header metadata content = Inr True)"
    (is "?L \<longleftrightarrow> ?R")
proof
  assume ?L
  then show ?R by (rule deserialize_InrE) blast
next
  assume ?R
  then show ?L
    by (auto simp: deserialize_found res_simps make_xmessage_eq_iff deserialize_message_base_Inr_iff)
qed

text \<open>Where a failure to deserialise can come from.\<close>

lemma deserialize_faults:
  assumes "deserialize J wire auth = Inl f"
  shows "f = Undefined \<or> (\<exists>s. f = Throws (Runtime_error s)) \<or> (\<exists>x. j_parse J x = Inl f) \<or>
    (\<exists>s h p m c. verify auth s h p m c = Inl f)"
proof (cases wire rule: wire_cases)
  case empty
  with assms show ?thesis by (simp add: deserialize_def deserialize_zmq_id_def)
next
  case missing
  with assms show ?thesis by (auto simp: deserialize_def deserialize_zmq_id_missing)
next
  case (found ids w)
  with assms have w: "deserialize_message_base J w auth = Inl f"
    by (simp add: deserialize_found rbind_Inl_iff)
  show ?thesis
  proof (cases "length w < 5")
    case True
    with w show ?thesis by (simp add: deserialize_message_base_short)
  next
    case False
    then obtain s h p m c bufs where "w = s # h # p # m # c # bufs" by (rule five_frames)
    with w show ?thesis by (auto simp: deserialize_message_base_parts rbind_Inl_iff split: if_splits)
  qed
qed

section \<open>Round trips\<close>

lemma serialize_message_base_dumps:
  assumes "j_dump J eh (m_header msg) = Inr h" "j_dump J eh (m_parent_header msg) = Inr p"
    "j_dump J eh (m_metadata msg) = Inr m" "j_dump J eh (m_content msg) = Inr c"
  shows "serialize_message_base J msg auth eh w = Inr (w @ [sign auth h p m c, h, p, m, c] @ m_buffers msg)"
  using assms by (simp add: serialize_message_base_def)

definition reads_back_parts ::
  "'j json_api \<Rightarrow> error_handler \<Rightarrow> ('j, 'm) xmessage_base_data_scheme \<Rightarrow> bool" where
  "reads_back_parts J eh msg \<longleftrightarrow> json_reads_back J eh (m_header msg) \<and>
     json_reads_back J eh (m_parent_header msg) \<and> json_reads_back J eh (m_metadata msg) \<and>
     json_reads_back J eh (m_content msg)"

context authenticator
begin

lemma body_roundtrip:
  assumes "reads_back_parts J eh msg"
  shows "\<exists>body. serialize_message_base J msg auth eh w = Inr (w @ body) \<and> body \<noteq> [] \<and>
    deserialize_message_base J body auth = Inr (base_data msg)"
proof -
  from assms obtain h p m c where parts:
    "j_dump J eh (m_header msg) = Inr h" "j_dump J eh (m_parent_header msg) = Inr p"
    "j_dump J eh (m_metadata msg) = Inr m" "j_dump J eh (m_content msg) = Inr c"
    "j_parse J h = Inr (m_header msg)" "j_parse J p = Inr (m_parent_header msg)"
    "j_parse J m = Inr (m_metadata msg)" "j_parse J c = Inr (m_content msg)"
    by (auto simp: reads_back_parts_def json_reads_back_def)
  then show ?thesis
    by (simp add: serialize_message_base_dumps deserialize_message_base_parts verify_sign base_data_def)
qed

lemma message_roundtrip:
  assumes "reads_back_parts J eh msg" "DELIMITER \<notin> set (identities msg)"
  shows "\<exists>wire. serialize J msg auth eh = Inr wire \<and> deserialize J wire auth = Inr msg"
proof -
  from body_roundtrip [OF assms(1), of "identities msg @ [DELIMITER]"] obtain body where
    "serialize J msg auth eh = Inr (identities msg @ DELIMITER # body)" "body \<noteq> []"
    "deserialize_message_base J body auth = Inr (base_data msg)"
    by (auto simp: serialize_def serialize_zmq_id_def)
  then show ?thesis
    using assms(2) by (simp add: deserialize_found make_xmessage_eq_iff)
qed

lemma pub_message_roundtrip:
  assumes "reads_back_parts J eh msg"
  shows "\<exists>wire. serialize_iopub J msg auth eh = Inr wire \<and> deserialize_iopub J wire auth = Inr msg"
proof -
  from body_roundtrip [OF assms, of "[topic msg, DELIMITER]"] obtain body where
    "serialize_iopub J msg auth eh = Inr (topic msg # DELIMITER # body)"
    "deserialize_message_base J body auth = Inr (base_data msg)"
    by (auto simp: serialize_iopub_def serialize_topic_def)
  then show ?thesis
    by (cases msg) (simp add: deserialize_iopub_def deserialize_topic_def make_xpub_message_def base_data_def)
qed

lemma pub_message_wire:
  assumes "reads_back_parts J eh msg"
  shows "\<exists>wire. serialize_iopub J msg auth eh = Inr wire \<and> wire \<noteq> [] \<and> deserialize_iopub J wire auth = Inr msg"
  using pub_message_roundtrip [OF assms]
  by (auto simp: serialize_iopub_def serialize_topic_def serialize_message_base_def rbind_Inr_iff)

end

text \<open>
  C3. Whatever authentication the factory makes, a message whose identities do not contain the
  delimiter and whose JSON parts read back is deserialised to itself from its wire form,
  identities and buffers included.
\<close>

theorem serialize_roundtrip:
  assumes "make_xauthentication M hex_string scheme key = Inr auth"
    "reads_back_parts J eh msg" "DELIMITER \<notin> set (identities msg)"
  shows "\<exists>wire. serialize J msg auth eh = Inr wire \<and> deserialize J wire auth = Inr msg"
proof -
  from assms(1) have "authenticator auth" by (rule make_xauthentication_authenticator)
  then show ?thesis using assms(2,3) by (rule authenticator.message_roundtrip)
qed

text \<open>The message of the closed instances.\<close>

definition sample_json :: "jv json_api" where
  "sample_json = table_json [(''{}'', JObj []), (''H'', JObj [(''msg_type'', JStr ''status'')])]"

definition sample_message :: "jv xmessage" where
  "sample_message = \<lparr>m_header = JObj [(''msg_type'', JStr ''status'')], m_parent_header = JObj [],
     m_metadata = JObj [], m_content = JObj [], m_buffers = [''b1'', ''b2''], identities = [''id'', ''<IDS'']\<rparr>"

lemma sample_message_reads_back: "reads_back_parts sample_json eh sample_message"
  by (simp add: reads_back_parts_def json_reads_back_def sample_json_def sample_message_def)

theorem serialize_roundtrip_witness:
  "\<exists>wire. serialize sample_json sample_message no_xauthentication strict = Inr wire \<and>
    deserialize sample_json wire no_xauthentication = Inr sample_message"
  by (rule serialize_roundtrip [of echo_mac id "''none''" "''key''"])
    (simp_all add: make_xauthentication_def sample_message_reads_back, simp add: sample_message_def DELIMITER_def)

section \<open>Messages that are not accepted\<close>

text \<open>
  C39. What malformed messages lead to: an empty one, and one with fewer than five frames after
  the first delimiter, make the code pop from an empty message (undefined behaviour); a
  missing delimiter, or one that is the last frame, is an exception; and with enough frames a
  signature that does not verify is an exception, and one that verification cannot read is
  undefined behaviour.
\<close>

theorem deserialize_malformed:
  "deserialize J [] auth = Inl Undefined \<and>
   (wire \<noteq> [] \<longrightarrow> DELIMITER \<notin> set (butlast wire) \<longrightarrow>
     deserialize J wire auth = Inl (Throws (Runtime_error ''ERROR: Delimiter not present in message''))) \<and>
   (DELIMITER \<notin> set ids \<longrightarrow> 0 < length w \<longrightarrow> length w < 5 \<longrightarrow>
     deserialize J (ids @ DELIMITER # w) auth = Inl Undefined) \<and>
   (DELIMITER \<notin> set ids \<longrightarrow> verify auth s h p m c \<noteq> Inr True \<longrightarrow>
     (\<exists>jh jp jm jc. j_parse J h = Inr jh \<and> j_parse J p = Inr jp \<and> j_parse J m = Inr jm \<and> j_parse J c = Inr jc) \<longrightarrow>
     deserialize J (ids @ [DELIMITER, s, h, p, m, c] @ bufs) auth =
       (case verify auth s h p m c of
          Inl e \<Rightarrow> Inl e
        | Inr ok \<Rightarrow> Inl (Throws (Runtime_error ''ERROR: Signatures don't match''))))"
proof (intro conjI impI)
  show "deserialize J [] auth = Inl Undefined"
    by (simp add: deserialize_def deserialize_zmq_id_def)
  show "deserialize J wire auth = Inl (Throws (Runtime_error ''ERROR: Delimiter not present in message''))"
    if "wire \<noteq> []" "DELIMITER \<notin> set (butlast wire)"
    using deserialize_zmq_id_missing [OF that] by (simp add: deserialize_def)
  show "deserialize J (ids @ DELIMITER # w) auth = Inl Undefined"
    if "DELIMITER \<notin> set ids" "0 < length w" "length w < 5"
    using that by (simp add: deserialize_found deserialize_message_base_short)
  show "deserialize J (ids @ [DELIMITER, s, h, p, m, c] @ bufs) auth =
       (case verify auth s h p m c of
          Inl e \<Rightarrow> Inl e
        | Inr ok \<Rightarrow> Inl (Throws (Runtime_error ''ERROR: Signatures don't match'')))"
    if "DELIMITER \<notin> set ids" "verify auth s h p m c \<noteq> Inr True"
      "\<exists>jh jp jm jc. j_parse J h = Inr jh \<and> j_parse J p = Inr jp \<and> j_parse J m = Inr jm \<and> j_parse J c = Inr jc"
    using that by (auto simp: deserialize_found deserialize_message_base_parts split: sum.split)
qed

theorem deserialize_malformed_witness:
  "deserialize sample_json [''id'', DELIMITER, ''s'', ''{}''] no_xauthentication = Inl Undefined \<and>
   deserialize sample_json [''id'', DELIMITER] no_xauthentication
     = Inl (Throws (Runtime_error ''ERROR: Delimiter not present in message'')) \<and>
   deserialize sample_json [''id'', DELIMITER, ''s'', ''{}'', ''{}'', ''{}'', ''{}'']
      sample_auth
     = Inl Undefined"
  using deserialize_malformed [of sample_json no_xauthentication "[''id'', DELIMITER]" "[''id'']" "[''s'', ''{}'']"]
    deserialize_malformed [of sample_json
      "sample_auth"
      "[]" "[''id'']" "[]" "''s''" "''{}''" "''{}''" "''{}''" "''{}''" "[]"]
  by (simp add: DELIMITER_def sample_json_def sample_auth_def openssl_methods_eq memcmp_signature_def
      compute_hex_signature_value [OF echo_mac_computes])

text \<open>
  C4. With an OpenSSL authentication object, every message that is accepted carries, as the
  first frame after its identities and the delimiter, a signature that starts with the
  hexadecimal HMAC, under the configured key, of the four JSON frames that were parsed.
\<close>

theorem deserialize_authentic:
  assumes "mac_computes M hmac" "scheme \<noteq> ''none''"
    "make_xauthentication M hex_string scheme key = Inr auth" "deserialize J wire auth = Inr msg"
  shows "\<exists>signature h p m c.
    wire = identities msg @ [DELIMITER, signature, h, p, m, c] @ m_buffers msg \<and>
    prefix (hex_string (hmac key (map toupper (drop 5 scheme)) (h @ p @ m @ c))) signature"
proof -
  from assms(2,3) obtain a where a: "make_openssl_xauthentication M scheme key = Inr a"
      "auth = openssl_methods M hex_string a"
    by (auto elim: make_xauthentication_cases)
  from assms(4) obtain s h p m c where w:
      "wire = identities msg @ [DELIMITER, s, h, p, m, c] @ m_buffers msg" "verify auth s h p m c = Inr True"
    by (rule deserialize_InrE)
  from w(2) have "prefix (fst (compute_hex_signature M hex_string a h p m c)) s"
    by (simp add: a(2) openssl_methods_eq memcmp_signature_eq split: if_splits)
  then have "prefix (hex_string (hmac key (map toupper (drop 5 scheme)) (h @ p @ m @ c))) s"
    using make_openssl_fields [OF a(1)] by (simp add: compute_hex_signature_value [OF assms(1)])
  with w(1) show ?thesis by blast
qed

theorem deserialize_authentic_witness:
  "\<exists>signature h p m c.
    [''id'', DELIMITER, ''kSHA256{}{}{}{}tail'', ''{}'', ''{}'', ''{}'', ''{}'', ''buf'']
      = [''id''] @ [DELIMITER, signature, h, p, m, c] @ [''buf''] \<and>
    prefix (''kSHA256'' @ h @ p @ m @ c) signature"
proof -
  let ?msg = "make_xmessage [''id''] \<lparr>m_header = JObj [], m_parent_header = JObj [], m_metadata = JObj [],
      m_content = JObj [], m_buffers = [''buf'']\<rparr>"
  note make_sample_auth
  moreover have "deserialize sample_json [''id'', DELIMITER, ''kSHA256{}{}{}{}tail'', ''{}'', ''{}'', ''{}'', ''{}'', ''buf''] sample_auth
      = Inr ?msg"
    using deserialize_found [of "[''id'']"
        "[''kSHA256{}{}{}{}tail'', ''{}'', ''{}'', ''{}'', ''{}'', ''buf'']" sample_json sample_auth]
    by (simp add: deserialize_message_base_parts sample_auth_def openssl_methods_eq memcmp_signature_def
        compute_hex_signature_value [OF echo_mac_computes] sample_json_def, simp add: DELIMITER_def)
  ultimately show ?thesis
    using deserialize_authentic [OF echo_mac_computes, of "''hmac-sha256''" id "''k''" sample_auth sample_json
        "[''id'', DELIMITER, ''kSHA256{}{}{}{}tail'', ''{}'', ''{}'', ''{}'', ''{}'', ''buf'']" ?msg]
    by (simp add: make_xmessage_def toupper_def char_of_def bit_Suc_0_iff)
qed

end
