(* ===== verification/Sockets.thy ===== *)
theory Sockets
  imports Cpp_Prelude
begin

text \<open>
  Stateful code and ZeroMQ sockets. A piece of code is a function from the state it works on
  to its outcome and the state it leaves, so that what was done before an exception stays done.
  Sockets are the constructors of a component's own type of sockets; the state of its end of
  the network is the record \<open>net\<close>. Threads are modelled one at a time: the messages other
  threads and processes send are the input of a component's loop.
\<close>

named_theorems prog_simps \<open>evaluation of stateful code\<close>

section \<open>Stateful code\<close>

type_synonym ('st, 'a) prog = "'st \<Rightarrow> 'a res \<times> 'st"

definition ret :: "'a \<Rightarrow> ('st, 'a) prog" where "ret x = (\<lambda>st. (Inr x, st))"

definition fail :: "fault \<Rightarrow> ('st, 'a) prog" where "fail e = (\<lambda>st. (Inl e, st))"

definition lift_res :: "'a res \<Rightarrow> ('st, 'a) prog" where "lift_res r = (\<lambda>st. (r, st))"

definition gets :: "('st \<Rightarrow> 'a) \<Rightarrow> ('st, 'a) prog" where "gets f = (\<lambda>st. (Inr (f st), st))"

definition modify :: "('st \<Rightarrow> 'st) \<Rightarrow> ('st, unit) prog" where "modify f = (\<lambda>st. (Inr (), f st))"

definition seq :: "('st, 'a) prog \<Rightarrow> ('a \<Rightarrow> ('st, 'b) prog) \<Rightarrow> ('st, 'b) prog" where
  "seq p f = (\<lambda>st. case p st of (Inl e, st') \<Rightarrow> (Inl e, st') | (Inr x, st') \<Rightarrow> f x st')"

text \<open>\<^verbatim>\<open>try { p } catch (exception) { h }\<close>; \<open>h\<close> may raise again.\<close>

definition try_catch :: "('st, 'a) prog \<Rightarrow> (exn \<Rightarrow> ('st, 'a) prog) \<Rightarrow> ('st, 'a) prog" where
  "try_catch p h = (\<lambda>st. case p st of (Inl (Throws e), st') \<Rightarrow> h e st' | r \<Rightarrow> r)"

text \<open>Running code that works on a part of the state.\<close>

definition zoom :: "('st \<Rightarrow> 'p) \<Rightarrow> ('p \<Rightarrow> 'st \<Rightarrow> 'st) \<Rightarrow> ('p, 'a) prog \<Rightarrow> ('st, 'a) prog" where
  "zoom get put p = (\<lambda>st. let (r, part) = p (get st) in (r, put part st))"

lemma prog_eval [prog_simps]:
  "ret x st = (Inr x, st)" "fail e st = (Inl e, st)" "lift_res r st = (r, st)"
  "gets f st = (Inr (f st), st)" "modify g st = (Inr (), g st)"
  by (simp_all add: ret_def fail_def lift_res_def gets_def modify_def)

lemma seq_eval [prog_simps]:
  "p st = (Inr x, st') \<Longrightarrow> seq p f st = f x st'"
  "p st = (Inl e, st') \<Longrightarrow> seq p f st = (Inl e, st')"
  by (simp_all add: seq_def)

lemma seq_ret [simp]: "seq (ret x) f = f x"
  by (rule ext) (simp add: seq_def ret_def)

lemma seq_gets [simp]: "seq (gets f) g = (\<lambda>st. g (f st) st)"
  by (rule ext) (simp add: seq_def gets_def)

lemma seq_modify [simp]: "seq (modify f) g = (\<lambda>st. g () (f st))"
  by (rule ext) (simp add: seq_def modify_def)

lemma seq_fail [simp]: "seq (fail e) f = fail e"
  by (rule ext) (simp add: seq_def fail_def)

lemma seq_Inr_iff:
  "seq p f st = (Inr y, st'') \<longleftrightarrow> (\<exists>x st'. p st = (Inr x, st') \<and> f x st' = (Inr y, st''))"
  by (auto simp: seq_def split: prod.split sum.split)

lemma try_catch_Inr [prog_simps]: "p st = (Inr x, st') \<Longrightarrow> try_catch p h st = (Inr x, st')"
  by (simp add: try_catch_def)

lemma try_catch_Throws [prog_simps]: "p st = (Inl (Throws e), st') \<Longrightarrow> try_catch p h st = h e st'"
  by (simp add: try_catch_def)

lemma try_catch_fatal [prog_simps]:
  "p st = (Inl Undefined, st') \<Longrightarrow> try_catch p h st = (Inl Undefined, st')"
  "p st = (Inl Blocks, st') \<Longrightarrow> try_catch p h st = (Inl Blocks, st')"
  by (simp_all add: try_catch_def)

section \<open>A component's end of the network\<close>

text \<open>
  \<open>inbox\<close> holds, for each socket, the messages that have arrived and not been read;
  \<open>received\<close> and \<open>outbox\<close> record, in order, what the code has read and sent. Sends succeed:
  a blocking send that waits for a peer is not distinguished from a prompt one.
\<close>

record 's net =
  inbox :: "'s \<Rightarrow> multipart list"
  received :: "('s \<times> multipart) list"
  outbox :: "('s \<times> multipart) list"

definition empty_net :: "'s net" where
  "empty_net = \<lparr>inbox = (\<lambda>s. []), received = [], outbox = []\<rparr>"

definition on_socket :: "'s \<Rightarrow> ('s \<times> multipart) list \<Rightarrow> multipart list" where
  "on_socket s ms = map snd (filter (\<lambda>m. fst m = s) ms)"

definition arrive :: "('s \<times> multipart) list \<Rightarrow> 's net \<Rightarrow> 's net" where
  "arrive batch n = n\<lparr>inbox := \<lambda>s. inbox n s @ on_socket s batch\<rparr>"

definition readable :: "'s net \<Rightarrow> 's \<Rightarrow> bool" where "readable n s \<longleftrightarrow> inbox n s \<noteq> []"

text \<open>A blocking receive, and one with the flag for not blocking.\<close>

definition net_recv :: "'s \<Rightarrow> ('s net, multipart) prog" where
  "net_recv s n = (case inbox n s of
      [] \<Rightarrow> (Inl Blocks, n)
    | m # ms \<Rightarrow> (Inr m, n\<lparr>inbox := (inbox n)(s := ms), received := received n @ [(s, m)]\<rparr>))"

definition net_recv_noblock :: "'s \<Rightarrow> ('s net, multipart option) prog" where
  "net_recv_noblock s n = (case inbox n s of
      [] \<Rightarrow> (Inr None, n)
    | m # ms \<Rightarrow> (Inr (Some m), n\<lparr>inbox := (inbox n)(s := ms), received := received n @ [(s, m)]\<rparr>))"

text \<open>
  Receiving into a single \<^verbatim>\<open>message_t\<close> takes one frame; the other frames of the message
  are what the next receive yields.
\<close>

definition net_recv_frame :: "'s \<Rightarrow> ('s net, frame) prog" where
  "net_recv_frame s n = (case inbox n s of
      [] \<Rightarrow> (Inl Blocks, n)
    | [] # ms \<Rightarrow> (Inl Undefined, n)
    | (f # fs) # ms \<Rightarrow> (Inr f, n\<lparr>inbox := (inbox n)(s := (if fs = [] then ms else fs # ms)),
        received := received n @ [(s, [f])]\<rparr>))"

text \<open>Sending a multipart message that has no frame sends nothing.\<close>

definition net_send :: "'s \<Rightarrow> multipart \<Rightarrow> ('s net, unit) prog" where
  "net_send s m n = (Inr (), if m = [] then n else n\<lparr>outbox := outbox n @ [(s, m)]\<rparr>)"

lemma on_socket_simps [simp]:
  "on_socket s [] = []" "on_socket s (a @ b) = on_socket s a @ on_socket s b"
  "on_socket s ((s', m) # ms) = (if s' = s then m # on_socket s ms else on_socket s ms)"
  by (simp_all add: on_socket_def)

lemma on_socket_tagged: "on_socket s (map (Pair s') ms) = (if s' = s then ms else [])"
  by (induction ms) auto

lemma arrive_selects [simp]:
  "inbox (arrive batch n) s = inbox n s @ on_socket s batch"
  "received (arrive batch n) = received n" "outbox (arrive batch n) = outbox n"
  by (simp_all add: arrive_def)

lemma readable_simps [simp]:
  "readable (n\<lparr>received := r\<rparr>) s = readable n s" "readable (n\<lparr>outbox := r\<rparr>) s = readable n s"
  "s \<noteq> s' \<Longrightarrow> readable (n\<lparr>inbox := (inbox n)(s' := ms)\<rparr>) s = readable n s"
  by (simp_all add: readable_def)

section \<open>Loops\<close>

text \<open>
  One turn of a polling loop starts with the outcome of \<^verbatim>\<open>zmq::poll\<close>: an error, or the
  messages that have arrived by then. A turn says whether the loop goes on or was left by
  a \<^verbatim>\<open>break\<close>. \<open>run_loop\<close> runs a loop over the outcomes of its polls: \<open>Running\<close> means that
  it waits for the next one.
\<close>

datatype 's poll_result = Poll_error errno | Poll_arrivals "('s \<times> multipart) list"

datatype loop_status = Running | Stopped

fun run_loop :: "('e \<Rightarrow> ('st, loop_status) prog) \<Rightarrow> 'e list \<Rightarrow> ('st, loop_status) prog" where
  "run_loop turn [] = ret Running"
| "run_loop turn (e # es) =
     seq (turn e) (\<lambda>status. if status = Running then run_loop turn es else ret Stopped)"

fun arrivals :: "'s poll_result \<Rightarrow> ('s \<times> multipart) list" where
  "arrivals (Poll_error e) = []"
| "arrivals (Poll_arrivals batch) = batch"

text \<open>The outcome of a receive that waits until it is interrupted or a message arrives.\<close>

datatype recv_result = Recv_error errno | Recv_message multipart

text \<open>The handler that follows the polls of the server's threads.\<close>

definition poll_error :: "errno \<Rightarrow> ('st, loop_status) prog" where
  "poll_error e = (if e = EINTR then ret Running
                   else if e = ETERM then ret Stopped
                   else fail (Throws (Zmq_error e)))"

section \<open>Loops that answer each message by itself\<close>

text \<open>
  \<open>answers respond arrived n n'\<close>: from \<open>n\<close> to \<open>n'\<close> the code has read some messages, each
  socket's in the order of their arrival and each once, the others waiting, and has sent
  the answers to the messages read, in the order of reading, and nothing else.
\<close>

definition responses :: "('s \<Rightarrow> multipart \<Rightarrow> ('s \<times> multipart) list) \<Rightarrow> ('s \<times> multipart) list
    \<Rightarrow> ('s \<times> multipart) list" where
  "responses respond ms = concat (map (\<lambda>(s, m). respond s m) ms)"

definition answers :: "('s \<Rightarrow> multipart \<Rightarrow> ('s \<times> multipart) list) \<Rightarrow> ('s \<times> multipart) list
    \<Rightarrow> 's net \<Rightarrow> 's net \<Rightarrow> bool" where
  "answers respond arrived n n' \<longleftrightarrow> (\<exists>ms. received n' = received n @ ms \<and>
     outbox n' = outbox n @ responses respond ms \<and>
     (\<forall>s. on_socket s ms @ inbox n' s = inbox n s @ on_socket s arrived))"

lemma responses_simps [simp]:
  "responses respond [] = []"
  "responses respond ((s, m) # ms) = respond s m @ responses respond ms"
  "responses respond (ms @ ms') = responses respond ms @ responses respond ms'"
  by (simp_all add: responses_def)

lemma answersI:
  "received n' = received n @ ms \<Longrightarrow> outbox n' = outbox n @ responses respond ms \<Longrightarrow>
   (\<And>s. on_socket s ms @ inbox n' s = inbox n s @ on_socket s arrived) \<Longrightarrow>
   answers respond arrived n n'"
  by (auto simp: answers_def)

lemma answers_refl: "answers respond [] n n"
  by (rule answersI [of _ _ "[]"]) simp_all

lemma answers_trans:
  assumes "answers respond a n n'" "answers respond b n' n''"
  shows "answers respond (a @ b) n n''"
proof -
  from assms obtain ms ms' where
    1: "received n' = received n @ ms" "outbox n' = outbox n @ responses respond ms"
       "\<And>s. on_socket s ms @ inbox n' s = inbox n s @ on_socket s a" and
    2: "received n'' = received n' @ ms'" "outbox n'' = outbox n' @ responses respond ms'"
       "\<And>s. on_socket s ms' @ inbox n'' s = inbox n' s @ on_socket s b"
    by (auto simp: answers_def)
  show ?thesis
  proof (rule answersI)
    show "received n'' = received n @ (ms @ ms')" using 1(1) 2(1) by simp
    show "outbox n'' = outbox n @ responses respond (ms @ ms')" using 1(2) 2(2) by simp
    show "on_socket s (ms @ ms') @ inbox n'' s = inbox n s @ on_socket s (a @ b)" for s
    proof -
      have "on_socket s (ms @ ms') @ inbox n'' s = (on_socket s ms @ inbox n' s) @ on_socket s b"
        using 2(3) [of s] by simp
      then show ?thesis unfolding 1(3) by simp
    qed
  qed
qed

text \<open>What sending a message adds to the outbox, and answering by an echo.\<close>

definition sends :: "'s \<Rightarrow> multipart \<Rightarrow> ('s \<times> multipart) list" where
  "sends s m = (if m = [] then [] else [(s, m)])"

lemma net_send_sends: "net_send s m n = (Inr (), n\<lparr>outbox := outbox n @ sends s m\<rparr>)"
  by (simp add: net_send_def sends_def)

lemma answers_read:
  assumes "net_recv s n = (Inr m, n1)" "inbox n2 = inbox n1" "received n2 = received n1"
    "outbox n2 = outbox n1 @ respond s m"
  shows "answers respond [] n n2"
proof (rule answersI)
  from assms(1) obtain ms where ms: "inbox n s = m # ms"
    and n1: "n1 = n\<lparr>inbox := (inbox n)(s := ms), received := received n @ [(s, m)]\<rparr>"
    by (auto simp: net_recv_def split: list.splits)
  show "received n2 = received n @ [(s, m)]" using assms(3) n1 by simp
  show "outbox n2 = outbox n @ responses respond [(s, m)]" using assms(4) n1 by simp
  show "on_socket s' [(s, m)] @ inbox n2 s' = inbox n s' @ on_socket s' []" for s'
    using assms(2) n1 ms by simp
qed

lemma answers_arrive:
  assumes "answers respond [] (arrive batch n) n'"
  shows "answers respond batch n n'"
proof -
  from assms obtain ms where "received n' = received n @ ms" "outbox n' = outbox n @ responses respond ms"
    "\<forall>s. on_socket s ms @ inbox n' s = inbox n s @ on_socket s batch"
    by (auto simp: answers_def)
  then show ?thesis by (auto simp: answers_def)
qed

text \<open>The two things the threads' loops do with a readable socket: forward, and echo and stop.\<close>

lemma forward_phase:
  assumes "seq (if rd then seq (net_recv s) (\<lambda>m. net_send s' m) else ret ()) f n = (Inr x, n')"
    and "\<And>m. respond s m = sends s' m"
  obtains n1 where "f () n1 = (Inr x, n')" "answers respond [] n n1" "\<And>t. t \<noteq> s \<Longrightarrow> inbox n1 t = inbox n t"
proof (cases rd)
  case False
  with assms(1) that [of n] show ?thesis by (simp add: answers_refl)
next
  case True
  with assms(1) obtain m n1 where 1: "net_recv s n = (Inr m, n1)"
    and 2: "f () (n1\<lparr>outbox := outbox n1 @ sends s' m\<rparr>) = (Inr x, n')"
    by (auto simp: seq_Inr_iff net_send_sends)
  have "answers respond [] n (n1\<lparr>outbox := outbox n1 @ sends s' m\<rparr>)"
    by (rule answers_read [OF 1]) (simp_all add: assms(2))
  moreover have "inbox n1 t = inbox n t" if "t \<noteq> s" for t
    using 1 that by (auto simp: net_recv_def split: list.splits)
  ultimately show ?thesis using 2 that by simp
qed

lemma echo_stop_phase:
  assumes "seq (net_recv s) (\<lambda>m. seq (net_send s m) (\<lambda>_. ret Stopped)) n = (Inr x, n')"
    and "\<And>m. respond s m = sends s m"
  shows "x = Stopped \<and> answers respond [] n n' \<and> (\<exists>r m. received n' = r @ [(s, m)])"
proof -
  from assms(1) obtain m n1 where 1: "net_recv s n = (Inr m, n1)" "x = Stopped"
    "n' = n1\<lparr>outbox := outbox n1 @ sends s m\<rparr>"
    by (auto simp: seq_Inr_iff net_send_sends prog_simps)
  from 1(1) have "received n1 = received n @ [(s, m)]"
    by (auto simp: net_recv_def split: list.splits)
  moreover from 1 have "answers respond [] n n'"
    by (auto intro: answers_read simp: assms(2))
  ultimately show ?thesis using 1 by simp
qed

lemma forward_phase_ok:
  "\<exists>n1. (\<forall>f :: unit \<Rightarrow> ('s net, 'a) prog.
      seq (if readable n s then seq (net_recv s) (\<lambda>m. net_send s' m) else ret ()) f n = f () n1) \<and>
    (\<forall>t. t \<noteq> s \<longrightarrow> inbox n1 t = inbox n t)"
proof (cases "readable n s")
  case False
  then show ?thesis by (intro exI [of _ n]) simp
next
  case True
  then obtain m ms where "net_recv s n
      = (Inr m, n\<lparr>inbox := (inbox n)(s := ms), received := received n @ [(s, m)]\<rparr>)"
    by (auto simp: readable_def net_recv_def neq_Nil_conv)
  with True show ?thesis
    by (intro exI [of _ "n\<lparr>inbox := (inbox n)(s := ms), received := received n @ [(s, m)],
        outbox := outbox n @ sends s' m\<rparr>"]) (simp add: seq_def net_send_sends)
qed

lemma poll_error_Inr:
  "poll_error e st = (Inr status, st') \<longleftrightarrow>
     st' = st \<and> (e = EINTR \<and> status = Running \<or> e = ETERM \<and> status = Stopped)"
  by (auto simp: poll_error_def prog_simps)

text \<open>
  The contract of such a loop: every turn that does not fail answers what it reads. The
  state may be larger than the network end \<open>net_of\<close> selects.
\<close>

locale answering_loop =
  fixes turn :: "'s poll_result \<Rightarrow> ('st, loop_status) prog"
    and respond :: "'s \<Rightarrow> multipart \<Rightarrow> ('s \<times> multipart) list"
    and net_of :: "'st \<Rightarrow> 's net"
  assumes turn_answers:
    "turn e st = (Inr status, st') \<Longrightarrow> answers respond (arrivals e) (net_of st) (net_of st')"
begin

lemma run_answers:
  "run_loop turn es st = (Inr status, st') \<Longrightarrow>
   \<exists>seen. prefix seen es \<and>
     answers respond (concat (map arrivals seen)) (net_of st) (net_of st') \<and>
     (status = Running \<longrightarrow> seen = es)"
proof (induction es arbitrary: st)
  case Nil
  then show ?case by (auto simp: prog_simps answers_refl)
next
  case (Cons e es)
  then obtain s1 st1 where 1: "turn e st = (Inr s1, st1)"
    and rest: "(if s1 = Running then run_loop turn es else ret Stopped) st1 = (Inr status, st')"
    by (auto simp: seq_Inr_iff)
  note step = turn_answers [OF 1]
  show ?case
  proof (cases s1)
    case Stopped
    with rest step show ?thesis by (intro exI [of _ "[e]"]) (auto simp: prog_simps)
  next
    case Running
    with rest have "run_loop turn es st1 = (Inr status, st')" by simp
    from Cons.IH [OF this] obtain seen where seen: "prefix seen es"
      "answers respond (concat (map arrivals seen)) (net_of st1) (net_of st')"
      "status = Running \<longrightarrow> seen = es" by blast
    with answers_trans [OF step seen(2)] show ?thesis by (intro exI [of _ "e # seen"]) simp
  qed
qed

end

text \<open>
  A loop with a socket for stopping it: a turn that goes on has found nothing there, and a loop
  that is left has read the stop message last, unless ZeroMQ is terminating.
\<close>

locale stoppable_loop = answering_loop +
  fixes stop :: 's
  assumes turn_running:
      "turn e st = (Inr Running, st') \<Longrightarrow> inbox (net_of st) stop = [] \<Longrightarrow>
       on_socket stop (arrivals e) = [] \<and> inbox (net_of st') stop = []"
    and turn_stopped:
      "turn e st = (Inr Stopped, st') \<Longrightarrow>
       e = Poll_error ETERM \<or> (\<exists>r m. received (net_of st') = r @ [(stop, m)])"
begin

lemma run_not_stopped:
  "run_loop turn es st = (Inr Running, st') \<Longrightarrow> inbox (net_of st) stop = [] \<Longrightarrow>
   on_socket stop (concat (map arrivals es)) = [] \<and> inbox (net_of st') stop = []"
proof (induction es arbitrary: st)
  case (Cons e es)
  from Cons.prems(1) obtain s1 st1 where 1: "turn e st = (Inr s1, st1)"
    and rest: "(if s1 = Running then run_loop turn es else ret Stopped) st1 = (Inr Running, st')"
    by (auto simp: seq_Inr_iff)
  from rest have "s1 = Running" by (auto simp: prog_simps split: if_splits)
  with 1 rest turn_running [of e st st1] Cons show ?case by simp
qed (simp add: prog_simps)

lemma run_stopped:
  "run_loop turn es st = (Inr Stopped, st') \<Longrightarrow>
   Poll_error ETERM \<in> set es \<or> (\<exists>r m. received (net_of st') = r @ [(stop, m)])"
proof (induction es arbitrary: st)
  case (Cons e es)
  from Cons.prems(1) obtain s1 st1 where 1: "turn e st = (Inr s1, st1)"
    and rest: "(if s1 = Running then run_loop turn es else ret Stopped) st1 = (Inr Stopped, st')"
    by (auto simp: seq_Inr_iff)
  show ?case
  proof (cases s1)
    case Running
    with rest Cons.IH show ?thesis by auto
  next
    case Stopped
    with rest have "st1 = st'" by (simp add: prog_simps)
    with 1 Stopped turn_stopped show ?thesis by auto
  qed
qed (simp add: prog_simps)

lemma run_stopped_by:
  assumes "run_loop turn es st = (Inr Stopped, st')" "received (net_of st) = []" "inbox (net_of st) stop = []"
  shows "Poll_error ETERM \<in> set es \<or> on_socket stop (concat (map arrivals es)) \<noteq> []"
proof (cases "Poll_error ETERM \<in> set es")
  case False
  with run_stopped [OF assms(1)] obtain r m where r: "received (net_of st') = r @ [(stop, m)]" by blast
  from run_answers [OF assms(1)] obtain seen ms where seen: "prefix seen es"
    "received (net_of st') = received (net_of st) @ ms"
    "on_socket stop ms @ inbox (net_of st') stop = inbox (net_of st) stop @ on_socket stop (concat (map arrivals seen))"
    by (auto simp: answers_def)
  from r seen(2) assms(2) have "on_socket stop ms \<noteq> []" by simp
  with seen(3) assms(3) have "on_socket stop (concat (map arrivals seen)) \<noteq> []" by auto
  with seen(1) show ?thesis by (auto simp: prefix_def)
qed simp

end

section \<open>Setting up sockets\<close>

text \<open>
  What a constructor does to its sockets, as the list of the calls it makes. Binding can fail:
  the outcome of binding to an end point is a parameter.
\<close>

datatype sock_option =
    Linger int
  | Subscribe string
  | Xpub_verbose int
  | Curve_publickey string
  | Curve_secretkey string
  | Curve_server int
  | Rcvtimeo int

datatype sock_call =
    Set_option sock_option
  | Bind string
  | Connect string
  | Unbind string
  | Disconnect string

type_synonym 's wiring = "('s \<times> sock_call) list"
type_synonym bind_result = "string \<Rightarrow> errno option"

definition sock_call :: "'s \<Rightarrow> sock_call \<Rightarrow> ('s wiring, unit) prog" where
  "sock_call s c = modify (\<lambda>w. w @ [(s, c)])"

definition sock_set :: "'s \<Rightarrow> sock_option \<Rightarrow> ('s wiring, unit) prog" where
  "sock_set s opt = sock_call s (Set_option opt)"

definition sock_connect :: "'s \<Rightarrow> string \<Rightarrow> ('s wiring, unit) prog" where
  "sock_connect s end_point = sock_call s (Connect end_point)"

definition sock_bind :: "bind_result \<Rightarrow> 's \<Rightarrow> string \<Rightarrow> ('s wiring, unit) prog" where
  "sock_bind bind s end_point = (case bind end_point of
      None \<Rightarrow> sock_call s (Bind end_point)
    | Some e \<Rightarrow> fail (Throws (Zmq_error e)))"

text \<open>
  A blocking receive gives up after the socket's receive timeout; a negative timeout, the
  initial one, stands for waiting for ever.
\<close>

definition rcvtimeo :: "'s wiring \<Rightarrow> 's \<Rightarrow> int" where
  "rcvtimeo w s = last (-1 # concat (map (\<lambda>(t, c). case c of
      Set_option (Rcvtimeo ms) \<Rightarrow> if t = s then [ms] else [] | _ \<Rightarrow> []) w))"

definition net_recv_timed :: "int \<Rightarrow> 's \<Rightarrow> ('s net, multipart option) prog" where
  "net_recv_timed timeo s n = (case inbox n s of
      [] \<Rightarrow> (if timeo < 0 then Inl Blocks else Inr None, n)
    | m # ms \<Rightarrow> (Inr (Some m), n\<lparr>inbox := (inbox n)(s := ms), received := received n @ [(s, m)]\<rparr>))"

end
