(* ===== verification/Middleware.thy ===== *)
theory Middleware
  imports Sockets
begin

text \<open>
  End points, port search and socket initialisation (\<^verbatim>\<open>src/common/xmiddleware.cpp\<close>), and
  the part of xeus' kernel configuration the sources read. The random engine is a parameter:
  \<open>draw i\<close> is the i-th port it yields in one call. What ZeroMQ answers to a bind, an unbind
  and a query of the last end point are parameters too.
\<close>

record xkernel_configuration =
  m_transport :: string
  m_ip :: string
  m_control_port :: string
  m_shell_port :: string
  m_stdin_port :: string
  m_iopub_port :: string
  m_hb_port :: string
  m_signature_scheme :: string
  c_key :: string
  m_curve_public_key :: string
  m_curve_secret_key :: string

section \<open>End points\<close>

definition get_controller_end_point :: "string \<Rightarrow> string" where
  "get_controller_end_point channel = ''inproc://'' @ channel @ ''_controller''"

definition get_publisher_end_point :: string where
  "get_publisher_end_point = ''inproc://publisher''"

definition get_end_point :: "string \<Rightarrow> string \<Rightarrow> string \<Rightarrow> string" where
  "get_end_point transport ip port =
     (let sep = (if transport = ''tcp'' then CHR '':'' else CHR ''-'')
      in transport @ ''://'' @ ip @ [sep] @ port)"

definition get_socket_linger :: int where "get_socket_linger = 1000"

section \<open>Searching a free port\<close>

definition int_to_string :: "int \<Rightarrow> string" where
  "int_to_string i = (if i < 0 then CHR ''-'' # to_string (nat (- i)) else to_string (nat i))"

text \<open>
  The do-while loop: \<open>tries\<close> counts the ports drawn before; it yields the last port drawn,
  the number drawn, and the end point that was bound.
\<close>

function find_port_loop :: "bind_result \<Rightarrow> (nat \<Rightarrow> int) \<Rightarrow> string \<Rightarrow> string \<Rightarrow> nat \<Rightarrow> nat
    \<Rightarrow> string \<times> nat \<times> string option" where
  "find_port_loop bind draw transport ip max_tries tries =
     (let rd_port = int_to_string (draw tries);
          tries' = Suc tries;
          end_point = get_end_point transport ip rd_port
      in if tries' \<le> max_tries
         then (if bind end_point \<noteq> None
               then find_port_loop bind draw transport ip max_tries tries'
               else (rd_port, tries', Some end_point))
         else (rd_port, tries', None))"
  by auto
termination by (relation "measure (\<lambda>(_, _, _, _, max_tries, tries). max_tries - tries)") auto

declare find_port_loop.simps [simp del]

definition find_free_port_impl :: "bind_result \<Rightarrow> (nat \<Rightarrow> int) \<Rightarrow> 's \<Rightarrow> string \<Rightarrow> string \<Rightarrow> nat
    \<Rightarrow> ('s wiring, string) prog" where
  "find_free_port_impl bind draw s transport ip max_tries =
     (let (rd_port, tries, bound) = find_port_loop bind draw transport ip max_tries 0;
          rd_port = (if max_tries < tries then [] else rd_port)
      in seq (case bound of Some end_point \<Rightarrow> sock_call s (Bind end_point) | None \<Rightarrow> ret ())
           (\<lambda>_. ret rd_port))"

section \<open>Initialising sockets\<close>

definition set_curve_encryption :: "'s \<Rightarrow> string \<Rightarrow> string \<Rightarrow> ('s wiring, unit) prog" where
  "set_curve_encryption s curve_public_key curve_secret_key =
     seq (sock_set s (Curve_publickey curve_public_key)) (\<lambda>_.
     seq (sock_set s (Curve_secretkey curve_secret_key)) (\<lambda>_.
     sock_set s (Curve_server 1)))"

definition init_socket :: "bind_result \<Rightarrow> (nat \<Rightarrow> int) \<Rightarrow> 's \<Rightarrow> string \<Rightarrow> string \<Rightarrow> string
    \<Rightarrow> ('s wiring, unit) prog" where
  "init_socket bind draw s transport ip port =
     seq (sock_set s (Linger get_socket_linger)) (\<lambda>_.
     if port \<noteq> [] then sock_bind bind s (get_end_point transport ip port)
     else seq (find_free_port_impl bind draw s transport ip 100) (\<lambda>_. ret ()))"

definition init_socket_at :: "bind_result \<Rightarrow> 's \<Rightarrow> string \<Rightarrow> ('s wiring, unit) prog" where
  "init_socket_at bind s end_point =
     seq (sock_set s (Linger get_socket_linger)) (\<lambda>_. sock_bind bind s end_point)"

text \<open>
  \<open>last_endpoint n\<close> is the outcome of querying the socket's last end point with room for \<open>n\<close>
  bytes.
\<close>

definition get_socket_port :: "(nat \<Rightarrow> string res) \<Rightarrow> string res" where
  "get_socket_port last_endpoint =
     rbind (last_endpoint 32) (\<lambda>end_point.
       substr_from end_point (sz_add (pos_value (find_last_char CHR '':'' end_point)) 1))"

definition find_free_port :: "bind_result \<Rightarrow> (string \<Rightarrow> errno option) \<Rightarrow> (nat \<Rightarrow> int) \<Rightarrow> 's \<Rightarrow> nat
    \<Rightarrow> ('s wiring, string) prog" where
  "find_free_port bind unbind draw s max_tries =
     seq (find_free_port_impl bind draw s ''tcp'' ''127.0.0.1'' max_tries) (\<lambda>port.
     let end_point = get_end_point ''tcp'' ''127.0.0.1'' port
     in case unbind end_point of
          Some e \<Rightarrow> fail (Throws (Zmq_error e))
        | None \<Rightarrow> seq (sock_call s (Unbind end_point)) (\<lambda>_. ret port))"

section \<open>Which port is found\<close>

definition port_end_point :: "(nat \<Rightarrow> int) \<Rightarrow> string \<Rightarrow> string \<Rightarrow> nat \<Rightarrow> string" where
  "port_end_point draw transport ip i = get_end_point transport ip (int_to_string (draw i))"

text \<open>The first of the numbers below \<open>n\<close> whose drawn port can be bound.\<close>

definition first_free :: "bind_result \<Rightarrow> (nat \<Rightarrow> int) \<Rightarrow> string \<Rightarrow> string \<Rightarrow> nat \<Rightarrow> nat option" where
  "first_free bind draw transport ip n =
     List.find (\<lambda>i. bind (port_end_point draw transport ip i) = None) [0..<n]"

lemma find_port_loop_spec:
  "tries \<le> max_tries \<Longrightarrow> find_port_loop bind draw transport ip max_tries tries =
    (case List.find (\<lambda>i. bind (port_end_point draw transport ip i) = None) [tries..<max_tries] of
       Some i \<Rightarrow> (int_to_string (draw i), Suc i, Some (port_end_point draw transport ip i))
     | None \<Rightarrow> (int_to_string (draw max_tries), Suc max_tries, None))"
proof (induction bind draw transport ip max_tries tries rule: find_port_loop.induct)
  case (1 bind draw transport ip max_tries tries)
  show ?case
  proof (cases "tries < max_tries")
    case True
    then have "[tries..<max_tries] = tries # [Suc tries..<max_tries]" by (simp add: upt_conv_Cons)
    with True 1 show ?thesis
      by (subst find_port_loop.simps) (auto simp: Let_def port_end_point_def)
  next
    case False
    with 1 show ?thesis by (subst find_port_loop.simps) simp
  qed
qed

lemma find_free_port_impl_eq:
  "find_free_port_impl bind draw s transport ip max_tries w =
    (case first_free bind draw transport ip max_tries of
       Some i \<Rightarrow> (Inr (int_to_string (draw i)), w @ [(s, Bind (port_end_point draw transport ip i))])
     | None \<Rightarrow> (Inr [], w))"
proof (cases "first_free bind draw transport ip max_tries")
  case None
  then show ?thesis
    using find_port_loop_spec [of 0 max_tries bind draw transport ip]
    by (simp add: first_free_def find_free_port_impl_def prog_simps)
next
  case (Some i)
  moreover from Some have "i < max_tries"
    by (auto simp: first_free_def find_Some_iff)
  ultimately show ?thesis
    using find_port_loop_spec [of 0 max_tries bind draw transport ip]
    by (simp add: first_free_def find_free_port_impl_def sock_call_def prog_simps)
qed

text \<open>
  The search yields the first drawn port that can be bound, leaves the socket bound to its
  end point, and tries \<open>max_tries\<close> ports at most; when none of them can be bound it yields
  the empty string and leaves the socket unbound.
\<close>

lemma find_free_port_impl_first:
  "find_free_port_impl bind draw s transport ip max_tries w =
    (case List.find (\<lambda>i. bind (get_end_point transport ip (int_to_string (draw i))) = None) [0..<max_tries] of
       Some i \<Rightarrow> (Inr (int_to_string (draw i)),
                  w @ [(s, Bind (get_end_point transport ip (int_to_string (draw i))))])
     | None \<Rightarrow> (Inr [], w))"
  by (simp only: find_free_port_impl_eq first_free_def port_end_point_def)

text \<open>
  The public port search releases the port it found; when it found none, it unbinds an
  end point with an empty port, and it raises whatever error ZeroMQ has for that.
\<close>

lemma find_free_port_outcome:
  "find_free_port bind unbind draw s max_tries [] =
    (case first_free bind draw ''tcp'' ''127.0.0.1'' max_tries of
       Some i \<Rightarrow>
         let end_point = get_end_point ''tcp'' ''127.0.0.1'' (int_to_string (draw i))
         in (case unbind end_point of
               None \<Rightarrow> (Inr (int_to_string (draw i)), [(s, Bind end_point), (s, Unbind end_point)])
             | Some e \<Rightarrow> (Inl (Throws (Zmq_error e)), [(s, Bind end_point)]))
     | None \<Rightarrow>
         (case unbind ''tcp://127.0.0.1:'' of
            None \<Rightarrow> (Inr [], [(s, Unbind ''tcp://127.0.0.1:'')])
          | Some e \<Rightarrow> (Inl (Throws (Zmq_error e)), [])))"
  by (auto simp: find_free_port_def seq_def find_free_port_impl_eq sock_call_def prog_simps Let_def
      port_end_point_def get_end_point_def split: option.split)

text \<open>
  A socket that is to be bound to any port is not bound at all when a hundred draws fail:
  initialising it reports nothing, and its port then reads as the empty string.
\<close>

lemma init_socket_may_stay_unbound:
  assumes "\<And>i. i < 100 \<Longrightarrow> bind (get_end_point transport ip (int_to_string (draw i))) = Some e"
  shows "init_socket bind draw s transport ip [] w = (Inr (), w @ [(s, Set_option (Linger 1000))]) \<and>
    get_socket_port (\<lambda>n. Inr []) = Inr []"
proof
  have "first_free bind draw transport ip 100 = None"
    using assms by (auto simp: first_free_def find_None_iff port_end_point_def)
  then show "init_socket bind draw s transport ip [] w = (Inr (), w @ [(s, Set_option (Linger 1000))])"
    by (simp add: init_socket_def seq_def find_free_port_impl_eq sock_set_def sock_call_def
        get_socket_linger_def prog_simps)
  show "get_socket_port (\<lambda>n. Inr []) = Inr []"
    by (simp add: get_socket_port_def pos_value_def sz_add_def size_max_def substr_from_def)
qed

section \<open>Reading a port back\<close>

text \<open>
  Documented behaviour of the query: the end point with its final zero byte has to fit into the
  room given, else the error is EINVAL (22).
\<close>

definition reports_end_point :: "(nat \<Rightarrow> string res) \<Rightarrow> string \<Rightarrow> bool" where
  "reports_end_point last_endpoint ep \<longleftrightarrow>
     (\<forall>n. last_endpoint n =
        (if length ep < n then Inr ep else Inl (Throws (Zmq_error (Other_errno 22)))))"

text \<open>
  The end point a socket reports: the last one it was bound to, within the room given. It is
  documented that the final zero byte has to fit too, and that the error is EINVAL (22).
\<close>

definition bound_to :: "'s wiring \<Rightarrow> 's \<Rightarrow> string list" where
  "bound_to w s = concat (map (\<lambda>(t, c). case c of Bind e \<Rightarrow> if t = s then [e] else [] | _ \<Rightarrow> []) w)"

definition last_end_point :: "'s wiring \<Rightarrow> 's \<Rightarrow> string" where
  "last_end_point w s = (if bound_to w s = [] then [] else last (bound_to w s))"

definition query_end_point :: "'s wiring \<Rightarrow> 's \<Rightarrow> nat \<Rightarrow> string res" where
  "query_end_point w s n =
     (let ep = last_end_point w s in if length ep < n then Inr ep else Inl (Throws (Zmq_error (Other_errno 22))))"

lemma query_reports: "reports_end_point (query_end_point w s) (last_end_point w s)"
  by (simp add: reports_end_point_def query_end_point_def Let_def)

lemma port_after_last_colon:
  assumes "reports_end_point last_endpoint (a @ CHR '':'' # z)" "CHR '':'' \<notin> set z"
    "length (a @ CHR '':'' # z) < 32"
  shows "get_socket_port last_endpoint = Inr z"
  using assms find_last_char_append [OF assms(2), of a]
  by (simp add: get_socket_port_def reports_end_point_def pos_value_def sz_add_def size_max_def substr_from_def)

text \<open>
  The port read back from a TCP socket is the port it was bound to, for an end point of
  less than 32 characters; for any other transport what is read back is not the port but all
  that follows the transport's colon; and a longer end point is an exception.
\<close>

lemma socket_port_of_end_point:
  assumes "reports_end_point last_endpoint (get_end_point transport ip port)"
    "CHR '':'' \<notin> set port" "transport = ''tcp'' \<or> CHR '':'' \<notin> set ip"
  shows "get_socket_port last_endpoint =
    (if 32 \<le> length (get_end_point transport ip port) then Inl (Throws (Zmq_error (Other_errno 22)))
     else if transport = ''tcp'' then Inr port
     else Inr (''//'' @ ip @ ''-'' @ port))"
proof (cases "32 \<le> length (get_end_point transport ip port)")
  case True
  with assms(1) show ?thesis by (simp add: get_socket_port_def reports_end_point_def)
next
  case False
  show ?thesis
  proof (cases "transport = ''tcp''")
    case True
    then have "get_end_point transport ip port = (''tcp://'' @ ip) @ CHR '':'' # port"
      by (simp add: get_end_point_def)
    with port_after_last_colon [of last_endpoint "''tcp://'' @ ip" port] assms False True show ?thesis
      by simp
  next
    case other: False
    then have "get_end_point transport ip port = transport @ CHR '':'' # ''//'' @ ip @ ''-'' @ port"
      by (simp add: get_end_point_def)
    with port_after_last_colon [of last_endpoint transport "''//'' @ ip @ ''-'' @ port"] assms False other
    show ?thesis by auto
  qed
qed

end
