(* ===== verification/Publisher.thy ===== *)
theory Publisher
  imports Middleware Serializer
begin

text \<open>
  The publisher (\<^verbatim>\<open>src/server/xpublisher.cpp\<close>) and the heartbeat
  (\<^verbatim>\<open>src/server/xheartbeat.cpp\<close>): what their constructors do to their sockets, one turn of
  their polling loops, and their runs. The callback that serialises a welcome message is
  empty or a function of the message, as given to the constructor; \<open>make_header\<close> is xeus'.
\<close>

section \<open>The publisher\<close>

datatype publisher_socket = Pub_publisher | Pub_listener | Pub_controller

definition xpublisher_new :: "bind_result \<Rightarrow> (nat \<Rightarrow> int) \<Rightarrow> xkernel_configuration
    \<Rightarrow> (publisher_socket wiring, unit) prog" where
  "xpublisher_new bind draw config =
     seq (if m_curve_public_key config \<noteq> []
          then set_curve_encryption Pub_publisher (m_curve_public_key config) (m_curve_secret_key config)
          else ret ()) (\<lambda>_.
     seq (init_socket bind draw Pub_publisher (m_transport config) (m_ip config) (m_iopub_port config)) (\<lambda>_.
     seq (sock_set Pub_publisher (Xpub_verbose 1)) (\<lambda>_.
     seq (sock_set Pub_listener (Subscribe [])) (\<lambda>_.
     seq (sock_bind bind Pub_listener get_publisher_end_point) (\<lambda>_.
     seq (sock_set Pub_controller (Linger get_socket_linger)) (\<lambda>_.
     sock_bind bind Pub_controller (get_controller_end_point ''publisher'')))))))"

definition create_xpub_message ::
  "'j json_api \<Rightarrow> (string \<Rightarrow> string \<Rightarrow> string \<Rightarrow> 'j) \<Rightarrow> string \<Rightarrow> 'j xpub_message res" where
  "create_xpub_message J make_header tpc =
     rbind (j_set J (j_null J) ''subscription'' (j_string J tpc)) (\<lambda>content.
       Inr (make_xpub_message [] \<lparr>m_header = make_header ''iopub_welcome'' [] [],
              m_parent_header = j_object J [], m_metadata = j_object J [],
              m_content = content, m_buffers = []\<rparr>))"

text \<open>What follows the receipt of a message on the XPUB socket.\<close>

definition publisher_event ::
  "'j json_api \<Rightarrow> (string \<Rightarrow> string \<Rightarrow> string \<Rightarrow> 'j) \<Rightarrow> ('j xpub_message \<Rightarrow> multipart res) option
    \<Rightarrow> multipart \<Rightarrow> (publisher_socket net, loop_status) prog" where
  "publisher_event J make_header serialize_iopub_msg_cb wire_msg =
     (if length wire_msg \<noteq> 1 \<or> length (hd wire_msg) = 0 then ret Running
      else seq (lift_res (pop wire_msg)) (\<lambda>(event, _).
        if hd event = CHR 0x01
        then (let tpc = tl event
              in case serialize_iopub_msg_cb of
                   Some cb \<Rightarrow>
                     seq (lift_res (create_xpub_message J make_header tpc)) (\<lambda>p_msg.
                     seq (lift_res (cb p_msg)) (\<lambda>iopub_welcome_wire_msg.
                     seq (net_send Pub_publisher iopub_welcome_wire_msg) (\<lambda>_. ret Running)))
                 | None \<Rightarrow> fail (Throws (Runtime_error ''ERROR: IOPUB serialization callback not set'')))
        else ret Running))"

definition publisher_turn ::
  "'j json_api \<Rightarrow> (string \<Rightarrow> string \<Rightarrow> string \<Rightarrow> 'j) \<Rightarrow> ('j xpub_message \<Rightarrow> multipart res) option
    \<Rightarrow> publisher_socket poll_result \<Rightarrow> (publisher_socket net, loop_status) prog" where
  "publisher_turn J make_header serialize_iopub_msg_cb poll =
    (case poll of
      Poll_error e \<Rightarrow> poll_error e
    | Poll_arrivals batch \<Rightarrow>
        seq (modify (arrive batch)) (\<lambda>_.
        seq (gets readable) (\<lambda>revents.
        seq (if revents Pub_listener
             then seq (net_recv Pub_listener) (\<lambda>wire_msg. net_send Pub_publisher wire_msg)
             else ret ()) (\<lambda>_.
        if revents Pub_controller
        then seq (net_recv Pub_controller) (\<lambda>wire_msg.
             seq (net_send Pub_controller wire_msg) (\<lambda>_. ret Stopped))
        else if revents Pub_publisher
        then seq (net_recv Pub_publisher) (publisher_event J make_header serialize_iopub_msg_cb)
        else ret Running))))"

definition publisher_run where
  "publisher_run J make_header cb = run_loop (publisher_turn J make_header cb)"

section \<open>The heartbeat\<close>

datatype heartbeat_socket = Hb_heartbeat | Hb_controller

definition xheartbeat_new :: "bind_result \<Rightarrow> (nat \<Rightarrow> int) \<Rightarrow> xkernel_configuration
    \<Rightarrow> (heartbeat_socket wiring, unit) prog" where
  "xheartbeat_new bind draw config =
     seq (if m_curve_public_key config \<noteq> []
          then set_curve_encryption Hb_heartbeat (m_curve_public_key config) (m_curve_secret_key config)
          else ret ()) (\<lambda>_.
     seq (init_socket bind draw Hb_heartbeat (m_transport config) (m_ip config) (m_hb_port config)) (\<lambda>_.
     init_socket_at bind Hb_controller (get_controller_end_point ''heartbeat'')))"

definition heartbeat_turn ::
  "heartbeat_socket poll_result \<Rightarrow> (heartbeat_socket net, loop_status) prog" where
  "heartbeat_turn poll =
    (case poll of
      Poll_error e \<Rightarrow> poll_error e
    | Poll_arrivals batch \<Rightarrow>
        seq (modify (arrive batch)) (\<lambda>_.
        seq (gets readable) (\<lambda>revents.
        seq (if revents Hb_heartbeat
             then seq (net_recv Hb_heartbeat) (\<lambda>wire_msg. net_send Hb_heartbeat wire_msg)
             else ret ()) (\<lambda>_.
        if revents Hb_controller
        then seq (net_recv Hb_controller) (\<lambda>wire_msg.
             seq (net_send Hb_controller wire_msg) (\<lambda>_. ret Stopped))
        else ret Running))))"

definition heartbeat_run where
  "heartbeat_run = run_loop heartbeat_turn"

section \<open>What the heartbeat answers\<close>

lemma heartbeat_turn_cases:
  assumes "heartbeat_turn e n = (Inr status, n')"
  shows "answers sends (arrivals e) n n' \<and>
    (status = Running \<longrightarrow> inbox n Hb_controller = [] \<longrightarrow>
      on_socket Hb_controller (arrivals e) = [] \<and> inbox n' Hb_controller = []) \<and>
    (status = Stopped \<longrightarrow> e = Poll_error ETERM \<or> (\<exists>r m. received n' = r @ [(Hb_controller, m)]))"
proof (cases e)
  case (Poll_error err)
  with assms show ?thesis by (auto simp: heartbeat_turn_def poll_error_Inr answers_refl)
next
  case (Poll_arrivals batch)
  let ?n = "arrive batch n"
  from assms Poll_arrivals obtain n1 where
    n1: "(if readable ?n Hb_controller
          then seq (net_recv Hb_controller) (\<lambda>m. seq (net_send Hb_controller m) (\<lambda>_. ret Stopped))
          else ret Running) n1 = (Inr status, n')"
      "answers sends [] ?n n1" "\<And>t. t \<noteq> Hb_heartbeat \<Longrightarrow> inbox n1 t = inbox ?n t"
    by (auto simp: heartbeat_turn_def elim: forward_phase)
  show ?thesis
  proof (cases "readable ?n Hb_controller")
    case False
    with n1(1) have n': "status = Running" "n' = n1" by (simp_all add: prog_simps)
    with answers_arrive [OF n1(2)] False n1(3) [of Hb_controller] Poll_arrivals show ?thesis
      by (auto simp: readable_def)
  next
    case True
    with n1(1) have "status = Stopped \<and> answers sends [] n1 n' \<and> (\<exists>r m. received n' = r @ [(Hb_controller, m)])"
      by (simp add: echo_stop_phase)
    moreover from this have "answers sends [] ?n n'" using answers_trans [OF n1(2)] by auto
    ultimately show ?thesis using Poll_arrivals by (simp add: answers_arrive)
  qed
qed

interpretation hb_loop: stoppable_loop heartbeat_turn sends id Hb_controller
  by unfold_locales (use heartbeat_turn_cases in fastforce)+


text \<open>
  The heartbeat thread answers every message by itself: whatever arrives and in whatever
  batches, what it has sent is, in order, an echo on the same socket of each message it has
  read; it reads each socket's messages in their order and each once. It goes on for as long
  as no stop message arrives, and when it stops, and ZeroMQ is not terminating, the stop message
  is the last one it has read, and so the last one it has answered.
\<close>

lemma heartbeat_run_echoes:
  assumes "heartbeat_run es empty_net = (Inr status, n')"
  shows "outbox n' = responses sends (received n') \<and>
    (\<exists>seen. prefix seen es \<and> (status = Running \<longrightarrow> seen = es) \<and>
       (\<forall>s. on_socket s (received n') @ inbox n' s = on_socket s (concat (map arrivals seen)))) \<and>
    (status = Running \<longrightarrow> on_socket Hb_controller (concat (map arrivals es)) = []) \<and>
    (status = Stopped \<longrightarrow> Poll_error ETERM \<in> set es \<or> (\<exists>r m. received n' = r @ [(Hb_controller, m)]))"
  using assms hb_loop.run_answers [of es empty_net status n'] hb_loop.run_not_stopped [of es empty_net n']
    hb_loop.run_stopped [of es empty_net n']
  by (auto simp: heartbeat_run_def answers_def empty_net_def)

section \<open>What the publisher answers\<close>

definition welcome_message ::
  "'j json_api \<Rightarrow> (string \<Rightarrow> string \<Rightarrow> string \<Rightarrow> 'j) \<Rightarrow> ('j xpub_message \<Rightarrow> multipart res) option
    \<Rightarrow> string \<Rightarrow> multipart res" where
  "welcome_message J make_header cb tpc = (case cb of
      None \<Rightarrow> Inl (Throws (Runtime_error ''ERROR: IOPUB serialization callback not set''))
    | Some f \<Rightarrow> rbind (create_xpub_message J make_header tpc) f)"

text \<open>
  The specification: a message of the kernel is forwarded; a stop message is echoed; a
  subscription is answered by a welcome message about its topic, and every other message of
  a subscriber by nothing.
\<close>

fun publisher_respond ::
  "'j json_api \<Rightarrow> (string \<Rightarrow> string \<Rightarrow> string \<Rightarrow> 'j) \<Rightarrow> ('j xpub_message \<Rightarrow> multipart res) option
    \<Rightarrow> publisher_socket \<Rightarrow> multipart \<Rightarrow> (publisher_socket \<times> multipart) list" where
  "publisher_respond J make_header cb Pub_listener m = sends Pub_publisher m"
| "publisher_respond J make_header cb Pub_controller m = sends Pub_controller m"
| "publisher_respond J make_header cb Pub_publisher [c # tpc] =
     (if c = CHR 0x01
      then (case welcome_message J make_header cb tpc of Inr w \<Rightarrow> sends Pub_publisher w | Inl e \<Rightarrow> [])
      else [])"
| "publisher_respond J make_header cb Pub_publisher m = []"

lemma publisher_event_eq:
  "publisher_event J make_header cb m n =
    (case m of
       [c # tpc] \<Rightarrow> if c = CHR 0x01
         then (case welcome_message J make_header cb tpc of
                 Inl e \<Rightarrow> (Inl e, n)
               | Inr w \<Rightarrow> (Inr Running, n\<lparr>outbox := outbox n @ sends Pub_publisher w\<rparr>))
         else (Inr Running, n)
     | _ \<Rightarrow> (Inr Running, n))"
  by (auto simp: publisher_event_def welcome_message_def seq_def prog_simps net_send_sends Let_def
      split: list.split option.split sum.split)

lemma publisher_event_answers:
  assumes "net_recv Pub_publisher n = (Inr m, n1)" "publisher_event J make_header cb m n1 = (Inr status, n')"
  shows "status = Running \<and> answers (publisher_respond J make_header cb) [] n n' \<and> inbox n' = inbox n1"
proof -
  from assms(2) have "status = Running \<and> inbox n' = inbox n1 \<and> received n' = received n1 \<and>
      outbox n' = outbox n1 @ publisher_respond J make_header cb Pub_publisher m"
    by (auto simp: publisher_event_eq split: list.splits if_splits sum.splits)
  with assms(1) show ?thesis by (auto intro: answers_read)
qed

lemma publisher_turn_cases:
  assumes "publisher_turn J make_header cb e n = (Inr status, n')"
  shows "answers (publisher_respond J make_header cb) (arrivals e) n n' \<and>
    (status = Running \<longrightarrow> inbox n Pub_controller = [] \<longrightarrow>
      on_socket Pub_controller (arrivals e) = [] \<and> inbox n' Pub_controller = []) \<and>
    (status = Stopped \<longrightarrow> e = Poll_error ETERM \<or> (\<exists>r m. received n' = r @ [(Pub_controller, m)]))"
proof (cases e)
  case (Poll_error err)
  with assms show ?thesis by (auto simp: publisher_turn_def poll_error_Inr answers_refl)
next
  case (Poll_arrivals batch)
  let ?n = "arrive batch n" and ?R = "publisher_respond J make_header cb"
  from assms Poll_arrivals obtain n1 where
    n1: "(if readable ?n Pub_controller
          then seq (net_recv Pub_controller) (\<lambda>m. seq (net_send Pub_controller m) (\<lambda>_. ret Stopped))
          else if readable ?n Pub_publisher
          then seq (net_recv Pub_publisher) (publisher_event J make_header cb)
          else ret Running) n1 = (Inr status, n')"
      "answers ?R [] ?n n1" "\<And>t. t \<noteq> Pub_listener \<Longrightarrow> inbox n1 t = inbox ?n t"
    by (auto simp: publisher_turn_def elim: forward_phase [where respond = "publisher_respond J make_header cb"])
  show ?thesis
  proof (cases "readable ?n Pub_controller")
    case True
    with n1(1) have "status = Stopped \<and> answers ?R [] n1 n' \<and> (\<exists>r m. received n' = r @ [(Pub_controller, m)])"
      by (simp add: echo_stop_phase)
    moreover from this have "answers ?R [] ?n n'" using answers_trans [OF n1(2)] by auto
    ultimately show ?thesis using Poll_arrivals by (simp add: answers_arrive)
  next
    case False
    have "status = Running \<and> answers ?R [] n1 n' \<and> inbox n' Pub_controller = inbox n1 Pub_controller"
    proof (cases "readable ?n Pub_publisher")
      case True
      with False n1(1) obtain m n2 where 2: "net_recv Pub_publisher n1 = (Inr m, n2)"
          "publisher_event J make_header cb m n2 = (Inr status, n')"
        by (auto simp: seq_Inr_iff)
      from publisher_event_answers [OF this] 2(1) show ?thesis
        by (auto simp: net_recv_def split: list.splits)
    qed (use False n1(1) in \<open>simp add: prog_simps answers_refl\<close>)
    moreover from this have "answers ?R [] ?n n'" using answers_trans [OF n1(2)] by auto
    ultimately show ?thesis using Poll_arrivals False n1(3) [of Pub_controller]
      by (auto simp: readable_def intro: answers_arrive)
  qed
qed

interpretation pub_loop: stoppable_loop "publisher_turn J make_header cb" "publisher_respond J make_header cb" id
    Pub_controller for J make_header cb
  by unfold_locales (use publisher_turn_cases in fastforce)+

text \<open>
  C5. The same for the publisher thread, with its specification: in the order of reading it
  forwards every message of the kernel to the subscribers, welcomes every subscription, and
  echoes the stop message, after which it reads nothing; anything else a subscriber sends is
  read and ignored.
\<close>

theorem publisher_run_answers:
  assumes "publisher_run J make_header cb es empty_net = (Inr status, n')"
  shows "outbox n' = responses (publisher_respond J make_header cb) (received n') \<and>
    (\<exists>seen. prefix seen es \<and> (status = Running \<longrightarrow> seen = es) \<and>
       (\<forall>s. on_socket s (received n') @ inbox n' s = on_socket s (concat (map arrivals seen)))) \<and>
    (status = Running \<longrightarrow> on_socket Pub_controller (concat (map arrivals es)) = []) \<and>
    (status = Stopped \<longrightarrow> Poll_error ETERM \<in> set es \<or> (\<exists>r m. received n' = r @ [(Pub_controller, m)]))"
  using assms pub_loop.run_answers [of J make_header cb es empty_net status n']
    pub_loop.run_not_stopped [of J make_header cb es empty_net n']
    pub_loop.run_stopped [of J make_header cb es empty_net n']
  by (auto simp: publisher_run_def answers_def empty_net_def)

theorem publisher_run_answers_witness:
  "\<exists>n'. publisher_run sample_json (\<lambda>a b c. JStr a) (Some (\<lambda>m. Inr [''welcome'', topic m]))
       [Poll_arrivals [(Pub_publisher, [CHR 0x01 # ''t'']), (Pub_listener, [''a''])],
        Poll_arrivals [(Pub_publisher, [[]])], Poll_arrivals [(Pub_controller, [[]]), (Pub_listener, [''b''])]]
       empty_net = (Inr Stopped, n') \<and>
     outbox n' = responses (publisher_respond sample_json (\<lambda>a b c. JStr a) (Some (\<lambda>m. Inr [''welcome'', topic m])))
       (received n') \<and>
     outbox n' = [(Pub_publisher, [''a'']), (Pub_publisher, [''welcome'', []]), (Pub_publisher, [''b'']),
       (Pub_controller, [[]])]"
  (is "\<exists>n'. ?run = _ \<and> _")
proof -
  have "fst ?run = Inr Stopped"
    and out: "outbox (snd ?run) = [(Pub_publisher, [''a'']), (Pub_publisher, [''welcome'', []]),
      (Pub_publisher, [''b'']), (Pub_controller, [[]])]"
    by (simp_all add: publisher_run_def publisher_turn_def publisher_event_eq welcome_message_def
        create_xpub_message_def make_xpub_message_def sample_json_def seq_def prog_simps
        net_recv_def net_send_def sends_def readable_def empty_net_def arrive_def)
  then have run: "?run = (Inr Stopped, snd ?run)" by (metis prod.collapse)
  from publisher_run_answers [OF run] run out show ?thesis by metis
qed

lemma publisher_turn_ok:
  assumes cb: "\<And>tpc. \<exists>w. welcome_message J make_header cb tpc = Inr w"
    and e: "\<And>err. e = Poll_error err \<Longrightarrow> err = EINTR \<or> err = ETERM"
  shows "\<exists>status n'. publisher_turn J make_header cb e n = (Inr status, n')"
proof (cases e)
  case (Poll_error err)
  with e show ?thesis by (auto simp: publisher_turn_def poll_error_def prog_simps)
next
  case (Poll_arrivals batch)
  let ?n = "arrive batch n"
  from forward_phase_ok [of ?n Pub_listener Pub_publisher] obtain n1 where
      phase: "\<And>f :: unit \<Rightarrow> (publisher_socket net, loop_status) prog.
        seq (if readable ?n Pub_listener then seq (net_recv Pub_listener) (\<lambda>m. net_send Pub_publisher m)
             else ret ()) f ?n = f () n1"
      and n1: "\<And>t. t \<noteq> Pub_listener \<Longrightarrow> inbox n1 t = inbox ?n t"
    by blast
  have turn: "publisher_turn J make_header cb e n =
      (if readable ?n Pub_controller
          then seq (net_recv Pub_controller) (\<lambda>m. seq (net_send Pub_controller m) (\<lambda>_. ret Stopped))
          else if readable ?n Pub_publisher
          then seq (net_recv Pub_publisher) (publisher_event J make_header cb)
          else ret Running) n1"
    by (simp add: publisher_turn_def Poll_arrivals phase)
  have ev: "\<exists>status n'. publisher_event J make_header cb m n2 = (Inr status, n')" for m n2
    using cb by (auto simp: publisher_event_eq split: list.split sum.split) (metis sum.distinct(1))
  show ?thesis
    unfolding turn using ev n1 [of Pub_controller] n1 [of Pub_publisher]
    by (auto simp: readable_def seq_def net_recv_def net_send_sends prog_simps split: list.split)
qed

text \<open>
  No message a subscriber or anyone else sends makes the publisher thread fail: with a
  callback, and if building and serialising a welcome message do not fail, every run whose polls
  report at worst an interruption or the termination of ZeroMQ ends without an exception and
  without undefined behaviour, or goes on.
\<close>

lemma publisher_never_fails:
  assumes "\<And>tpc. \<exists>c. j_set J (j_null J) ''subscription'' (j_string J tpc) = Inr c"
    and "\<And>msg. \<exists>w. f msg = Inr w"
    and "\<And>err. Poll_error err \<in> set es \<Longrightarrow> err = EINTR \<or> err = ETERM"
  shows "\<exists>status n'. publisher_run J make_header (Some f) es n = (Inr status, n')"
proof -
  have "\<exists>w. welcome_message J make_header (Some f) tpc = Inr w" for tpc
    using assms(1) [of tpc] assms(2) by (auto simp: welcome_message_def create_xpub_message_def)
  then have turn: "\<exists>status n'. publisher_turn J make_header (Some f) e n = (Inr status, n')"
    if "e \<in> set es" for e n
    using that assms(3) by (intro publisher_turn_ok) auto
  then show ?thesis
    unfolding publisher_run_def
  proof (induction es arbitrary: n)
    case (Cons e es)
    obtain s1 n1 where "publisher_turn J make_header (Some f) e n = (Inr s1, n1)"
      using Cons.prems by (metis list.set_intros(1))
    moreover have "\<exists>status n'. run_loop (publisher_turn J make_header (Some f)) es n1 = (Inr status, n')"
      using Cons.IH Cons.prems by (meson list.set_intros(2))
    ultimately show ?case by (simp add: seq_def prog_simps)
  qed (simp add: prog_simps)
qed

text \<open>
  The turn in which the publisher finds the stop message: of the kernel's messages that wait it
  forwards the oldest, and the others stay unread.
\<close>

lemma publisher_stops_after_one:
  assumes "inbox n Pub_listener @ on_socket Pub_listener batch = m # ms" "m \<noteq> []"
    "inbox n Pub_controller @ on_socket Pub_controller batch = c # cs" "c \<noteq> []"
  shows "\<exists>n'. publisher_run J make_header cb (Poll_arrivals batch # es) n = (Inr Stopped, n') \<and>
    outbox n' = outbox n @ [(Pub_publisher, m), (Pub_controller, c)] \<and> inbox n' Pub_listener = ms"
proof -
  have "inbox (arrive batch n) Pub_listener = m # ms" "inbox (arrive batch n) Pub_controller = c # cs"
    using assms by simp_all
  then show ?thesis
    using assms(2,4) by (simp add: publisher_run_def publisher_turn_def seq_def prog_simps net_recv_def net_send_def
        readable_def del: arrive_selects(1))
qed

end
