(* ===== verification/Messengers.thy ===== *)
theory Messengers
  imports Middleware Json_Api
begin

text \<open>
  The messengers through which one thread of a process controls the others:
  \<^verbatim>\<open>src/server/xzmq_messenger.cpp\<close>, \<^verbatim>\<open>src/server/xtrivial_messenger.cpp\<close>,
  \<^verbatim>\<open>src/client/xclient_messenger.cpp\<close>, and the same exchange in
  \<^verbatim>\<open>xserver_zmq_impl::stop_channels\<close>. Each request waits for its reply; what has arrived
  when the reply is waited for is a parameter. Sending a \<^verbatim>\<open>message_t\<close> leaves it empty.
\<close>

section \<open>A request and its reply\<close>

text \<open>\<^verbatim>\<open>send\<close> of a message object, which is empty afterwards, and \<^verbatim>\<open>recv\<close> of the reply.\<close>

definition stop_exchange :: "'s \<Rightarrow> frame \<Rightarrow> ('s \<times> multipart) list \<Rightarrow> ('s net, frame) prog" where
  "stop_exchange s stop_msg replies =
     seq (net_send s [stop_msg]) (\<lambda>_.
     seq (modify (arrive replies)) (\<lambda>_.
     seq (net_recv_frame s) (\<lambda>response. ret [])))"

section \<open>The messenger of the split servers\<close>

datatype messenger_socket = Ms_shell_controller | Ms_publisher_controller | Ms_heartbeat_controller

definition messenger_connect :: "(messenger_socket wiring, unit) prog" where
  "messenger_connect =
     seq (sock_set Ms_shell_controller (Linger get_socket_linger)) (\<lambda>_.
     seq (sock_connect Ms_shell_controller (get_controller_end_point ''shell'')) (\<lambda>_.
     seq (sock_set Ms_publisher_controller (Linger get_socket_linger)) (\<lambda>_.
     seq (sock_connect Ms_publisher_controller (get_controller_end_point ''publisher'')) (\<lambda>_.
     seq (sock_set Ms_heartbeat_controller (Linger get_socket_linger)) (\<lambda>_.
     sock_connect Ms_heartbeat_controller (get_controller_end_point ''heartbeat''))))))"

definition messenger_stop_channels ::
  "(nat \<Rightarrow> (messenger_socket \<times> multipart) list) \<Rightarrow> (messenger_socket net, unit) prog" where
  "messenger_stop_channels replies =
     seq (stop_exchange Ms_shell_controller ''stop'' (replies 0)) (\<lambda>stop_msg.
     seq (stop_exchange Ms_publisher_controller stop_msg (replies 1)) (\<lambda>stop_msg.
     seq (stop_exchange Ms_heartbeat_controller stop_msg (replies 2)) (\<lambda>_. ret ())))"

definition send_to_shell_impl :: "'j json_api \<Rightarrow> 'j \<Rightarrow> (messenger_socket \<times> multipart) list
    \<Rightarrow> (messenger_socket net, 'j) prog" where
  "send_to_shell_impl J message replies =
     seq (lift_res (j_dump J strict message)) (\<lambda>wire_msg.
     seq (net_send Ms_shell_controller [wire_msg]) (\<lambda>_.
     seq (modify (arrive replies)) (\<lambda>_.
     seq (net_recv Ms_shell_controller) (\<lambda>wire_reply.
     lift_res (case wire_reply of [] \<Rightarrow> Inl Undefined | f # fs \<Rightarrow> j_parse J f)))))"

section \<open>The messenger of the single-threaded server\<close>

definition trivial_send_to_shell_impl :: "('j \<Rightarrow> ('st, 'j) prog) \<Rightarrow> 'j \<Rightarrow> ('st, 'j) prog" where
  "trivial_send_to_shell_impl listener message = listener message"

section \<open>The messenger of the client\<close>

datatype client_messenger_socket = Cm_iopub_controller | Cm_heartbeat_controller

definition client_messenger_connect :: "(client_messenger_socket wiring, unit) prog" where
  "client_messenger_connect =
     seq (sock_set Cm_iopub_controller (Linger get_socket_linger)) (\<lambda>_.
     seq (sock_connect Cm_iopub_controller (get_controller_end_point ''iopub'')) (\<lambda>_.
     seq (sock_set Cm_heartbeat_controller (Linger get_socket_linger)) (\<lambda>_.
     sock_connect Cm_heartbeat_controller (get_controller_end_point ''heartbeat''))))"

definition client_messenger_stop_channels ::
  "(nat \<Rightarrow> (client_messenger_socket \<times> multipart) list) \<Rightarrow> (client_messenger_socket net, unit) prog" where
  "client_messenger_stop_channels replies =
     seq (stop_exchange Cm_iopub_controller ''stop'' (replies 0)) (\<lambda>stop_msg.
     seq (stop_exchange Cm_heartbeat_controller stop_msg (replies 1)) (\<lambda>_. ret ()))"

section \<open>Stopping the channels\<close>

lemma stop_exchange_replied:
  assumes "inbox n s @ on_socket s replies = [f] # ms"
  shows "stop_exchange s m replies n = (Inr [], (arrive replies n)
    \<lparr>inbox := (inbox (arrive replies n))(s := ms), received := received n @ [(s, [f])],
     outbox := outbox n @ [(s, [m])]\<rparr>)"
  using assms by (simp add: stop_exchange_def seq_def net_send_def net_recv_frame_def prog_simps arrive_def)

lemma stop_exchange_waits:
  assumes "inbox n s @ on_socket s replies = []"
  shows "stop_exchange s m replies n = (Inl Blocks, (arrive replies n)\<lparr>outbox := outbox n @ [(s, [m])]\<rparr>)"
  using assms by (simp add: stop_exchange_def seq_def net_send_def net_recv_frame_def prog_simps arrive_def)

text \<open>The replies of a run in which channel \<open>k\<close> answers \<open>r k\<close>, or never.\<close>

definition reply_of :: "(nat \<Rightarrow> 's) \<Rightarrow> (nat \<Rightarrow> frame option) \<Rightarrow> nat \<Rightarrow> ('s \<times> multipart) list" where
  "reply_of sock r k = (case r k of None \<Rightarrow> [] | Some f \<Rightarrow> [(sock k, [f])])"

fun messenger_channel :: "nat \<Rightarrow> messenger_socket" where
  "messenger_channel 0 = Ms_shell_controller"
| "messenger_channel (Suc 0) = Ms_publisher_controller"
| "messenger_channel (Suc (Suc n)) = Ms_heartbeat_controller"

lemma stop_exchange_reply_of:
  assumes "inbox n (sock k) = []"
  shows "\<exists>n'. stop_exchange (sock k) m (reply_of sock r k) n
      = ((if r k = None then Inl Blocks else Inr []), n') \<and>
    outbox n' = outbox n @ [(sock k, [m])] \<and> (\<forall>s. s \<noteq> sock k \<longrightarrow> inbox n' s = inbox n s)"
proof (cases "r k")
  case None
  then show ?thesis
    using stop_exchange_waits [of n "sock k" "reply_of sock r k" m] assms by (simp add: reply_of_def)
next
  case (Some f)
  then show ?thesis
    using stop_exchange_replied [of n "sock k" "reply_of sock r k" f "[]" m] assms by (simp add: reply_of_def)
qed

text \<open>
  The split servers stop their channels one after the other, the shell first, then the
  publisher and the heartbeat: a channel is asked to stop only after the one before it has
  answered, the call returns exactly when all three have answered, and it waits for ever
  when one does not. Only the shell's request carries the text \<^verbatim>\<open>stop\<close>; the message object is
  empty when it is sent again.
\<close>

lemma messenger_stop_order:
  "let (result, n) = messenger_stop_channels (reply_of messenger_channel r) empty_net
   in result = (if r 0 = None \<or> r 1 = None \<or> r 2 = None then Inl Blocks else Inr ()) \<and>
      outbox n = take (if r 0 = None then 1 else if r 1 = None then 2 else 3)
        [(Ms_shell_controller, [''stop'']), (Ms_publisher_controller, [[]]), (Ms_heartbeat_controller, [[]])]"
proof -
  note ex = stop_exchange_reply_of [where sock = messenger_channel and r = r]
  obtain n0 where 0: "stop_exchange Ms_shell_controller ''stop'' (reply_of messenger_channel r 0) empty_net
      = ((if r 0 = None then Inl Blocks else Inr []), n0)"
    "outbox n0 = [(Ms_shell_controller, [''stop''])]" "\<forall>s. s \<noteq> Ms_shell_controller \<longrightarrow> inbox n0 s = []"
    using ex [of empty_net 0 "''stop''"] by (auto simp: empty_net_def)
  obtain n1 where 1: "stop_exchange Ms_publisher_controller [] (reply_of messenger_channel r 1) n0
      = ((if r 1 = None then Inl Blocks else Inr []), n1)"
    "outbox n1 = outbox n0 @ [(Ms_publisher_controller, [[]])]"
    "\<forall>s. s \<noteq> Ms_publisher_controller \<longrightarrow> inbox n1 s = inbox n0 s"
    using ex [of n0 1 "[]"] 0(3) by auto
  obtain n2 where 2: "stop_exchange Ms_heartbeat_controller [] (reply_of messenger_channel r 2) n1
      = ((if r 2 = None then Inl Blocks else Inr []), n2)"
    "outbox n2 = outbox n1 @ [(Ms_heartbeat_controller, [[]])]"
    using ex [of n1 2 "[]"] 0(3) 1(3) by (auto simp: numeral_2_eq_2)
  show ?thesis
    using 0(1,2) 1(1,2) 2 by (auto simp: messenger_stop_channels_def seq_def prog_simps)
qed

end
