(* ===== verification/Server_Default.thy ===== *)
theory Server_Default
  imports Messengers Publisher
begin

text \<open>
  The server whose main thread serves both the shell and the control channel:
  \<^verbatim>\<open>src/server/xserver_zmq_impl.cpp\<close> and the class above it,
  \<^verbatim>\<open>src/server/xserver_zmq_default.cpp\<close>. The listeners the kernel registers (shell, control,
  stdin, internal) are parameters: code that runs on the server's state and may call any of its
  operations.
\<close>

section \<open>State\<close>

datatype channel = SHELL | CONTROL

datatype server_socket = Sv_shell | Sv_controller | Sv_stdin | Sv_publisher_pub
  | Sv_publisher_controller | Sv_heartbeat_controller

text \<open>
  The members that change: the sockets and the stop flag. \<open>notified\<close> records the messages
  handed to the kernel's listeners.
\<close>

record 'j server =
  sv_net :: "server_socket net"
  m_request_stop :: bool
  notified :: "(channel \<times> 'j xmessage) list"

text \<open>What a server is built with, for a state \<open>'st\<close> the listeners work on.\<close>

record ('j, 'st) server_env =
  env_json :: "'j json_api"
  p_auth :: xauthentication
  m_error_handler :: error_handler
  shell_listener :: "'j xmessage \<Rightarrow> ('st, unit) prog"
  control_listener :: "'j xmessage \<Rightarrow> ('st, unit) prog"
  stdin_listener :: "'j xmessage \<Rightarrow> ('st, unit) prog"
  internal_listener :: "'j \<Rightarrow> ('st, 'j) prog"

type_synonym 'j default_env = "('j, 'j server) server_env"

definition on_net :: "(server_socket net, 'a) prog \<Rightarrow> ('j server, 'a) prog" where
  "on_net = zoom sv_net (\<lambda>n st. st\<lparr>sv_net := n\<rparr>)"

section \<open>Construction\<close>

definition xserver_zmq_impl_new :: "bind_result \<Rightarrow> (server_socket \<Rightarrow> nat \<Rightarrow> int)
    \<Rightarrow> xkernel_configuration \<Rightarrow> (server_socket wiring, unit) prog" where
  "xserver_zmq_impl_new bind draw config =
     seq (if m_curve_public_key config \<noteq> []
          then (let public_key = m_curve_public_key config; secret_key = m_curve_secret_key config
                in seq (set_curve_encryption Sv_shell public_key secret_key) (\<lambda>_.
                   seq (set_curve_encryption Sv_controller public_key secret_key) (\<lambda>_.
                   set_curve_encryption Sv_stdin public_key secret_key)))
          else ret ()) (\<lambda>_.
     seq (init_socket bind (draw Sv_shell) Sv_shell (m_transport config) (m_ip config) (m_shell_port config)) (\<lambda>_.
     seq (init_socket bind (draw Sv_controller) Sv_controller (m_transport config) (m_ip config) (m_control_port config)) (\<lambda>_.
     seq (init_socket bind (draw Sv_stdin) Sv_stdin (m_transport config) (m_ip config) (m_stdin_port config)) (\<lambda>_.
     seq (sock_set Sv_publisher_pub (Linger get_socket_linger)) (\<lambda>_.
     seq (sock_connect Sv_publisher_pub get_publisher_end_point) (\<lambda>_.
     seq (sock_set Sv_publisher_controller (Linger get_socket_linger)) (\<lambda>_.
     seq (sock_connect Sv_publisher_controller (get_controller_end_point ''publisher'')) (\<lambda>_.
     seq (sock_set Sv_heartbeat_controller (Linger get_socket_linger)) (\<lambda>_.
     sock_connect Sv_heartbeat_controller (get_controller_end_point ''heartbeat''))))))))))"

text \<open>
  \<^verbatim>\<open>update_config\<close>: the ports the sockets were bound to; \<open>ends s\<close> answers the query of a
  socket's last end point.
\<close>

definition update_config :: "(server_socket \<Rightarrow> nat \<Rightarrow> string res) \<Rightarrow> (nat \<Rightarrow> string res)
    \<Rightarrow> (nat \<Rightarrow> string res) \<Rightarrow> xkernel_configuration \<Rightarrow> xkernel_configuration res" where
  "update_config ends publisher_end heartbeat_end config =
     rbind (get_socket_port (ends Sv_controller)) (\<lambda>control_port.
     rbind (get_socket_port (ends Sv_shell)) (\<lambda>shell_port.
     rbind (get_socket_port (ends Sv_stdin)) (\<lambda>stdin_port.
     rbind (get_socket_port publisher_end) (\<lambda>iopub_port.
     rbind (get_socket_port heartbeat_end) (\<lambda>hb_port.
       Inr (config\<lparr>m_control_port := control_port, m_shell_port := shell_port,
         m_stdin_port := stdin_port, m_iopub_port := iopub_port, m_hb_port := hb_port\<rparr>))))))"

section \<open>Operations\<close>

definition stop_channels :: "(nat \<Rightarrow> (server_socket \<times> multipart) list) \<Rightarrow> ('j server, unit) prog" where
  "stop_channels replies = on_net (
     seq (stop_exchange Sv_publisher_controller ''stop'' (replies 0)) (\<lambda>stop_msg.
     seq (stop_exchange Sv_heartbeat_controller stop_msg (replies 1)) (\<lambda>_. ret ())))"

definition set_request_stop :: "bool \<Rightarrow> ('j server, unit) prog" where
  "set_request_stop stop = modify (\<lambda>st. st\<lparr>m_request_stop := stop\<rparr>)"

definition poll_channels :: "'j default_env \<Rightarrow> server_socket poll_result
    \<Rightarrow> ('j server, ('j xmessage \<times> channel) option) prog" where
  "poll_channels env poll =
     try_catch
       (case poll of
          Poll_error e \<Rightarrow> fail (Throws (Zmq_error e))
        | Poll_arrivals batch \<Rightarrow>
            seq (on_net (modify (arrive batch))) (\<lambda>_.
            seq (gets (\<lambda>st. readable (sv_net st))) (\<lambda>revents.
            seq (gets m_request_stop) (\<lambda>request_stop.
            if revents Sv_controller
            then seq (on_net (net_recv Sv_controller)) (\<lambda>wire_msg.
                 seq (lift_res (deserialize (env_json env) wire_msg (p_auth env))) (\<lambda>msg.
                 ret (Some (msg, CONTROL))))
            else if \<not> request_stop \<and> revents Sv_shell
            then seq (on_net (net_recv Sv_shell)) (\<lambda>wire_msg.
                 seq (lift_res (deserialize (env_json env) wire_msg (p_auth env))) (\<lambda>msg.
                 ret (Some (msg, SHELL))))
            else ret None))))
       (\<lambda>exc. case exc of
          Zmq_error e \<Rightarrow> if e \<noteq> EINTR \<and> e \<noteq> ETERM then fail (Throws exc) else ret None
        | _ \<Rightarrow> fail (Throws exc))"

definition send_on :: "server_socket \<Rightarrow> 'j default_env \<Rightarrow> 'j xmessage \<Rightarrow> ('j server, unit) prog" where
  "send_on s env message =
     seq (lift_res (serialize (env_json env) message (p_auth env) (m_error_handler env))) (\<lambda>wire_msg.
     on_net (net_send s wire_msg))"

definition send_shell :: "'j default_env \<Rightarrow> 'j xmessage \<Rightarrow> ('j server, unit) prog" where
  "send_shell env message = send_on Sv_shell env message"

definition send_control :: "'j default_env \<Rightarrow> 'j xmessage \<Rightarrow> ('j server, unit) prog" where
  "send_control env message = send_on Sv_controller env message"

text \<open>\<open>reply\<close> is what has arrived when the reply to an input request is waited for.\<close>

definition send_stdin :: "'j default_env \<Rightarrow> 'j xmessage \<Rightarrow> (server_socket \<times> multipart) list
    \<Rightarrow> ('j server, 'j xmessage option) prog" where
  "send_stdin env message reply =
     seq (send_on Sv_stdin env message) (\<lambda>_.
     seq (on_net (modify (arrive reply))) (\<lambda>_.
     seq (on_net (net_recv Sv_stdin)) (\<lambda>wire_reply.
     try_catch
       (seq (lift_res (deserialize (env_json env) wire_reply (p_auth env))) (\<lambda>msg. ret (Some msg)))
       (\<lambda>e. ret None))))"

definition send_stdin_impl :: "'j default_env \<Rightarrow> 'j xmessage \<Rightarrow> (server_socket \<times> multipart) list
    \<Rightarrow> ('j server, unit) prog" where
  "send_stdin_impl env msg reply =
     seq (send_stdin env msg reply) (\<lambda>rep. case rep of
       Some m \<Rightarrow> stdin_listener env m
     | None \<Rightarrow> ret ())"

definition publish :: "'j default_env \<Rightarrow> 'j xpub_message \<Rightarrow> channel \<Rightarrow> ('j server, unit) prog" where
  "publish env message c =
     seq (lift_res (serialize_iopub (env_json env) message (p_auth env) (m_error_handler env))) (\<lambda>wire_msg.
     on_net (net_send Sv_publisher_pub wire_msg))"

text \<open>A request to the shell is served by the kernel's internal listener, in the same thread.\<close>

definition control_messenger :: "'j default_env \<Rightarrow> 'j \<Rightarrow> ('j server, 'j) prog" where
  "control_messenger env message = trivial_send_to_shell_impl (internal_listener env) message"

text \<open>
  The loop of \<^verbatim>\<open>abort_queue\<close>, with fuel: \<open>False\<close> is the answer when it runs out. Messages
  are read without waiting until there is none.
\<close>

fun abort_queue :: "nat \<Rightarrow> 'j default_env \<Rightarrow> ('j xmessage \<Rightarrow> ('j server, unit) prog) \<Rightarrow> ('j server, bool) prog" where
  "abort_queue 0 env l = ret False"
| "abort_queue (Suc fuel) env l =
     seq (on_net (net_recv_noblock Sv_shell)) (\<lambda>received_msg. case received_msg of
       None \<Rightarrow> ret True
     | Some wire_msg \<Rightarrow>
         seq (try_catch (seq (lift_res (deserialize (env_json env) wire_msg (p_auth env))) l) (\<lambda>e. ret ()))
           (\<lambda>_. abort_queue fuel env l))"

definition server_serialize_iopub :: "'j default_env \<Rightarrow> 'j xpub_message \<Rightarrow> multipart res" where
  "server_serialize_iopub env msg = serialize_iopub (env_json env) msg (p_auth env) (m_error_handler env)"

section \<open>The main loop\<close>

definition notify :: "'j default_env \<Rightarrow> channel \<Rightarrow> 'j xmessage \<Rightarrow> ('j server, unit) prog" where
  "notify env c msg =
     seq (modify (\<lambda>st. st\<lparr>notified := notified st @ [(c, msg)]\<rparr>)) (\<lambda>_.
     case c of SHELL \<Rightarrow> shell_listener env msg | CONTROL \<Rightarrow> control_listener env msg)"

text \<open>The protected methods of \<^verbatim>\<open>xserver_zmq\<close> on which the classes above it build their loops.\<close>

record ('j, 'st) xserver_zmq_api =
  za_stop_channels :: "(nat \<Rightarrow> (server_socket \<times> multipart) list) \<Rightarrow> ('st, unit) prog"
  za_set_request_stop :: "bool \<Rightarrow> ('st, unit) prog"
  za_is_stopped :: "('st, bool) prog"
  za_poll_channels :: "server_socket poll_result \<Rightarrow> ('st, ('j xmessage \<times> channel) option) prog"
  za_send_shell_message :: "'j xmessage \<Rightarrow> ('st, unit) prog"
  za_send_control_message :: "'j xmessage \<Rightarrow> ('st, unit) prog"

definition zmq_api :: "'j default_env \<Rightarrow> ('j, 'j server) xserver_zmq_api" where
  "zmq_api env = \<lparr>
     za_stop_channels = stop_channels,
     za_set_request_stop = set_request_stop,
     za_is_stopped = gets m_request_stop,
     za_poll_channels = poll_channels env,
     za_send_shell_message = send_shell env,
     za_send_control_message = send_control env\<rparr>"

definition default_server_turn :: "('j, 'st) xserver_zmq_api \<Rightarrow> (channel \<Rightarrow> 'j xmessage \<Rightarrow> ('st, unit) prog)
    \<Rightarrow> server_socket poll_result \<Rightarrow> ('st, loop_status) prog" where
  "default_server_turn base notify_listener poll =
     seq (za_poll_channels base poll) (\<lambda>msg.
     seq (case msg of
            Some (m, c) \<Rightarrow> if c = SHELL then notify_listener SHELL m else notify_listener CONTROL m
          | None \<Rightarrow> ret ()) (\<lambda>_.
     seq (za_is_stopped base) (\<lambda>stopped. ret (if stopped then Stopped else Running))))"

definition server_turn :: "'j default_env \<Rightarrow> server_socket poll_result \<Rightarrow> ('j server, loop_status) prog" where
  "server_turn env = default_server_turn (zmq_api env) (notify env)"

definition start_impl :: "'j default_env \<Rightarrow> 'j xpub_message \<Rightarrow> server_socket poll_result list
    \<Rightarrow> (nat \<Rightarrow> (server_socket \<times> multipart) list) \<Rightarrow> ('j server, loop_status) prog" where
  "start_impl env msg polls replies =
     seq (publish env msg SHELL) (\<lambda>_.
     seq (za_is_stopped (zmq_api env)) (\<lambda>stopped.
     seq (if stopped then ret Stopped else run_loop (server_turn env) polls) (\<lambda>status.
     if status = Stopped then seq (za_stop_channels (zmq_api env) replies) (\<lambda>_. ret Stopped)
     else ret Running)))"

lemma zmq_methods:
  "za_stop_channels (zmq_api env) = stop_channels" "za_is_stopped (zmq_api env) = gets m_request_stop"
  "za_poll_channels (zmq_api env) = poll_channels env"
  by (simp_all add: zmq_api_def)

lemma server_turn_resolved:
  "server_turn env poll =
     seq (poll_channels env poll) (\<lambda>msg.
     seq (case msg of
            Some (m, c) \<Rightarrow> if c = SHELL then notify env SHELL m else notify env CONTROL m
          | None \<Rightarrow> ret ()) (\<lambda>_.
     seq (gets m_request_stop) (\<lambda>stopped. ret (if stopped then Stopped else Running))))"
  unfolding server_turn_def default_server_turn_def zmq_methods by (rule refl)

lemma start_impl_resolved:
  "start_impl env msg polls replies =
     seq (publish env msg SHELL) (\<lambda>_.
     seq (gets m_request_stop) (\<lambda>stopped.
     seq (if stopped then ret Stopped else run_loop (server_turn env) polls) (\<lambda>status.
     if status = Stopped then seq (stop_channels replies) (\<lambda>_. ret Stopped)
     else ret Running)))"
  unfolding start_impl_def zmq_methods by (rule refl)

definition stop_impl :: "('j server, unit) prog" where
  "stop_impl = set_request_stop True"

section \<open>Which message is served\<close>

text \<open>
  The specification of a poll: the message it takes, if any, with the socket it is on; and the
  network after a message has been read from a socket.
\<close>

definition next_message :: "bool \<Rightarrow> server_socket net \<Rightarrow> (server_socket \<times> channel \<times> multipart) option" where
  "next_message request_stop n =
    (case inbox n Sv_controller of
       m # ms \<Rightarrow> Some (Sv_controller, CONTROL, m)
     | [] \<Rightarrow> (case inbox n Sv_shell of
         m # ms \<Rightarrow> if request_stop then None else Some (Sv_shell, SHELL, m)
       | [] \<Rightarrow> None))"

definition read_from :: "'s \<Rightarrow> 's net \<Rightarrow> 's net" where
  "read_from s n = n\<lparr>inbox := (inbox n)(s := tl (inbox n s)), received := received n @ [(s, hd (inbox n s))]\<rparr>"

fun caught_poll_error :: "fault \<Rightarrow> bool" where
  "caught_poll_error (Throws (Zmq_error e)) = (e = EINTR \<or> e = ETERM)"
| "caught_poll_error f = False"

lemma on_net_eval:
  "on_net p st = (fst (p (sv_net st)), st\<lparr>sv_net := snd (p (sv_net st))\<rparr>)"
  by (simp add: on_net_def zoom_def split_def Let_def)

lemma net_recv_eq:
  "net_recv s n = (if inbox n s = [] then (Inl Blocks, n) else (Inr (hd (inbox n s)), read_from s n))"
  by (simp add: net_recv_def read_from_def split: list.split)

lemma next_message_outbox:
  "next_message stop (arrive batch (sv_net (st\<lparr>sv_net := n\<lparr>outbox := out\<rparr>\<rparr>))) = next_message stop (arrive batch n)"
  by (cases "inbox n Sv_controller @ on_socket Sv_controller batch") (simp_all add: next_message_def)

lemma poll_handler_eval:
  "(case exc of Zmq_error e \<Rightarrow> if e \<noteq> EINTR \<and> e \<noteq> ETERM then fail (Throws exc) else ret None
     | _ \<Rightarrow> fail (Throws exc)) st
   = (if caught_poll_error (Throws exc) then (Inr None, st) else (Inl (Throws exc), st))"
  by (auto simp: prog_simps split: exn.split)

lemma poll_channels_eq:
  "poll_channels env (Poll_arrivals batch) st =
    (let n = arrive batch (sv_net st)
     in case next_message (m_request_stop st) n of
          None \<Rightarrow> (Inr None, st\<lparr>sv_net := n\<rparr>)
        | Some (s, c, wire) \<Rightarrow>
            (case deserialize (env_json env) wire (p_auth env) of
               Inr msg \<Rightarrow> (Inr (Some (msg, c)), st\<lparr>sv_net := read_from s n\<rparr>)
             | Inl f \<Rightarrow> (if caught_poll_error f then Inr None else Inl f, st\<lparr>sv_net := read_from s n\<rparr>)))"
proof -
  have catch: "try_catch p (\<lambda>exc. case exc of
          Zmq_error e \<Rightarrow> if e \<noteq> EINTR \<and> e \<noteq> ETERM then fail (Throws exc) else ret None
        | _ \<Rightarrow> fail (Throws exc)) st'
      = (case p st' of (Inl f, st'') \<Rightarrow> (if caught_poll_error f then Inr None else Inl f, st'')
         | (Inr x, st'') \<Rightarrow> (Inr x, st''))" for p :: "('a server, 'b option) prog" and st'
    by (auto simp: try_catch_def poll_handler_eval split: prod.split sum.split fault.split)
  show ?thesis
    by (auto simp: poll_channels_def catch next_message_def seq_def on_net_eval net_recv_eq prog_simps
        readable_def Let_def split: list.split sum.split)
qed

text \<open>
  One poll of the server serves at most one message: the oldest control message when there
  is one, else, unless a stop has been requested, the oldest shell message; everything else
  stays where it is. A message that cannot be deserialised is lost, and the exception, or the
  undefined behaviour, is the outcome of the poll.
\<close>

lemma poll_channels_outcome:
  "poll_channels env (Poll_arrivals batch) st =
    (let n = arrive batch (sv_net st);
         serve = (\<lambda>s c m ms.
           (case deserialize (env_json env) m (p_auth env) of
              Inr msg \<Rightarrow> Inr (Some (msg, c))
            | Inl f \<Rightarrow> if caught_poll_error f then Inr None else Inl f,
            st\<lparr>sv_net := n\<lparr>inbox := (inbox n)(s := ms), received := received n @ [(s, m)]\<rparr>\<rparr>))
     in case (inbox n Sv_controller, inbox n Sv_shell) of
          (m # ms, _) \<Rightarrow> serve Sv_controller CONTROL m ms
        | ([], m # ms) \<Rightarrow> if m_request_stop st then (Inr None, st\<lparr>sv_net := n\<rparr>) else serve Sv_shell SHELL m ms
        | ([], []) \<Rightarrow> (Inr None, st\<lparr>sv_net := n\<rparr>))"
  by (auto simp: poll_channels_eq next_message_def read_from_def Let_def split: list.split sum.split)

section \<open>Runs of the main loop\<close>

text \<open>The network as listeners may leave it: they send, but do not read.\<close>

definition only_sends :: "('j xmessage \<Rightarrow> ('j server, unit) prog) \<Rightarrow> bool" where
  "only_sends l \<longleftrightarrow> (\<forall>msg st. notified (snd (l msg st)) = notified st \<and>
     inbox (sv_net (snd (l msg st))) = inbox (sv_net st) \<and>
     received (sv_net (snd (l msg st))) = received (sv_net st))"

fun channel_socket :: "channel \<Rightarrow> server_socket" where
  "channel_socket SHELL = Sv_shell"
| "channel_socket CONTROL = Sv_controller"

text \<open>
  \<open>serves env arrived st st'\<close>: from \<open>st\<close> to \<open>st'\<close> the server has handed to the listeners,
  in the order of reading, exactly the messages read, deserialised, and lost nothing else.
\<close>

definition serves :: "'j default_env \<Rightarrow> (server_socket \<times> multipart) list \<Rightarrow> 'j server \<Rightarrow> 'j server \<Rightarrow> bool" where
  "serves env arrived st st' \<longleftrightarrow> (\<exists>ms msgs.
     received (sv_net st') = received (sv_net st) @ ms \<and> notified st' = notified st @ msgs \<and>
     list_all2 (\<lambda>(s, wire) (c, msg). s = channel_socket c \<and>
       deserialize (env_json env) wire (p_auth env) = Inr msg) ms msgs \<and>
     (\<forall>s. on_socket s ms @ inbox (sv_net st') s = inbox (sv_net st) s @ on_socket s arrived))"

lemma serves_refl: "serves env [] st st"
  by (auto simp: serves_def)

lemma serves_trans:
  assumes "serves env a st st'" "serves env b st' st''"
  shows "serves env (a @ b) st st''"
proof -
  from assms obtain ms msgs ms' msgs' where
    1: "received (sv_net st') = received (sv_net st) @ ms" "notified st' = notified st @ msgs"
       "list_all2 (\<lambda>(s, wire) (c, msg). s = channel_socket c \<and>
         deserialize (env_json env) wire (p_auth env) = Inr msg) ms msgs"
       "\<And>s. on_socket s ms @ inbox (sv_net st') s = inbox (sv_net st) s @ on_socket s a" and
    2: "received (sv_net st'') = received (sv_net st') @ ms'" "notified st'' = notified st' @ msgs'"
       "list_all2 (\<lambda>(s, wire) (c, msg). s = channel_socket c \<and>
         deserialize (env_json env) wire (p_auth env) = Inr msg) ms' msgs'"
       "\<And>s. on_socket s ms' @ inbox (sv_net st'') s = inbox (sv_net st') s @ on_socket s b"
    unfolding serves_def by blast
  have "on_socket s (ms @ ms') @ inbox (sv_net st'') s = inbox (sv_net st) s @ on_socket s (a @ b)" for s
  proof -
    have "on_socket s (ms @ ms') @ inbox (sv_net st'') s = (on_socket s ms @ inbox (sv_net st') s) @ on_socket s b"
      using 2(4) [of s] by simp
    then show ?thesis unfolding 1(4) by simp
  qed
  with 1(1-3) 2(1-3) show ?thesis
    unfolding serves_def by (intro exI [of _ "ms @ ms'"] exI [of _ "msgs @ msgs'"]) (simp add: list_all2_appendI)
qed

text \<open>Deserialising is not a ZeroMQ call: it raises no ZeroMQ error.\<close>

definition no_zmq_errors :: "'j default_env \<Rightarrow> bool" where
  "no_zmq_errors env \<longleftrightarrow>
     (\<forall>wire f. deserialize (env_json env) wire (p_auth env) = Inl f \<longrightarrow> \<not> caught_poll_error f)"

lemma next_message_read:
  assumes "next_message stop n = Some (s, c, wire)"
  shows "s = channel_socket c \<and> received (read_from s n) = received n @ [(s, wire)] \<and>
    (\<forall>t. on_socket t [(s, wire)] @ inbox (read_from s n) t = inbox n t)"
  using assms by (auto simp: next_message_def read_from_def split: list.splits if_splits)

lemma poll_channels_serves:
  assumes "poll_channels env e st = (Inr r, st')" "no_zmq_errors env"
  shows "case r of
      None \<Rightarrow> notified st' = notified st \<and> serves env (arrivals e) st st'
    | Some (msg, c) \<Rightarrow> notified st' = notified st \<and>
        serves env (arrivals e) st (st'\<lparr>notified := notified st @ [(c, msg)]\<rparr>)"
proof (cases e)
  case (Poll_error err)
  with assms show ?thesis
    by (auto simp: poll_channels_def try_catch_def prog_simps serves_refl split: if_splits)
next
  case (Poll_arrivals batch)
  let ?n = "arrive batch (sv_net st)"
  show ?thesis
  proof (cases "next_message (m_request_stop st) ?n")
    case None
    with assms(1) Poll_arrivals have "r = None" "st' = st\<lparr>sv_net := ?n\<rparr>"
      by (simp_all add: poll_channels_eq Let_def)
    then show ?thesis using Poll_arrivals by (auto simp: serves_def)
  next
    case (Some scw)
    then obtain s c wire where nm: "next_message (m_request_stop st) ?n = Some (s, c, wire)"
      by (cases scw) auto
    with assms Poll_arrivals obtain msg where
      msg: "deserialize (env_json env) wire (p_auth env) = Inr msg" "r = Some (msg, c)"
        "st' = st\<lparr>sv_net := read_from s ?n\<rparr>"
      by (auto simp: poll_channels_eq Let_def no_zmq_errors_def split: sum.splits if_splits)
    from next_message_read [OF nm] msg Poll_arrivals show ?thesis
      by (auto simp: serves_def intro!: exI [of _ "[(s, wire)]"])
  qed
qed

lemma serves_only_net:
  assumes "serves env a st st1" "notified st2 = notified st1" "inbox (sv_net st2) = inbox (sv_net st1)"
    "received (sv_net st2) = received (sv_net st1)"
  shows "serves env a st st2"
  using assms by (simp add: serves_def)

lemma only_sendsD:
  "only_sends l \<Longrightarrow> l msg st = (r, st') \<Longrightarrow> notified st' = notified st \<and>
     inbox (sv_net st') = inbox (sv_net st) \<and> received (sv_net st') = received (sv_net st)"
  unfolding only_sends_def by (metis snd_conv)

lemma notify_keeps:
  assumes "notify env c msg st = (Inr (), st')" "only_sends (shell_listener env)" "only_sends (control_listener env)"
  shows "notified st' = notified st @ [(c, msg)] \<and> inbox (sv_net st') = inbox (sv_net st) \<and>
    received (sv_net st') = received (sv_net st)"
proof (cases c)
  case SHELL
  with assms(1) have "shell_listener env msg (st\<lparr>notified := notified st @ [(c, msg)]\<rparr>) = (Inr (), st')"
    by (simp add: notify_def)
  from only_sendsD [OF assms(2) this] show ?thesis by simp
next
  case CONTROL
  with assms(1) have "control_listener env msg (st\<lparr>notified := notified st @ [(c, msg)]\<rparr>) = (Inr (), st')"
    by (simp add: notify_def)
  from only_sendsD [OF assms(3) this] show ?thesis by simp
qed

lemma server_turn_serves:
  assumes "server_turn env e st = (Inr status, st')"
    "no_zmq_errors env" "only_sends (shell_listener env)" "only_sends (control_listener env)"
  shows "serves env (arrivals e) st st' \<and> (status = Stopped \<longleftrightarrow> m_request_stop st')"
proof -
  from assms(1) obtain r st1 where poll: "poll_channels env e st = (Inr r, st1)"
    and rest: "(case r of Some (m, c) \<Rightarrow> if c = SHELL then notify env SHELL m else notify env CONTROL m
          | None \<Rightarrow> ret ()) st1 = (Inr (), st')"
    and status: "status = Stopped \<longleftrightarrow> m_request_stop st'"
    by (auto simp: server_turn_resolved seq_Inr_iff prog_simps)
  note sv = poll_channels_serves [OF poll assms(2)]
  show ?thesis
  proof (cases r)
    case None
    with sv rest status show ?thesis by (simp add: prog_simps)
  next
    case (Some mc)
    then obtain m c where mc: "r = Some (m, c)" by (cases mc) auto
    with rest have "notify env c m st1 = (Inr (), st')" by (cases c) simp_all
    from notify_keeps [OF this assms(3,4)] sv mc status show ?thesis
      by (auto intro: serves_only_net)
  qed
qed

lemma server_run_serves:
  assumes "run_loop (server_turn env) polls st = (Inr status, st')"
    "no_zmq_errors env" "only_sends (shell_listener env)" "only_sends (control_listener env)"
  shows "\<exists>seen. prefix seen polls \<and> (status = Running \<longrightarrow> seen = polls) \<and>
    (status = Stopped \<longrightarrow> m_request_stop st') \<and> serves env (concat (map arrivals seen)) st st'"
  using assms(1)
proof (induction polls arbitrary: st)
  case Nil
  then show ?case by (auto simp: prog_simps serves_refl)
next
  case (Cons e es)
  then obtain s1 st1 where 1: "server_turn env e st = (Inr s1, st1)"
    and rest: "(if s1 = Running then run_loop (server_turn env) es else ret Stopped) st1 = (Inr status, st')"
    by (auto simp: seq_Inr_iff)
  from server_turn_serves [OF 1 assms(2-4)] have step: "serves env (arrivals e) st st1"
    "s1 = Stopped \<longleftrightarrow> m_request_stop st1" by auto
  show ?case
  proof (cases s1)
    case Stopped
    with rest step show ?thesis by (intro exI [of _ "[e]"]) (auto simp: prog_simps)
  next
    case Running
    with rest have "run_loop (server_turn env) es st1 = (Inr status, st')" by simp
    from Cons.IH [OF this] obtain seen where "prefix seen es" "status = Running \<longrightarrow> seen = es"
      "status = Stopped \<longrightarrow> m_request_stop st'"
      "serves env (concat (map arrivals seen)) st1 st'" by blast
    with serves_trans [OF step(1)] show ?thesis by (intro exI [of _ "e # seen"]) simp
  qed
qed

text \<open>
  C12. The main loop hands to the kernel's listeners exactly the messages it reads, deserialised,
  in the order of reading, each with its channel; each socket is read in the order of arrival and
  nothing is lost; the loop is left exactly when a stop has been requested. This is for
  listeners that send but do not read from the server's sockets.
\<close>

theorem server_run_in_order:
  assumes "run_loop (server_turn env) polls \<lparr>sv_net = empty_net, m_request_stop = False, notified = []\<rparr>
      = (Inr status, st')"
    "no_zmq_errors env" "only_sends (shell_listener env)" "only_sends (control_listener env)"
  shows "list_all2 (\<lambda>(s, wire) (c, msg). s = channel_socket c \<and>
      deserialize (env_json env) wire (p_auth env) = Inr msg) (received (sv_net st')) (notified st') \<and>
    (\<exists>seen. prefix seen polls \<and> (status = Running \<longrightarrow> seen = polls) \<and>
      (\<forall>s. on_socket s (received (sv_net st')) @ inbox (sv_net st') s
           = on_socket s (concat (map arrivals seen)))) \<and>
    (status = Stopped \<longrightarrow> m_request_stop st')"
  using server_run_serves [OF assms] by (auto simp: serves_def empty_net_def)

definition quiet_env :: "jv default_env" where
  "quiet_env = \<lparr>env_json = sample_json, p_auth = no_xauthentication, m_error_handler = strict,
     shell_listener = (\<lambda>msg. ret ()), control_listener = (\<lambda>msg. set_request_stop True),
     stdin_listener = (\<lambda>msg. ret ()), internal_listener = ret\<rparr>"

lemma quiet_env_sends: "only_sends (shell_listener quiet_env)" "only_sends (control_listener quiet_env)"
  by (simp_all add: quiet_env_def only_sends_def prog_simps set_request_stop_def)

lemma quiet_env_no_zmq_errors: "no_zmq_errors quiet_env"
  by (auto simp: no_zmq_errors_def quiet_env_def sample_json_def no_xauthentication_eq
      dest!: deserialize_faults split: option.splits)

theorem server_run_in_order_witness:
  "\<exists>status st'. run_loop (server_turn quiet_env)
      [Poll_arrivals [(Sv_controller, [''id'', DELIMITER, ''s'', ''H'', ''{}'', ''{}'', ''{}''])]]
      \<lparr>sv_net = empty_net, m_request_stop = False, notified = []\<rparr> = (Inr status, st') \<and>
    (status = Stopped \<longrightarrow> m_request_stop st') \<and> length (notified st') = 1"
proof -
  let ?st = "\<lparr>sv_net = empty_net, m_request_stop = False, notified = []\<rparr> :: jv server"
  let ?polls = "[Poll_arrivals [(Sv_controller, [''id'', DELIMITER, ''s'', ''H'', ''{}'', ''{}'', ''{}''])]]"
  have "deserialize sample_json [''id'', DELIMITER, ''s'', ''H'', ''{}'', ''{}'', ''{}''] no_xauthentication
      = Inr (make_xmessage [''id''] \<lparr>m_header = JObj [(''msg_type'', JStr ''status'')], m_parent_header = JObj [],
          m_metadata = JObj [], m_content = JObj [], m_buffers = []\<rparr>)" (is "_ = Inr ?m")
    using deserialize_found [of "[''id'']" "[''s'', ''H'', ''{}'', ''{}'', ''{}'']" sample_json no_xauthentication]
    by (simp add: deserialize_message_base_parts no_xauthentication_eq sample_json_def DELIMITER_def)
  then obtain st' where run: "run_loop (server_turn quiet_env) ?polls ?st = (Inr Stopped, st')"
    and one: "notified st' = [(CONTROL, ?m)]"
    by (simp add: server_turn_resolved poll_channels_eq next_message_def quiet_env_def empty_net_def arrive_def
        notify_def set_request_stop_def seq_def prog_simps Let_def)
  from server_run_in_order [OF run quiet_env_no_zmq_errors quiet_env_sends] run one
  show ?thesis by auto
qed

text \<open>
  In this server a message that cannot be deserialised ends the main thread: the exception
  leaves \<^verbatim>\<open>start\<close>, whichever channel the message came on, and the publisher and heartbeat
  threads are not asked to stop.
\<close>

lemma malformed_message_ends_server:
  assumes "serialize_iopub (env_json env) msg (p_auth env) (m_error_handler env) = Inr w" "w \<noteq> []"
    "\<not> m_request_stop st" "next_message False (arrive batch (sv_net st)) = Some (s, c, wire)"
    "deserialize (env_json env) wire (p_auth env) = Inl (Throws exc)" "\<not> caught_poll_error (Throws exc)"
  shows "\<exists>st'. start_impl env msg (Poll_arrivals batch # polls) replies st = (Inl (Throws exc), st') \<and>
    outbox (sv_net st') = outbox (sv_net st) @ [(Sv_publisher_pub, w)] \<and> notified st' = notified st"
proof -
  let ?st = "st\<lparr>sv_net := (sv_net st)\<lparr>outbox := outbox (sv_net st) @ [(Sv_publisher_pub, w)]\<rparr>\<rparr>"
  have "next_message False (arrive batch (sv_net ?st)) = Some (s, c, wire)"
    using assms(4) by (subst next_message_outbox) simp
  then have "poll_channels env (Poll_arrivals batch) ?st =
      (Inl (Throws exc), ?st\<lparr>sv_net := read_from s (arrive batch (sv_net ?st))\<rparr>)"
    using assms(3,5,6) by (simp add: poll_channels_eq Let_def)
  then have "server_turn env (Poll_arrivals batch) ?st =
      (Inl (Throws exc), ?st\<lparr>sv_net := read_from s (arrive batch (sv_net ?st))\<rparr>)"
    by (simp add: server_turn_resolved seq_eval(2))
  moreover have "publish env msg SHELL st = (Inr (), ?st)"
    using assms(1,2) by (simp add: publish_def seq_def prog_simps on_net_eval net_send_def)
  ultimately show ?thesis
    using assms(3) by (simp add: start_impl_resolved seq_def prog_simps read_from_def)
qed

section \<open>Aborting the queue\<close>

text \<open>
  A listener that records its message, may send and may raise, but neither reads from the shell
  nor runs into undefined behaviour.
\<close>

definition records :: "('j xmessage \<Rightarrow> ('j server, unit) prog) \<Rightarrow> bool" where
  "records l \<longleftrightarrow> (\<forall>msg st. fst (l msg st) \<noteq> Inl Undefined \<and> fst (l msg st) \<noteq> Inl Blocks \<and>
     notified (snd (l msg st)) = notified st @ [(SHELL, msg)] \<and>
     inbox (sv_net (snd (l msg st))) Sv_shell = inbox (sv_net st) Sv_shell)"

definition valid_messages :: "'j default_env \<Rightarrow> multipart list \<Rightarrow> 'j xmessage list" where
  "valid_messages env ms = concat (map (\<lambda>m. case deserialize (env_json env) m (p_auth env) of
      Inr msg \<Rightarrow> [msg] | Inl f \<Rightarrow> []) ms)"

lemma abort_step:
  assumes "records l" "deserialize (env_json env) m (p_auth env) \<noteq> Inl Undefined"
    "deserialize (env_json env) m (p_auth env) \<noteq> Inl Blocks"
  shows "\<exists>st'. try_catch (seq (lift_res (deserialize (env_json env) m (p_auth env))) l) (\<lambda>e. ret ()) st = (Inr (), st') \<and>
    inbox (sv_net st') Sv_shell = inbox (sv_net st) Sv_shell \<and>
    notified st' = notified st @ map (Pair SHELL) (valid_messages env [m])"
proof (cases "deserialize (env_json env) m (p_auth env)")
  case (Inl f)
  with assms(2,3) show ?thesis
    by (cases f) (auto simp: seq_def prog_simps try_catch_def valid_messages_def)
next
  case (Inr msg)
  obtain r st' where l: "l msg st = (r, st')" by (cases "l msg st")
  with assms(1) have keep: "r \<noteq> Inl Undefined" "r \<noteq> Inl Blocks" "notified st' = notified st @ [(SHELL, msg)]"
    "inbox (sv_net st') Sv_shell = inbox (sv_net st) Sv_shell"
    unfolding records_def by (metis fst_conv, metis fst_conv, metis snd_conv, metis snd_conv)
  with l Inr show ?thesis
    by (cases r) (auto simp: seq_def prog_simps try_catch_def valid_messages_def split: fault.split)
qed

text \<open>
  Aborting the queue ends after one turn for each message waiting on the shell and one more,
  leaves the shell empty, and hands to the listener exactly the messages that can be
  deserialised, in their order, dropping the others, even when the listener raises.
\<close>

lemma abort_queue_drains:
  assumes "records l" "length (inbox (sv_net st) Sv_shell) < fuel"
    and "\<And>m. m \<in> set (inbox (sv_net st) Sv_shell) \<Longrightarrow>
      deserialize (env_json env) m (p_auth env) \<noteq> Inl Undefined \<and>
      deserialize (env_json env) m (p_auth env) \<noteq> Inl Blocks"
  shows "\<exists>st'. abort_queue fuel env l st = (Inr True, st') \<and> inbox (sv_net st') Sv_shell = [] \<and>
    notified st' = notified st @ map (Pair SHELL) (valid_messages env (inbox (sv_net st) Sv_shell))"
  using assms(2,3)
proof (induction fuel arbitrary: st)
  case (Suc fuel)
  show ?case
  proof (cases "inbox (sv_net st) Sv_shell")
    case Nil
    then show ?thesis by (simp add: seq_def on_net_eval net_recv_noblock_def prog_simps valid_messages_def)
  next
    case (Cons m ms)
    let ?st = "st\<lparr>sv_net := read_from Sv_shell (sv_net st)\<rparr>"
    have read: "on_net (net_recv_noblock Sv_shell) st = (Inr (Some m), ?st)"
      using Cons by (simp add: on_net_eval net_recv_noblock_def read_from_def)
    have inb: "inbox (sv_net ?st) Sv_shell = ms" using Cons by (simp add: read_from_def)
    from Suc.prems(2) Cons have m: "deserialize (env_json env) m (p_auth env) \<noteq> Inl Undefined"
      "deserialize (env_json env) m (p_auth env) \<noteq> Inl Blocks" by auto
    obtain st1 where step:
      "try_catch (seq (lift_res (deserialize (env_json env) m (p_auth env))) l) (\<lambda>e. ret ()) ?st = (Inr (), st1)"
      "inbox (sv_net st1) Sv_shell = ms"
      "notified st1 = notified st @ map (Pair SHELL) (valid_messages env [m])"
      using abort_step [OF assms(1) m, of ?st] inb by auto
    have "\<exists>st'. abort_queue fuel env l st1 = (Inr True, st') \<and> inbox (sv_net st') Sv_shell = [] \<and>
        notified st' = notified st1 @ map (Pair SHELL) (valid_messages env (inbox (sv_net st1) Sv_shell))"
      using Suc.prems Cons step(2) by (intro Suc.IH) auto
    with read step Cons show ?thesis
      by (auto simp: seq_def valid_messages_def)
  qed
qed simp

text \<open>
  The server's poll treats the termination of the ZeroMQ context as nothing to do, unlike the
  publisher and heartbeat threads, which leave their loops: while no stop has been requested
  the main loop goes on however often the poll reports the termination.
\<close>

lemma server_polls_on_after_termination:
  assumes "\<not> m_request_stop st"
  shows "run_loop (server_turn env) (replicate k (Poll_error ETERM)) st = (Inr Running, st) \<and>
    publisher_run J make_header cb (replicate (Suc k) (Poll_error ETERM)) n = (Inr Stopped, n) \<and>
    heartbeat_run (replicate (Suc k) (Poll_error ETERM)) n' = (Inr Stopped, n')"
proof (intro conjI)
  have "server_turn env (Poll_error ETERM) st = (Inr Running, st)"
    using assms by (simp add: server_turn_resolved poll_channels_def seq_def try_catch_def prog_simps)
  then show "run_loop (server_turn env) (replicate k (Poll_error ETERM)) st = (Inr Running, st)"
    by (induction k) (simp_all add: seq_def prog_simps)
qed (simp_all add: publisher_run_def publisher_turn_def heartbeat_run_def heartbeat_turn_def poll_error_def
      seq_def prog_simps)

end
