(* ===== verification/Server_Split.thy ===== *)
theory Server_Split
  imports Server_Default
begin

text \<open>
  The servers that serve the shell and the control channel from two threads:
  \<^verbatim>\<open>src/server/xserver_zmq_split_impl.cpp\<close>, \<^verbatim>\<open>xserver_zmq_split.cpp\<close>,
  \<^verbatim>\<open>xshell.cpp\<close>, \<^verbatim>\<open>xcontrol.cpp\<close>, the runners (\<^verbatim>\<open>xshell_runner.cpp\<close>,
  \<^verbatim>\<open>xcontrol_runner.cpp\<close> and their default versions), \<^verbatim>\<open>xserver_shell_main.cpp\<close> and
  \<^verbatim>\<open>xserver_control_main.cpp\<close>.
\<close>

section \<open>State\<close>

datatype shell_socket = Sh_shell | Sh_stdin | Sh_publisher_pub | Sh_controller

datatype control_socket = Ct_control | Ct_publisher_pub

record 'j split_server =
  sp_shell :: "shell_socket net"
  sp_control :: "control_socket net"
  sp_messenger :: "messenger_socket net"
  runner_request_stop :: bool
  sp_notified :: "(channel \<times> 'j xmessage) list"

type_synonym 'j split_env = "('j, 'j split_server) server_env"

definition on_shell :: "(shell_socket net, 'a) prog \<Rightarrow> ('j split_server, 'a) prog" where
  "on_shell = zoom sp_shell (\<lambda>n st. st\<lparr>sp_shell := n\<rparr>)"

definition on_control :: "(control_socket net, 'a) prog \<Rightarrow> ('j split_server, 'a) prog" where
  "on_control = zoom sp_control (\<lambda>n st. st\<lparr>sp_control := n\<rparr>)"

definition on_messenger :: "(messenger_socket net, 'a) prog \<Rightarrow> ('j split_server, 'a) prog" where
  "on_messenger = zoom sp_messenger (\<lambda>n st. st\<lparr>sp_messenger := n\<rparr>)"

section \<open>Construction\<close>

definition xshell_new :: "bind_result \<Rightarrow> (shell_socket \<Rightarrow> nat \<Rightarrow> int) \<Rightarrow> xkernel_configuration
    \<Rightarrow> (shell_socket wiring, unit) prog" where
  "xshell_new bind draw config =
     seq (if m_curve_public_key config \<noteq> []
          then seq (set_curve_encryption Sh_shell (m_curve_public_key config) (m_curve_secret_key config)) (\<lambda>_.
               set_curve_encryption Sh_stdin (m_curve_public_key config) (m_curve_secret_key config))
          else ret ()) (\<lambda>_.
     seq (init_socket bind (draw Sh_shell) Sh_shell (m_transport config) (m_ip config) (m_shell_port config)) (\<lambda>_.
     seq (init_socket bind (draw Sh_stdin) Sh_stdin (m_transport config) (m_ip config) (m_stdin_port config)) (\<lambda>_.
     seq (sock_set Sh_publisher_pub (Linger get_socket_linger)) (\<lambda>_.
     seq (sock_connect Sh_publisher_pub get_publisher_end_point) (\<lambda>_.
     seq (sock_set Sh_controller (Linger get_socket_linger)) (\<lambda>_.
     sock_bind bind Sh_controller (get_controller_end_point ''shell'')))))))"

definition xcontrol_new :: "bind_result \<Rightarrow> (control_socket \<Rightarrow> nat \<Rightarrow> int) \<Rightarrow> xkernel_configuration
    \<Rightarrow> (control_socket wiring, unit) prog" where
  "xcontrol_new bind draw config =
     seq (if m_curve_public_key config \<noteq> []
          then set_curve_encryption Ct_control (m_curve_public_key config) (m_curve_secret_key config)
          else ret ()) (\<lambda>_.
     seq (init_socket bind (draw Ct_control) Ct_control (m_transport config) (m_ip config) (m_control_port config)) (\<lambda>_.
     seq (sock_set Ct_publisher_pub (Linger get_socket_linger)) (\<lambda>_.
     sock_connect Ct_publisher_pub get_publisher_end_point)))"

definition split_update_config :: "(shell_socket \<Rightarrow> nat \<Rightarrow> string res) \<Rightarrow> (nat \<Rightarrow> string res)
    \<Rightarrow> (nat \<Rightarrow> string res) \<Rightarrow> (nat \<Rightarrow> string res) \<Rightarrow> xkernel_configuration \<Rightarrow> xkernel_configuration res" where
  "split_update_config shell_ends control_end publisher_end heartbeat_end config =
     rbind (get_socket_port control_end) (\<lambda>control_port.
     rbind (get_socket_port (shell_ends Sh_shell)) (\<lambda>shell_port.
     rbind (get_socket_port (shell_ends Sh_stdin)) (\<lambda>stdin_port.
     rbind (get_socket_port publisher_end) (\<lambda>iopub_port.
     rbind (get_socket_port heartbeat_end) (\<lambda>hb_port.
       Inr (config\<lparr>m_control_port := control_port, m_shell_port := shell_port,
         m_stdin_port := stdin_port, m_iopub_port := iopub_port, m_hb_port := hb_port\<rparr>))))))"

section \<open>Operations of the shell and the control channel\<close>

text \<open>Deserialising, where an exception makes the message disappear.\<close>

definition split_deserialize :: "'j split_env \<Rightarrow> multipart \<Rightarrow> 'j xmessage option res" where
  "split_deserialize env wire_msg =
     catch_exn (rbind (deserialize (env_json env) wire_msg (p_auth env)) (\<lambda>msg. Inr (Some msg))) None"

definition shell_poll_channels :: "shell_socket poll_result \<Rightarrow> ('j split_server, channel option) prog" where
  "shell_poll_channels poll = on_shell (
     try_catch
       (case poll of
          Poll_error e \<Rightarrow> fail (Throws (Zmq_error e))
        | Poll_arrivals batch \<Rightarrow>
            seq (modify (arrive batch)) (\<lambda>_.
            seq (gets readable) (\<lambda>revents.
            if revents Sh_shell then ret (Some SHELL)
            else if revents Sh_controller then ret (Some CONTROL)
            else ret None)))
       (\<lambda>exc. case exc of
          Zmq_error e \<Rightarrow> if e \<noteq> EINTR \<and> e \<noteq> ETERM then fail (Throws exc) else ret None
        | _ \<Rightarrow> fail (Throws exc)))"

text \<open>Receiving with the given flags: \<open>wait\<close> is their absence.\<close>

definition net_recv_flags :: "bool \<Rightarrow> 's \<Rightarrow> ('s net, multipart option) prog" where
  "net_recv_flags wait s = (if wait then seq (net_recv s) (\<lambda>m. ret (Some m)) else net_recv_noblock s)"

definition read_shell :: "'j split_env \<Rightarrow> bool \<Rightarrow> ('j split_server, 'j xmessage option) prog" where
  "read_shell env wait =
     seq (on_shell (net_recv_flags wait Sh_shell)) (\<lambda>received_msg. case received_msg of
       Some wire_msg \<Rightarrow> lift_res (split_deserialize env wire_msg)
     | None \<Rightarrow> ret None)"

definition read_shell_controller :: "bool \<Rightarrow> ('j split_server, string option) prog" where
  "read_shell_controller wait =
     seq (on_shell (net_recv_flags wait Sh_controller)) (\<lambda>received_msg. case received_msg of
       Some wire_msg \<Rightarrow> seq (lift_res (pop wire_msg)) (\<lambda>(f, _). ret (Some f))
     | None \<Rightarrow> ret None)"

definition read_control :: "'j split_env \<Rightarrow> recv_result \<Rightarrow> ('j split_server, 'j xmessage option) prog" where
  "read_control env r = (case r of
       Recv_error e \<Rightarrow> fail (Throws (Zmq_error e))
     | Recv_message m \<Rightarrow>
         seq (on_control (modify (arrive [(Ct_control, m)]))) (\<lambda>_.
         seq (on_control (net_recv Ct_control)) (\<lambda>wire_msg.
         lift_res (split_deserialize env wire_msg))))"

definition split_send_shell :: "'j split_env \<Rightarrow> 'j xmessage \<Rightarrow> ('j split_server, unit) prog" where
  "split_send_shell env message =
     seq (lift_res (serialize (env_json env) message (p_auth env) (m_error_handler env))) (\<lambda>wire_msg.
     on_shell (net_send Sh_shell wire_msg))"

definition split_send_control :: "'j split_env \<Rightarrow> 'j xmessage \<Rightarrow> ('j split_server, unit) prog" where
  "split_send_control env message =
     seq (lift_res (serialize (env_json env) message (p_auth env) (m_error_handler env))) (\<lambda>wire_msg.
     on_control (net_send Ct_control wire_msg))"

definition split_send_stdin :: "'j split_env \<Rightarrow> 'j xmessage \<Rightarrow> (shell_socket \<times> multipart) list
    \<Rightarrow> ('j split_server, 'j xmessage option) prog" where
  "split_send_stdin env message reply =
     seq (lift_res (serialize (env_json env) message (p_auth env) (m_error_handler env))) (\<lambda>wire_msg.
     seq (on_shell (net_send Sh_stdin wire_msg)) (\<lambda>_.
     seq (on_shell (modify (arrive reply))) (\<lambda>_.
     seq (on_shell (net_recv Sh_stdin)) (\<lambda>wire_reply.
     lift_res (split_deserialize env wire_reply)))))"

definition send_shell_controller :: "string \<Rightarrow> ('j split_server, unit) prog" where
  "send_shell_controller message = on_shell (net_send Sh_controller [message])"

definition split_publish :: "'j split_env \<Rightarrow> 'j xpub_message \<Rightarrow> channel \<Rightarrow> ('j split_server, unit) prog" where
  "split_publish env message c =
     seq (lift_res (serialize_iopub (env_json env) message (p_auth env) (m_error_handler env))) (\<lambda>wire_msg.
     if c = SHELL then on_shell (net_send Sh_publisher_pub wire_msg)
     else on_control (net_send Ct_publisher_pub wire_msg))"

fun split_abort_queue :: "nat \<Rightarrow> 'j split_env \<Rightarrow> ('j xmessage \<Rightarrow> ('j split_server, unit) prog)
    \<Rightarrow> ('j split_server, bool) prog" where
  "split_abort_queue 0 env l = ret False"
| "split_abort_queue (Suc fuel) env l =
     seq (on_shell (net_recv_noblock Sh_shell)) (\<lambda>received_msg. case received_msg of
       None \<Rightarrow> ret True
     | Some wire_msg \<Rightarrow>
         seq (lift_res (split_deserialize env wire_msg)) (\<lambda>msg.
         seq (case msg of Some m \<Rightarrow> l m | None \<Rightarrow> ret ()) (\<lambda>_.
         split_abort_queue fuel env l)))"

definition split_stop_channels :: "(nat \<Rightarrow> (messenger_socket \<times> multipart) list) \<Rightarrow> ('j split_server, unit) prog" where
  "split_stop_channels replies = on_messenger (messenger_stop_channels replies)"

definition split_control_messenger :: "'j split_env \<Rightarrow> 'j \<Rightarrow> (messenger_socket \<times> multipart) list
    \<Rightarrow> ('j split_server, 'j) prog" where
  "split_control_messenger env message replies =
     on_messenger (send_to_shell_impl (env_json env) message replies)"

text \<open>An internal request arrives as text and is answered as text.\<close>

definition notify_internal_listener :: "'j split_env \<Rightarrow> string \<Rightarrow> ('j split_server, string) prog" where
  "notify_internal_listener env message =
     seq (lift_res (j_parse (env_json env) message)) (\<lambda>msg.
     seq (internal_listener env msg) (\<lambda>reply.
     lift_res (j_dump (env_json env) (m_error_handler env) reply)))"

definition notify_shell_listener :: "'j split_env \<Rightarrow> 'j xmessage \<Rightarrow> ('j split_server, unit) prog" where
  "notify_shell_listener env msg =
     seq (modify (\<lambda>st. st\<lparr>sp_notified := sp_notified st @ [(SHELL, msg)]\<rparr>)) (\<lambda>_. shell_listener env msg)"

definition notify_control_listener :: "'j split_env \<Rightarrow> 'j xmessage \<Rightarrow> ('j split_server, unit) prog" where
  "notify_control_listener env msg =
     seq (modify (\<lambda>st. st\<lparr>sp_notified := sp_notified st @ [(CONTROL, msg)]\<rparr>)) (\<lambda>_. control_listener env msg)"

section \<open>The methods of the server's implementation\<close>

text \<open>
  \<^verbatim>\<open>xserver_zmq_split_impl\<close> owns the two channels, serialises what is sent and forwards the rest. A file descriptor
  is given by the socket it belongs to. \<^verbatim>\<open>xserver_zmq_split\<close> reaches the channels through it only.
\<close>

record ('j, 'st) xserver_zmq_split_impl =
  si_stop_channels :: "(nat \<Rightarrow> (messenger_socket \<times> multipart) list) \<Rightarrow> ('st, unit) prog"
  si_get_shell_fd :: shell_socket
  si_get_shell_controller_fd :: shell_socket
  si_get_control_fd :: control_socket
  si_poll_shell_channels :: "shell_socket poll_result \<Rightarrow> ('st, channel option) prog"
  si_read_shell :: "bool \<Rightarrow> ('st, 'j xmessage option) prog"
  si_read_shell_controller :: "bool \<Rightarrow> ('st, string option) prog"
  si_read_control :: "recv_result \<Rightarrow> ('st, 'j xmessage option) prog"
  si_get_control_messenger :: "'j \<Rightarrow> (messenger_socket \<times> multipart) list \<Rightarrow> ('st, 'j) prog"
  si_send_shell :: "'j xmessage \<Rightarrow> ('st, unit) prog"
  si_send_shell_controller :: "string \<Rightarrow> ('st, unit) prog"
  si_send_control :: "'j xmessage \<Rightarrow> ('st, unit) prog"
  si_send_stdin :: "'j xmessage \<Rightarrow> (shell_socket \<times> multipart) list \<Rightarrow> ('st, 'j xmessage option) prog"
  si_publish :: "'j xpub_message \<Rightarrow> channel \<Rightarrow> ('st, unit) prog"
  si_abort_queue :: "nat \<Rightarrow> ('j xmessage \<Rightarrow> ('st, unit) prog) \<Rightarrow> ('st, bool) prog"

definition split_impl :: "'j split_env \<Rightarrow> ('j, 'j split_server) xserver_zmq_split_impl" where
  "split_impl env = \<lparr>
     si_stop_channels = split_stop_channels,
     si_get_shell_fd = Sh_shell,
     si_get_shell_controller_fd = Sh_controller,
     si_get_control_fd = Ct_control,
     si_poll_shell_channels = shell_poll_channels,
     si_read_shell = read_shell env,
     si_read_shell_controller = read_shell_controller,
     si_read_control = read_control env,
     si_get_control_messenger = split_control_messenger env,
     si_send_shell = split_send_shell env,
     si_send_shell_controller = send_shell_controller,
     si_send_control = split_send_control env,
     si_send_stdin = split_send_stdin env,
     si_publish = split_publish env,
     si_abort_queue = (\<lambda>fuel. split_abort_queue fuel env)\<rparr>"

definition split_send_stdin_impl :: "'j split_env \<Rightarrow> 'j xmessage \<Rightarrow> (shell_socket \<times> multipart) list
    \<Rightarrow> ('j split_server, unit) prog" where
  "split_send_stdin_impl env msg reply =
     seq (si_send_stdin (split_impl env) msg reply) (\<lambda>rep. case rep of
       Some m \<Rightarrow> stdin_listener env m
     | None \<Rightarrow> ret ())"

section \<open>What a server offers to its runners\<close>

text \<open>
  The public methods of \<^verbatim>\<open>xserver_zmq_split\<close>, and the protected ones of \<^verbatim>\<open>xshell_runner\<close> and
  \<^verbatim>\<open>xcontrol_runner\<close> through which a runner reaches them.
\<close>

record ('j, 'st) split_runner_api =
  sa_notify_control_listener :: "'j xmessage \<Rightarrow> ('st, unit) prog"
  sa_get_control_fd :: control_socket
  sa_read_control :: "recv_result \<Rightarrow> ('st, 'j xmessage option) prog"
  sa_send_control_message :: "'j xmessage \<Rightarrow> ('st, unit) prog"
  sa_stop_channels :: "(nat \<Rightarrow> (messenger_socket \<times> multipart) list) \<Rightarrow> ('st, unit) prog"
  sa_notify_shell_listener :: "'j xmessage \<Rightarrow> ('st, unit) prog"
  sa_notify_internal_listener :: "string \<Rightarrow> ('st, string) prog"
  sa_get_shell_fd :: shell_socket
  sa_get_shell_controller_fd :: shell_socket
  sa_poll_shell_channels :: "shell_socket poll_result \<Rightarrow> ('st, channel option) prog"
  sa_read_shell :: "bool \<Rightarrow> ('st, 'j xmessage option) prog"
  sa_send_shell_message :: "'j xmessage \<Rightarrow> ('st, unit) prog"
  sa_read_shell_controller :: "bool \<Rightarrow> ('st, string option) prog"
  sa_send_shell_controller :: "string \<Rightarrow> ('st, unit) prog"

definition runner_api :: "'j split_env \<Rightarrow> ('j, 'j split_server) split_runner_api" where
  "runner_api env = (let p_impl = split_impl env in \<lparr>
     sa_notify_control_listener = notify_control_listener env,
     sa_get_control_fd = si_get_control_fd p_impl,
     sa_read_control = si_read_control p_impl,
     sa_send_control_message = si_send_control p_impl,
     sa_stop_channels = si_stop_channels p_impl,
     sa_notify_shell_listener = notify_shell_listener env,
     sa_notify_internal_listener = notify_internal_listener env,
     sa_get_shell_fd = si_get_shell_fd p_impl,
     sa_get_shell_controller_fd = si_get_shell_controller_fd p_impl,
     sa_poll_shell_channels = si_poll_shell_channels p_impl,
     sa_read_shell = si_read_shell p_impl,
     sa_send_shell_message = si_send_shell p_impl,
     sa_read_shell_controller = si_read_shell_controller p_impl,
     sa_send_shell_controller = si_send_shell_controller p_impl\<rparr>)"

record ('j, 'st) shell_runner =
  sr_get_shell_fd :: shell_socket
  sr_get_shell_controller_fd :: shell_socket
  sr_poll_channels :: "shell_socket poll_result \<Rightarrow> ('st, channel option) prog"
  sr_read_shell :: "bool \<Rightarrow> ('st, 'j xmessage option) prog"
  sr_read_controller :: "bool \<Rightarrow> ('st, string option) prog"
  sr_send_controller :: "string \<Rightarrow> ('st, unit) prog"
  sr_notify_shell_listener :: "'j xmessage \<Rightarrow> ('st, unit) prog"
  sr_notify_internal_listener :: "string \<Rightarrow> ('st, string) prog"

definition xshell_runner :: "('j, 'st) split_runner_api \<Rightarrow> ('j, 'st) shell_runner" where
  "xshell_runner server = \<lparr>
     sr_get_shell_fd = sa_get_shell_fd server,
     sr_get_shell_controller_fd = sa_get_shell_controller_fd server,
     sr_poll_channels = sa_poll_shell_channels server,
     sr_read_shell = sa_read_shell server,
     sr_read_controller = sa_read_shell_controller server,
     sr_send_controller = sa_send_shell_controller server,
     sr_notify_shell_listener = sa_notify_shell_listener server,
     sr_notify_internal_listener = sa_notify_internal_listener server\<rparr>"

record ('j, 'st) control_runner =
  cr_get_control_fd :: control_socket
  cr_read_control :: "recv_result \<Rightarrow> ('st, 'j xmessage option) prog"
  cr_stop_channels :: "(nat \<Rightarrow> (messenger_socket \<times> multipart) list) \<Rightarrow> ('st, unit) prog"
  cr_notify_control_listener :: "'j xmessage \<Rightarrow> ('st, unit) prog"

definition xcontrol_runner :: "('j, 'st) split_runner_api \<Rightarrow> ('j, 'st) control_runner" where
  "xcontrol_runner server = \<lparr>
     cr_get_control_fd = sa_get_control_fd server,
     cr_read_control = sa_read_control server,
     cr_stop_channels = sa_stop_channels server,
     cr_notify_control_listener = sa_notify_control_listener server\<rparr>"

section \<open>The default runners\<close>

definition runner_read_shell :: "('j, 'st) shell_runner \<Rightarrow> channel option \<Rightarrow> bool \<Rightarrow> ('st, 'j xmessage option) prog" where
  "runner_read_shell r chan wait = (if chan = Some SHELL then sr_read_shell r wait else ret None)"

definition runner_read_controller :: "('j, 'st) shell_runner \<Rightarrow> channel option \<Rightarrow> bool \<Rightarrow> ('st, string option) prog" where
  "runner_read_controller r chan wait = (if chan = Some CONTROL then sr_read_controller r wait else ret None)"

definition default_shell_serve :: "('j, 'st) shell_runner \<Rightarrow> channel option \<Rightarrow> ('st, loop_status) prog" where
  "default_shell_serve r chan =
     seq (runner_read_shell r chan True) (\<lambda>msg. case msg of
       Some m \<Rightarrow> seq (sr_notify_shell_listener r m) (\<lambda>_. ret Running)
     | None \<Rightarrow> seq (runner_read_controller r chan True) (\<lambda>msg. case msg of
         Some val \<Rightarrow>
           if val = ''stop'' then seq (sr_send_controller r val) (\<lambda>_. ret Stopped)
           else seq (sr_notify_internal_listener r val) (\<lambda>rep.
                seq (sr_send_controller r rep) (\<lambda>_. ret Running))
       | None \<Rightarrow> ret Running))"

definition default_shell_turn :: "('j, 'st) shell_runner \<Rightarrow> shell_socket poll_result \<Rightarrow> ('st, loop_status) prog" where
  "default_shell_turn r poll = seq (sr_poll_channels r poll) (default_shell_serve r)"

text \<open>The server runs the loop of the runner that is registered with it.\<close>

definition shell_turn :: "'j split_env \<Rightarrow> shell_socket poll_result \<Rightarrow> ('j split_server, loop_status) prog" where
  "shell_turn env = default_shell_turn (xshell_runner (runner_api env))"

definition shell_run_impl :: "'j split_env \<Rightarrow> shell_socket poll_result list \<Rightarrow> ('j split_server, loop_status) prog" where
  "shell_run_impl env = run_loop (shell_turn env)"

definition runner_stop_impl :: "('j split_server, unit) prog" where
  "runner_stop_impl = modify (\<lambda>st. st\<lparr>runner_request_stop := True\<rparr>)"

definition default_control_turn :: "('j, 'j split_server) control_runner \<Rightarrow> recv_result \<Rightarrow> ('j split_server, loop_status) prog" where
  "default_control_turn r res =
     seq (cr_read_control r res) (\<lambda>msg.
     seq (case msg of Some m \<Rightarrow> cr_notify_control_listener r m | None \<Rightarrow> ret ()) (\<lambda>_.
     seq (gets runner_request_stop) (\<lambda>stop. ret (if stop then Stopped else Running))))"

definition default_control_run :: "('j, 'j split_server) control_runner \<Rightarrow> recv_result list
    \<Rightarrow> (nat \<Rightarrow> (messenger_socket \<times> multipart) list) \<Rightarrow> ('j split_server, loop_status) prog" where
  "default_control_run r rs replies =
     seq (modify (\<lambda>st. st\<lparr>runner_request_stop := False\<rparr>)) (\<lambda>_.
     seq (run_loop (default_control_turn r) rs) (\<lambda>status.
     if status = Stopped then seq (cr_stop_channels r replies) (\<lambda>_. ret Stopped) else ret Running))"

definition control_turn :: "'j split_env \<Rightarrow> recv_result \<Rightarrow> ('j split_server, loop_status) prog" where
  "control_turn env = default_control_turn (xcontrol_runner (runner_api env))"

definition control_run_impl :: "'j split_env \<Rightarrow> recv_result list
    \<Rightarrow> (nat \<Rightarrow> (messenger_socket \<times> multipart) list) \<Rightarrow> ('j split_server, loop_status) prog" where
  "control_run_impl env = default_control_run (xcontrol_runner (runner_api env))"

text \<open>The loops with the methods of the runners resolved.\<close>

lemma runner_methods:
  "sr_poll_channels (xshell_runner (runner_api env)) = shell_poll_channels"
  "sr_read_shell (xshell_runner (runner_api env)) = read_shell env"
  "sr_read_controller (xshell_runner (runner_api env)) = read_shell_controller"
  "sr_send_controller (xshell_runner (runner_api env)) = send_shell_controller"
  "sr_notify_shell_listener (xshell_runner (runner_api env)) = notify_shell_listener env"
  "sr_notify_internal_listener (xshell_runner (runner_api env)) = notify_internal_listener env"
  "cr_read_control (xcontrol_runner (runner_api env)) = read_control env"
  "cr_stop_channels (xcontrol_runner (runner_api env)) = split_stop_channels"
  "cr_notify_control_listener (xcontrol_runner (runner_api env)) = notify_control_listener env"
  by (simp_all add: xshell_runner_def xcontrol_runner_def runner_api_def split_impl_def Let_def)

lemma runner_reads:
  "runner_read_shell (xshell_runner (runner_api env)) chan wait = (if chan = Some SHELL then read_shell env wait else ret None)"
  "runner_read_controller (xshell_runner (runner_api env)) chan wait = (if chan = Some CONTROL then read_shell_controller wait else ret None)"
  by (simp_all add: runner_read_shell_def runner_read_controller_def runner_methods)

abbreviation shell_serve :: "'j split_env \<Rightarrow> channel option \<Rightarrow> ('j split_server, loop_status) prog" where
  "shell_serve env \<equiv> default_shell_serve (xshell_runner (runner_api env))"

lemma shell_turn_resolved: "shell_turn env poll = seq (shell_poll_channels poll) (shell_serve env)"
  unfolding shell_turn_def default_shell_turn_def runner_methods by (rule refl)

lemma shell_serve_resolved:
  "shell_serve env chan =
     seq (if chan = Some SHELL then read_shell env True else ret None) (\<lambda>msg. case msg of
       Some m \<Rightarrow> seq (notify_shell_listener env m) (\<lambda>_. ret Running)
     | None \<Rightarrow> seq (if chan = Some CONTROL then read_shell_controller True else ret None) (\<lambda>msg. case msg of
         Some val \<Rightarrow>
           if val = ''stop'' then seq (send_shell_controller val) (\<lambda>_. ret Stopped)
           else seq (notify_internal_listener env val) (\<lambda>rep.
                seq (send_shell_controller rep) (\<lambda>_. ret Running))
       | None \<Rightarrow> ret Running))"
  unfolding default_shell_serve_def runner_reads runner_methods by (rule refl)

lemma control_turn_resolved:
  "control_turn env r =
     seq (read_control env r) (\<lambda>msg.
     seq (case msg of Some m \<Rightarrow> notify_control_listener env m | None \<Rightarrow> ret ()) (\<lambda>_.
     seq (gets runner_request_stop) (\<lambda>stop. ret (if stop then Stopped else Running))))"
  unfolding control_turn_def default_control_turn_def runner_methods by (rule refl)

lemma control_run_impl_resolved:
  "control_run_impl env rs replies =
     seq (modify (\<lambda>st. st\<lparr>runner_request_stop := False\<rparr>)) (\<lambda>_.
     seq (run_loop (control_turn env) rs) (\<lambda>status.
     if status = Stopped then seq (split_stop_channels replies) (\<lambda>_. ret Stopped) else ret Running))"
  unfolding control_run_impl_def default_control_run_def control_turn_def runner_methods by (rule refl)

text \<open>The two ways to start: which of the loops runs in the main thread.\<close>

definition control_main_start_impl :: "'j split_env \<Rightarrow> 'j xpub_message \<Rightarrow> recv_result list
    \<Rightarrow> (nat \<Rightarrow> (messenger_socket \<times> multipart) list) \<Rightarrow> ('j split_server, loop_status) prog" where
  "control_main_start_impl env message rs replies =
     seq (split_publish env message CONTROL) (\<lambda>_. control_run_impl env rs replies)"

definition shell_main_start_impl :: "'j split_env \<Rightarrow> 'j xpub_message \<Rightarrow> shell_socket poll_result list
    \<Rightarrow> ('j split_server, loop_status) prog" where
  "shell_main_start_impl env message polls =
     seq (split_publish env message SHELL) (\<lambda>_. shell_run_impl env polls)"

section \<open>What the shell thread does\<close>

lemma on_shell_eval:
  "on_shell p st = (fst (p (sp_shell st)), st\<lparr>sp_shell := snd (p (sp_shell st))\<rparr>)"
  by (simp add: on_shell_def zoom_def split_def Let_def)

lemma on_control_eval:
  "on_control p st = (fst (p (sp_control st)), st\<lparr>sp_control := snd (p (sp_control st))\<rparr>)"
  by (simp add: on_control_def zoom_def split_def Let_def)

lemma on_messenger_eval:
  "on_messenger p st = (fst (p (sp_messenger st)), st\<lparr>sp_messenger := snd (p (sp_messenger st))\<rparr>)"
  by (simp add: on_messenger_def zoom_def split_def Let_def)

lemma split_deserialize_eq:
  "split_deserialize env m = (case deserialize (env_json env) m (p_auth env) of
     Inr msg \<Rightarrow> Inr (Some msg)
   | Inl (Throws e) \<Rightarrow> Inr None
   | Inl f \<Rightarrow> Inl f)"
  by (auto simp: split_deserialize_def split: sum.split fault.split)

text \<open>
  The specification of the shell thread, message by message: what the kernel is told, and what
  is replied to the control thread; \<open>f\<close> is what the internal listener computes.
\<close>

fun shell_notes :: "'j split_env \<Rightarrow> shell_socket \<times> multipart \<Rightarrow> (channel \<times> 'j xmessage) list" where
  "shell_notes env (s, m) =
     (if s = Sh_shell
      then (case deserialize (env_json env) m (p_auth env) of Inr msg \<Rightarrow> [(SHELL, msg)] | Inl e \<Rightarrow> [])
      else [])"

definition internal_reply :: "'j split_env \<Rightarrow> ('j \<Rightarrow> 'j) \<Rightarrow> string \<Rightarrow> string res" where
  "internal_reply env f val =
     (if val = ''stop'' then Inr ''stop''
      else rbind (j_parse (env_json env) val) (\<lambda>j. j_dump (env_json env) (m_error_handler env) (f j)))"

fun shell_replies :: "'j split_env \<Rightarrow> ('j \<Rightarrow> 'j) \<Rightarrow> shell_socket \<times> multipart \<Rightarrow> multipart list" where
  "shell_replies env f (s, m) =
     (if s = Sh_controller
      then (case internal_reply env f (hd m) of Inr r \<Rightarrow> [[r]] | Inl e \<Rightarrow> []) else [])"

definition shell_serves :: "'j split_env \<Rightarrow> ('j \<Rightarrow> 'j) \<Rightarrow> (shell_socket \<times> multipart) list
    \<Rightarrow> 'j split_server \<Rightarrow> 'j split_server \<Rightarrow> bool" where
  "shell_serves env f arrived st st' \<longleftrightarrow> (\<exists>ms.
     received (sp_shell st') = received (sp_shell st) @ ms \<and>
     sp_notified st' = sp_notified st @ concat (map (shell_notes env) ms) \<and>
     on_socket Sh_controller (outbox (sp_shell st')) =
       on_socket Sh_controller (outbox (sp_shell st)) @ concat (map (shell_replies env f) ms) \<and>
     (\<forall>s. on_socket s ms @ inbox (sp_shell st') s = inbox (sp_shell st) s @ on_socket s arrived))"

lemma shell_serves_refl: "shell_serves env f [] st st"
  by (auto simp: shell_serves_def)

lemma shell_serves_trans:
  assumes "shell_serves env f a st st'" "shell_serves env f b st' st''"
  shows "shell_serves env f (a @ b) st st''"
proof -
  from assms obtain ms ms' where
    1: "received (sp_shell st') = received (sp_shell st) @ ms"
       "sp_notified st' = sp_notified st @ concat (map (shell_notes env) ms)"
       "on_socket Sh_controller (outbox (sp_shell st')) =
          on_socket Sh_controller (outbox (sp_shell st)) @ concat (map (shell_replies env f) ms)"
       "\<And>s. on_socket s ms @ inbox (sp_shell st') s = inbox (sp_shell st) s @ on_socket s a" and
    2: "received (sp_shell st'') = received (sp_shell st') @ ms'"
       "sp_notified st'' = sp_notified st' @ concat (map (shell_notes env) ms')"
       "on_socket Sh_controller (outbox (sp_shell st'')) =
          on_socket Sh_controller (outbox (sp_shell st')) @ concat (map (shell_replies env f) ms')"
       "\<And>s. on_socket s ms' @ inbox (sp_shell st'') s = inbox (sp_shell st') s @ on_socket s b"
    unfolding shell_serves_def by blast
  have "on_socket s (ms @ ms') @ inbox (sp_shell st'') s = inbox (sp_shell st) s @ on_socket s (a @ b)" for s
  proof -
    have "on_socket s (ms @ ms') @ inbox (sp_shell st'') s = (on_socket s ms @ inbox (sp_shell st') s) @ on_socket s b"
      using 2(4) [of s] by simp
    then show ?thesis unfolding 1(4) by simp
  qed
  with 1(1-3) 2(1-3) show ?thesis
    unfolding shell_serves_def by (intro exI [of _ "ms @ ms'"]) simp
qed

text \<open>
  What is asked of the kernel's listeners: the shell listener may send, but not to the control
  thread, and the internal listener computes \<open>f\<close>.
\<close>

definition shell_listeners :: "'j split_env \<Rightarrow> ('j \<Rightarrow> 'j) \<Rightarrow> bool" where
  "shell_listeners env f \<longleftrightarrow>
     (\<forall>msg st. \<exists>st'. shell_listener env msg st = (Inr (), st') \<and> sp_notified st' = sp_notified st \<and>
        inbox (sp_shell st') = inbox (sp_shell st) \<and> received (sp_shell st') = received (sp_shell st) \<and>
        on_socket Sh_controller (outbox (sp_shell st')) = on_socket Sh_controller (outbox (sp_shell st))) \<and>
     (\<forall>j st. internal_listener env j st = (Inr (f j), st))"

text \<open>
  What is asked of the messages: a message on the shell need not be valid, but has to have
  enough frames after its delimiter to be read at all; a request of the control thread
  can be answered.
\<close>

fun shell_message_ok :: "'j split_env \<Rightarrow> ('j \<Rightarrow> 'j) \<Rightarrow> shell_socket \<times> multipart \<Rightarrow> bool" where
  "shell_message_ok env f (s, m) =
     ((s = Sh_shell \<longrightarrow> (case deserialize (env_json env) m (p_auth env) of
          Inl Undefined \<Rightarrow> False | Inl Blocks \<Rightarrow> False | _ \<Rightarrow> True)) \<and>
      (s = Sh_controller \<longrightarrow> m \<noteq> [] \<and> (case internal_reply env f (hd m) of Inl e \<Rightarrow> False | Inr r \<Rightarrow> True)))"

declare shell_message_ok.simps [simp del]

definition inbox_ok :: "'j split_env \<Rightarrow> ('j \<Rightarrow> 'j) \<Rightarrow> shell_socket net \<Rightarrow> bool" where
  "inbox_ok env f n \<longleftrightarrow> (\<forall>s m. m \<in> set (inbox n s) \<longrightarrow> shell_message_ok env f (s, m))"

lemma shell_poll_channels_arrivals:
  "shell_poll_channels (Poll_arrivals batch) st =
     (let n = arrive batch (sp_shell st)
      in (Inr (if inbox n Sh_shell \<noteq> [] then Some SHELL
               else if inbox n Sh_controller \<noteq> [] then Some CONTROL else None), st\<lparr>sp_shell := n\<rparr>))"
  by (simp add: shell_poll_channels_def on_shell_eval try_catch_def prog_simps readable_def Let_def)

lemma shell_poll_channels_error:
  "e = EINTR \<or> e = ETERM \<Longrightarrow> shell_poll_channels (Poll_error e) st = (Inr None, st)"
  by (auto simp: shell_poll_channels_def on_shell_eval try_catch_def prog_simps)

text \<open>Serving a shell message, and the control thread, after a poll.\<close>

lemma shell_serve_shell_eq:
  assumes m: "inbox (sp_shell st) Sh_shell = m # ms"
  shows "shell_serve env (Some SHELL) st =
      seq (lift_res (split_deserialize env m)) (\<lambda>msg. case msg of
         Some m \<Rightarrow> seq (notify_shell_listener env m) (\<lambda>_. ret Running) | None \<Rightarrow> ret Running)
      (st\<lparr>sp_shell := read_from Sh_shell (sp_shell st)\<rparr>)"
proof -
  have "read_shell env True st = (split_deserialize env m, st\<lparr>sp_shell := read_from Sh_shell (sp_shell st)\<rparr>)"
    using m by (simp add: read_shell_def net_recv_flags_def on_shell_eval net_recv_eq seq_def prog_simps)
  then show ?thesis
    by (simp add: shell_serve_resolved seq_def prog_simps split: sum.split option.split)
qed

lemma shell_serve_controller_eq:
  assumes m: "inbox (sp_shell st) Sh_controller = m # ms"
  shows "shell_serve env (Some CONTROL) st =
      seq (lift_res (pop m)) (\<lambda>(val, _).
        if val = ''stop'' then seq (send_shell_controller val) (\<lambda>_. ret Stopped)
        else seq (notify_internal_listener env val) (\<lambda>rep.
             seq (send_shell_controller rep) (\<lambda>_. ret Running)))
      (st\<lparr>sp_shell := read_from Sh_controller (sp_shell st)\<rparr>)"
proof -
  have "read_shell_controller True st
      = seq (lift_res (pop m)) (\<lambda>(val, _). ret (Some val)) (st\<lparr>sp_shell := read_from Sh_controller (sp_shell st)\<rparr>)"
    using m by (simp add: read_shell_controller_def net_recv_flags_def on_shell_eval net_recv_eq seq_def prog_simps)
  then show ?thesis
    by (cases m) (simp_all add: shell_serve_resolved seq_def prog_simps)
qed

lemma shell_serve_idle: "shell_serve env None st = (Inr Running, st)"
  by (simp add: shell_serve_resolved seq_def prog_simps)

lemma shell_serve_shell:
  assumes m: "inbox (sp_shell st) Sh_shell = m # ms"
    and ok: "shell_listeners env f" "shell_message_ok env f (Sh_shell, m)"
  shows "\<exists>st'. shell_serve env (Some SHELL) st = (Inr Running, st') \<and>
    inbox (sp_shell st') = (inbox (sp_shell st))(Sh_shell := ms) \<and>
    received (sp_shell st') = received (sp_shell st) @ [(Sh_shell, m)] \<and>
    sp_notified st' = sp_notified st @ shell_notes env (Sh_shell, m) \<and>
    on_socket Sh_controller (outbox (sp_shell st')) = on_socket Sh_controller (outbox (sp_shell st))"
proof -
  let ?st = "st\<lparr>sp_shell := read_from Sh_shell (sp_shell st)\<rparr>"
  note serve = shell_serve_shell_eq [OF m]
  show ?thesis
  proof (cases "deserialize (env_json env) m (p_auth env)")
    case (Inl e)
    with ok(2) serve have "shell_serve env (Some SHELL) st = (Inr Running, ?st)"
      by (cases e) (auto simp: shell_message_ok.simps split_deserialize_eq seq_def prog_simps)
    with Inl m show ?thesis by (simp add: read_from_def)
  next
    case (Inr msg)
    let ?st1 = "?st\<lparr>sp_notified := sp_notified st @ [(SHELL, msg)]\<rparr>"
    from ok(1) obtain st' where "shell_listener env msg ?st1 = (Inr (), st')"
      "sp_notified st' = sp_notified ?st1" "inbox (sp_shell st') = inbox (sp_shell ?st1)"
      "received (sp_shell st') = received (sp_shell ?st1)"
      "on_socket Sh_controller (outbox (sp_shell st')) = on_socket Sh_controller (outbox (sp_shell ?st1))"
      unfolding shell_listeners_def by blast
    with Inr serve m show ?thesis
      by (simp add: split_deserialize_eq seq_def notify_shell_listener_def prog_simps read_from_def)
  qed
qed

lemma shell_serve_controller:
  assumes m: "inbox (sp_shell st) Sh_controller = m # ms"
    and ok: "shell_listeners env f" "shell_message_ok env f (Sh_controller, m)"
  shows "\<exists>r. internal_reply env f (hd m) = Inr r \<and>
    shell_serve env (Some CONTROL) st = (Inr (if hd m = ''stop'' then Stopped else Running),
      st\<lparr>sp_shell := (read_from Sh_controller (sp_shell st))\<lparr>outbox := outbox (sp_shell st) @ [(Sh_controller, [r])]\<rparr>\<rparr>)"
proof -
  from ok(2) obtain r where r: "internal_reply env f (hd m) = Inr r" and "m \<noteq> []"
    by (auto simp: shell_message_ok.simps split: sum.splits)
  then obtain val fs where val: "m = val # fs" by (cases m) auto
  have serve: "shell_serve env (Some CONTROL) st =
      (if val = ''stop'' then seq (send_shell_controller val) (\<lambda>_. ret Stopped)
       else seq (notify_internal_listener env val) (\<lambda>rep.
            seq (send_shell_controller rep) (\<lambda>_. ret Running))) (st\<lparr>sp_shell := read_from Sh_controller (sp_shell st)\<rparr>)"
    using shell_serve_controller_eq [OF m] val by (simp add: seq_def prog_simps)
  have out: "outbox (read_from Sh_controller (sp_shell st)) = outbox (sp_shell st)" by (simp add: read_from_def)
  show ?thesis
  proof (cases "val = ''stop''")
    case True
    with serve r val out show ?thesis
      by (simp add: seq_def send_shell_controller_def on_shell_eval net_send_def prog_simps internal_reply_def)
  next
    case False
    moreover from ok(1) have "internal_listener env j st' = (Inr (f j), st')" for j st'
      by (simp add: shell_listeners_def)
    ultimately show ?thesis
      using serve r val out
      by (auto simp: seq_def send_shell_controller_def on_shell_eval net_send_def prog_simps internal_reply_def
          notify_internal_listener_def rbind_Inr_iff)
  qed
qed

text \<open>The default runner serves a shell message when there is one, else the control thread.\<close>

fun shell_first :: "bool \<Rightarrow> bool \<Rightarrow> channel option" where
  "shell_first True controller = Some SHELL"
| "shell_first False True = Some CONTROL"
| "shell_first False False = None"

lemma shell_turn_arrivals:
  "n = arrive batch (sp_shell st) \<Longrightarrow> shell_turn env (Poll_arrivals batch) st =
     shell_serve env (shell_first (inbox n Sh_shell \<noteq> []) (inbox n Sh_controller \<noteq> [])) (st\<lparr>sp_shell := n\<rparr>)"
  by (cases "inbox n Sh_shell = []"; cases "inbox n Sh_controller = []")
    (simp_all add: shell_turn_resolved seq_def shell_poll_channels_arrivals Let_def)

lemma shell_turn_shell_eq:
  assumes n: "n = arrive batch (sp_shell st)" and m: "inbox n Sh_shell = m # ms"
  shows "shell_turn env (Poll_arrivals batch) st =
      seq (lift_res (split_deserialize env m)) (\<lambda>msg. case msg of
         Some m \<Rightarrow> seq (notify_shell_listener env m) (\<lambda>_. ret Running) | None \<Rightarrow> ret Running)
      (st\<lparr>sp_shell := read_from Sh_shell n\<rparr>)"
  using shell_serve_shell_eq [of "st\<lparr>sp_shell := n\<rparr>" m ms] m by (simp add: shell_turn_arrivals [OF n])

lemma shell_turn_idle:
  assumes n: "n = arrive batch (sp_shell st)" and "inbox n Sh_shell = []" "inbox n Sh_controller = []"
  shows "shell_turn env (Poll_arrivals batch) st = (Inr Running, st\<lparr>sp_shell := n\<rparr>)"
  using assms(2,3) by (simp add: shell_turn_arrivals [OF n] shell_serve_idle)

lemma shell_turn_shell:
  assumes n: "n = arrive batch (sp_shell st)" and m: "inbox n Sh_shell = m # ms"
    and ok: "shell_listeners env f" "shell_message_ok env f (Sh_shell, m)"
  shows "\<exists>st'. shell_turn env (Poll_arrivals batch) st = (Inr Running, st') \<and>
    inbox (sp_shell st') = (inbox n)(Sh_shell := ms) \<and>
    received (sp_shell st') = received n @ [(Sh_shell, m)] \<and>
    sp_notified st' = sp_notified st @ shell_notes env (Sh_shell, m) \<and>
    on_socket Sh_controller (outbox (sp_shell st')) = on_socket Sh_controller (outbox n)"
  using shell_serve_shell [of "st\<lparr>sp_shell := n\<rparr>" m ms, OF _ ok] m by (simp add: shell_turn_arrivals [OF n])

lemma shell_turn_controller:
  assumes n: "n = arrive batch (sp_shell st)" and empty: "inbox n Sh_shell = []"
    and m: "inbox n Sh_controller = m # ms"
    and ok: "shell_listeners env f" "shell_message_ok env f (Sh_controller, m)"
  shows "\<exists>r. internal_reply env f (hd m) = Inr r \<and>
    shell_turn env (Poll_arrivals batch) st = (Inr (if hd m = ''stop'' then Stopped else Running),
      st\<lparr>sp_shell := (read_from Sh_controller n)\<lparr>outbox := outbox n @ [(Sh_controller, [r])]\<rparr>\<rparr>)"
  using shell_serve_controller [of "st\<lparr>sp_shell := n\<rparr>" m ms, OF _ ok] m empty by (simp add: shell_turn_arrivals [OF n])

definition stop_served :: "'j split_server \<Rightarrow> bool" where
  "stop_served st \<longleftrightarrow> inbox (sp_shell st) Sh_shell = [] \<and>
     (\<exists>r m. received (sp_shell st) = r @ [(Sh_controller, m)] \<and> hd m = ''stop'')"

lemma inbox_ok_tail:
  "inbox_ok env f n \<Longrightarrow> inbox n s = m # ms \<Longrightarrow> inbox n' = (inbox n)(s := ms) \<Longrightarrow> inbox_ok env f n'"
  unfolding inbox_ok_def by (metis fun_upd_apply list.set_intros(2))

lemma shell_turn_ok:
  assumes "shell_listeners env f" "inbox_ok env f (arrive batch (sp_shell st))"
  shows "\<exists>status st'. shell_turn env (Poll_arrivals batch) st = (Inr status, st') \<and>
    shell_serves env f batch st st' \<and> inbox_ok env f (sp_shell st') \<and> (status = Stopped \<longrightarrow> stop_served st')"
proof -
  define n where n: "n = arrive batch (sp_shell st)"
  have sel: "inbox n s = inbox (sp_shell st) s @ on_socket s batch" "received n = received (sp_shell st)"
    "outbox n = outbox (sp_shell st)" for s by (simp_all add: n)
  show ?thesis
  proof (cases "inbox n Sh_shell")
    case (Cons m ms)
    from assms(2) Cons n have "shell_message_ok env f (Sh_shell, m)"
      unfolding inbox_ok_def by (metis list.set_intros(1))
    from shell_turn_shell [OF n Cons assms(1) this] obtain st' where
      st': "shell_turn env (Poll_arrivals batch) st = (Inr Running, st')"
        "inbox (sp_shell st') = (inbox n)(Sh_shell := ms)" "received (sp_shell st') = received n @ [(Sh_shell, m)]"
        "sp_notified st' = sp_notified st @ shell_notes env (Sh_shell, m)"
        "on_socket Sh_controller (outbox (sp_shell st')) = on_socket Sh_controller (outbox n)" by blast
    moreover have "shell_serves env f batch st st'"
      unfolding shell_serves_def using st' Cons sel by (intro exI [of _ "[(Sh_shell, m)]"]) auto
    moreover have "inbox_ok env f (sp_shell st')"
      using assms(2) Cons st'(2) n by (blast intro: inbox_ok_tail)
    ultimately show ?thesis by auto
  next
    case Nil
    note no_shell = Nil
    show ?thesis
    proof (cases "inbox n Sh_controller")
      case Nil
      from shell_turn_idle [OF n no_shell this]
      have "shell_turn env (Poll_arrivals batch) st = (Inr Running, st\<lparr>sp_shell := n\<rparr>)" .
      moreover have "shell_serves env f batch st (st\<lparr>sp_shell := n\<rparr>)"
        unfolding shell_serves_def using sel by (intro exI [of _ "[]"]) auto
      ultimately show ?thesis using assms(2) n by auto
    next
      case (Cons m ms)
      from assms(2) Cons n have ok: "shell_message_ok env f (Sh_controller, m)"
        unfolding inbox_ok_def by (metis list.set_intros(1))
      from shell_turn_controller [OF n no_shell Cons assms(1) ok] obtain r where
        r: "internal_reply env f (hd m) = Inr r"
          "shell_turn env (Poll_arrivals batch) st = (Inr (if hd m = ''stop'' then Stopped else Running),
            st\<lparr>sp_shell := (read_from Sh_controller n)\<lparr>outbox := outbox n @ [(Sh_controller, [r])]\<rparr>\<rparr>)"
            (is "_ = (_, ?st')") by blast
      have rd: "inbox (read_from Sh_controller n) = (inbox n)(Sh_controller := ms)"
          "received (read_from Sh_controller n) = received n @ [(Sh_controller, m)]"
        using Cons by (simp_all add: read_from_def)
      have "shell_serves env f batch st ?st'"
        unfolding shell_serves_def using r(1) rd Cons sel
        by (intro exI [of _ "[(Sh_controller, m)]"]) auto
      moreover have "inbox_ok env f (sp_shell ?st')"
        using assms(2) Cons rd(1) by (auto simp flip: n intro: inbox_ok_tail)
      moreover have "hd m = ''stop'' \<longrightarrow> stop_served ?st'"
        using rd no_shell by (simp add: stop_served_def)
      ultimately show ?thesis using r(2) by auto
    qed
  qed
qed

lemma shell_run_ok:
  assumes "shell_listeners env f" "inbox_ok env f (sp_shell st)"
    "\<And>s m. (s, m) \<in> set (concat (map arrivals polls)) \<Longrightarrow> shell_message_ok env f (s, m)"
    "\<And>e. Poll_error e \<in> set polls \<Longrightarrow> e = EINTR \<or> e = ETERM"
  shows "\<exists>status st' seen. run_loop (shell_turn env) polls st = (Inr status, st') \<and> prefix seen polls \<and>
    (status = Running \<longrightarrow> seen = polls) \<and> (status = Stopped \<longrightarrow> stop_served st') \<and>
    shell_serves env f (concat (map arrivals seen)) st st'"
  using assms(2-)
proof (induction polls arbitrary: st)
  case Nil
  then show ?case by (simp add: prog_simps shell_serves_refl)
next
  case (Cons e es)
  have "\<exists>status st'. shell_turn env e st = (Inr status, st') \<and> shell_serves env f (arrivals e) st st' \<and>
      inbox_ok env f (sp_shell st') \<and> (status = Stopped \<longrightarrow> stop_served st')"
  proof (cases e)
    case (Poll_error err)
    with Cons.prems(3) have "err = EINTR \<or> err = ETERM" by auto
    then have "shell_turn env e st = (Inr Running, st)"
      using Poll_error by (simp add: shell_turn_resolved seq_def shell_poll_channels_error shell_serve_idle prog_simps)
    with Cons.prems(1) Poll_error show ?thesis by (auto simp: shell_serves_refl)
  next
    case (Poll_arrivals batch)
    have "inbox_ok env f (arrive batch (sp_shell st))"
      using Cons.prems(1,2) Poll_arrivals by (auto simp: inbox_ok_def on_socket_def)
    from shell_turn_ok [OF assms(1) this] Poll_arrivals show ?thesis by simp
  qed
  then obtain s1 st1 where 1: "shell_turn env e st = (Inr s1, st1)" "shell_serves env f (arrivals e) st st1"
    "inbox_ok env f (sp_shell st1)" "s1 = Stopped \<longrightarrow> stop_served st1" by blast
  show ?case
  proof (cases s1)
    case Stopped
    with 1 show ?thesis
      by (intro exI [of _ Stopped] exI [of _ st1] exI [of _ "[e]"]) (simp add: seq_def prog_simps)
  next
    case Running
    have "\<exists>status st' seen. run_loop (shell_turn env) es st1 = (Inr status, st') \<and> prefix seen es \<and>
      (status = Running \<longrightarrow> seen = es) \<and> (status = Stopped \<longrightarrow> stop_served st') \<and>
      shell_serves env f (concat (map arrivals seen)) st1 st'"
      using Cons.prems by (intro Cons.IH [OF 1(3)]) auto
    then obtain status st' seen where 2: "run_loop (shell_turn env) es st1 = (Inr status, st')" "prefix seen es"
      "status = Running \<longrightarrow> seen = es" "status = Stopped \<longrightarrow> stop_served st'"
      "shell_serves env f (concat (map arrivals seen)) st1 st'" by blast
    from shell_serves_trans [OF 1(2) 2(5)] 1(1) 2 Running show ?thesis
      by (intro exI [of _ status] exI [of _ st'] exI [of _ "e # seen"]) (simp add: seq_def)
  qed
qed

text \<open>
  C11. Whatever poll interruptions there are and whatever arrives, valid or not, as long as it has
  enough frames to be read, the shell thread of the split servers never fails. It hands to
  the kernel exactly the valid shell messages it reads, in order; it answers every request of
  the control thread with the internal listener's reply, and the stop request with itself; it
  reads each socket in order and loses nothing. It stops only on the stop request, and only
  when no shell message is waiting.
\<close>

theorem shell_run_total:
  assumes "shell_listeners env f" "sp_shell st = empty_net"
    "\<And>s m. (s, m) \<in> set (concat (map arrivals polls)) \<Longrightarrow> shell_message_ok env f (s, m)"
    "\<And>e. Poll_error e \<in> set polls \<Longrightarrow> e = EINTR \<or> e = ETERM"
  shows "\<exists>status st'. shell_run_impl env polls st = (Inr status, st') \<and>
    sp_notified st' = sp_notified st @ concat (map (shell_notes env) (received (sp_shell st'))) \<and>
    on_socket Sh_controller (outbox (sp_shell st')) = concat (map (shell_replies env f) (received (sp_shell st'))) \<and>
    (\<exists>seen. prefix seen polls \<and> (status = Running \<longrightarrow> seen = polls) \<and>
       (\<forall>s. on_socket s (received (sp_shell st')) @ inbox (sp_shell st') s
            = on_socket s (concat (map arrivals seen)))) \<and>
    (status = Stopped \<longrightarrow> inbox (sp_shell st') Sh_shell = [] \<and>
       (\<exists>r m. received (sp_shell st') = r @ [(Sh_controller, m)] \<and> hd m = ''stop''))"
proof -
  have "inbox_ok env f (sp_shell st)" using assms(2) by (simp add: inbox_ok_def empty_net_def)
  from shell_run_ok [OF assms(1) this assms(3,4)] obtain status st' seen where
    "run_loop (shell_turn env) polls st = (Inr status, st')" "prefix seen polls"
    "status = Running \<longrightarrow> seen = polls" "status = Stopped \<longrightarrow> stop_served st'"
    "shell_serves env f (concat (map arrivals seen)) st st'" by blast
  then show ?thesis
    using assms(2)
    by (intro exI [of _ status] exI [of _ st'])
      (auto simp: shell_run_impl_def shell_serves_def stop_served_def empty_net_def)
qed

definition quiet_split_env :: "jv split_env" where
  "quiet_split_env = \<lparr>env_json = sample_json, p_auth = no_xauthentication, m_error_handler = strict,
     shell_listener = (\<lambda>msg. ret ()), control_listener = (\<lambda>msg. runner_stop_impl),
     stdin_listener = (\<lambda>msg. ret ()), internal_listener = ret\<rparr>"

lemma quiet_split_listeners: "shell_listeners quiet_split_env id"
  by (simp add: shell_listeners_def quiet_split_env_def prog_simps)

definition fresh_split :: "jv split_server" where
  "fresh_split = \<lparr>sp_shell = empty_net, sp_control = empty_net, sp_messenger = empty_net,
     runner_request_stop = False, sp_notified = []\<rparr>"

lemma garbage_is_missing_delimiter:
  "deserialize J [''id'', ''garbage''] auth = Inl (Throws (Runtime_error ''ERROR: Delimiter not present in message''))"
  by (simp add: deserialize_def deserialize_zmq_id_missing DELIMITER_def)

theorem shell_run_total_witness:
  "\<exists>status st'. shell_run_impl quiet_split_env
      [Poll_arrivals [(Sh_controller, [''H'']), (Sh_shell, [''id'', ''garbage''])], Poll_error EINTR,
       Poll_arrivals [(Sh_controller, [''stop''])], Poll_arrivals []] fresh_split = (Inr status, st') \<and>
    sp_notified st' = concat (map (shell_notes quiet_split_env) (received (sp_shell st')))"
proof -
  have "internal_reply quiet_split_env id ''H'' = Inr ''H''" "internal_reply quiet_split_env id ''stop'' = Inr ''stop''"
    by (simp_all add: internal_reply_def quiet_split_env_def sample_json_def)
  then have "shell_message_ok quiet_split_env id (Sh_controller, [''H''])"
      "shell_message_ok quiet_split_env id (Sh_controller, [''stop''])"
      "shell_message_ok quiet_split_env id (Sh_shell, [''id'', ''garbage''])"
    by (simp_all add: shell_message_ok.simps garbage_is_missing_delimiter)
  then show ?thesis
    using shell_run_total [OF quiet_split_listeners, of fresh_split
      "[Poll_arrivals [(Sh_controller, [''H'']), (Sh_shell, [''id'', ''garbage''])], Poll_error EINTR,
       Poll_arrivals [(Sh_controller, [''stop''])], Poll_arrivals []]"]
    by (fastforce simp: fresh_split_def)
qed

text \<open>
  C22. A request the control thread sends to the shell comes back as the value the internal
  listener computed: the text sent is what the shell thread reads, its answer is sent on the same
  socket, and reading it back yields the reply. This is for values whose texts read back, and
  a request whose text is not the word that stops the thread.
\<close>

theorem internal_request_roundtrip:
  assumes "shell_listeners env f" "inbox (sp_shell st) Sh_shell = []" "inbox (sp_shell st) Sh_controller = []"
    "j_dump (env_json env) strict j = Inr d" "j_parse (env_json env) d = Inr j" "d \<noteq> ''stop''"
    "j_dump (env_json env) (m_error_handler env) (f j) = Inr r" "j_parse (env_json env) r = Inr (f j)"
    "inbox n Ms_shell_controller = []"
  shows "\<exists>st' n'. shell_turn env (Poll_arrivals [(Sh_controller, [d])]) st = (Inr Running, st') \<and>
    outbox (sp_shell st') = outbox (sp_shell st) @ [(Sh_controller, [r])] \<and>
    send_to_shell_impl (env_json env) j [(Ms_shell_controller, [r])] n = (Inr (f j), n') \<and>
    outbox n' = outbox n @ [(Ms_shell_controller, [d])]"
proof -
  have rep: "internal_reply env f d = Inr r" using assms(5-7) by (simp add: internal_reply_def)
  then have ok: "shell_message_ok env f (Sh_controller, [d])" by (simp add: shell_message_ok.simps)
  let ?n = "arrive [(Sh_controller, [d])] (sp_shell st)"
  have "inbox ?n Sh_shell = []" "inbox ?n Sh_controller = [[d]]" using assms(2,3) by simp_all
  from shell_turn_controller [OF refl this assms(1) ok] rep assms(6) obtain st' where
    "shell_turn env (Poll_arrivals [(Sh_controller, [d])]) st = (Inr Running, st')"
    "outbox (sp_shell st') = outbox (sp_shell st) @ [(Sh_controller, [r])]" by auto
  moreover have "\<exists>n'. send_to_shell_impl (env_json env) j [(Ms_shell_controller, [r])] n = (Inr (f j), n') \<and>
      outbox n' = outbox n @ [(Ms_shell_controller, [d])]"
    using assms(4,8,9) by (simp add: send_to_shell_impl_def seq_def prog_simps net_send_def net_recv_def arrive_def)
  ultimately show ?thesis by blast
qed

theorem internal_request_roundtrip_witness:
  "\<exists>st' n'. shell_turn quiet_split_env (Poll_arrivals [(Sh_controller, [''H''])]) fresh_split = (Inr Running, st') \<and>
    outbox (sp_shell st') = [(Sh_controller, [''H''])] \<and>
    send_to_shell_impl sample_json (JObj [(''msg_type'', JStr ''status'')]) [(Ms_shell_controller, [''H''])] empty_net
      = (Inr (JObj [(''msg_type'', JStr ''status'')]), n') \<and> outbox n' = [(Ms_shell_controller, [''H''])]"
  using internal_request_roundtrip [OF quiet_split_listeners, of fresh_split
      "JObj [(''msg_type'', JStr ''status'')]" "''H''" "''H''" empty_net]
  by (simp add: fresh_split_def empty_net_def quiet_split_env_def sample_json_def)

section \<open>What the control thread does\<close>

definition valid_control :: "'j split_env \<Rightarrow> multipart list \<Rightarrow> 'j xmessage list" where
  "valid_control env ms = concat (map (\<lambda>m. case deserialize (env_json env) m (p_auth env) of
      Inr msg \<Rightarrow> [msg] | Inl f \<Rightarrow> []) ms)"

text \<open>
  A control listener that may send, and that requests the stop on the messages \<open>is_stop\<close>
  holds of.
\<close>

definition stops_on :: "'j split_env \<Rightarrow> ('j xmessage \<Rightarrow> bool) \<Rightarrow> bool" where
  "stops_on env is_stop \<longleftrightarrow> (\<forall>msg st. \<exists>st'. control_listener env msg st = (Inr (), st') \<and>
     sp_notified st' = sp_notified st \<and> inbox (sp_control st') = inbox (sp_control st) \<and>
     sp_messenger st' = sp_messenger st \<and> runner_request_stop st' = (runner_request_stop st \<or> is_stop msg))"

definition readable_message :: "'j split_env \<Rightarrow> multipart \<Rightarrow> bool" where
  "readable_message env m \<longleftrightarrow> deserialize (env_json env) m (p_auth env) \<noteq> Inl Undefined \<and>
     deserialize (env_json env) m (p_auth env) \<noteq> Inl Blocks"

lemma control_turn_message:
  assumes "stops_on env is_stop" "readable_message env m" "inbox (sp_control st) Ct_control = []"
    "\<not> runner_request_stop st"
  shows "\<exists>st'. control_turn env (Recv_message m) st
      = (Inr (if \<exists>msg \<in> set (valid_control env [m]). is_stop msg then Stopped else Running), st') \<and>
    sp_notified st' = sp_notified st @ map (Pair CONTROL) (valid_control env [m]) \<and>
    inbox (sp_control st') Ct_control = [] \<and> sp_messenger st' = sp_messenger st \<and>
    (runner_request_stop st' \<longleftrightarrow> (\<exists>msg \<in> set (valid_control env [m]). is_stop msg))"
proof -
  let ?n = "read_from Ct_control (arrive [(Ct_control, m)] (sp_control st))"
  let ?st = "st\<lparr>sp_control := ?n\<rparr>"
  have read: "read_control env (Recv_message m) st = (split_deserialize env m, ?st)"
    using assms(3) by (simp add: read_control_def seq_def on_control_eval prog_simps net_recv_eq)
  have inb: "inbox ?n Ct_control = []" using assms(3) by (simp add: read_from_def)
  show ?thesis
  proof (cases "deserialize (env_json env) m (p_auth env)")
    case (Inl e)
    with assms(2) read inb assms(4) show ?thesis
      by (cases e) (auto simp: control_turn_resolved seq_def split_deserialize_eq prog_simps valid_control_def
          readable_message_def)
  next
    case (Inr msg)
    let ?st1 = "?st\<lparr>sp_notified := sp_notified st @ [(CONTROL, msg)]\<rparr>"
    from assms(1) obtain st' where "control_listener env msg ?st1 = (Inr (), st')"
      "sp_notified st' = sp_notified ?st1" "inbox (sp_control st') = inbox (sp_control ?st1)"
      "sp_messenger st' = sp_messenger ?st1"
      "runner_request_stop st' = (runner_request_stop ?st1 \<or> is_stop msg)"
      unfolding stops_on_def by blast
    with Inr read inb assms(4) show ?thesis
      by (simp add: control_turn_resolved seq_def split_deserialize_eq prog_simps valid_control_def
          notify_control_listener_def)
  qed
qed

lemma valid_control_simps [simp]:
  "valid_control env [] = []"
  "valid_control env (m # m' # ms) = valid_control env [m] @ valid_control env (m' # ms)"
  "valid_control env (ms @ ms') = valid_control env ms @ valid_control env ms'"
  by (simp_all add: valid_control_def)

lemma control_loop_prefix:
  assumes "stops_on env is_stop" "\<And>m. m \<in> set ms \<Longrightarrow> readable_message env m"
    "inbox (sp_control st) Ct_control = []" "\<not> runner_request_stop st"
    "\<And>msg. msg \<in> set (valid_control env ms) \<Longrightarrow> \<not> is_stop msg"
  shows "\<exists>st'. (\<forall>rest. run_loop (control_turn env) (map Recv_message ms @ rest) st
        = run_loop (control_turn env) rest st') \<and>
    sp_notified st' = sp_notified st @ map (Pair CONTROL) (valid_control env ms) \<and>
    inbox (sp_control st') Ct_control = [] \<and> sp_messenger st' = sp_messenger st \<and> \<not> runner_request_stop st'"
  using assms(2-)
proof (induction ms arbitrary: st)
  case Nil
  then show ?case by (intro exI [of _ st]) simp
next
  case (Cons m ms)
  have split: "valid_control env (m # ms) = valid_control env [m] @ valid_control env ms"
    by (simp add: valid_control_def)
  obtain st1 where 1: "control_turn env (Recv_message m) st = (Inr Running, st1)"
    "sp_notified st1 = sp_notified st @ map (Pair CONTROL) (valid_control env [m])"
    "inbox (sp_control st1) Ct_control = []" "sp_messenger st1 = sp_messenger st" "\<not> runner_request_stop st1"
    using control_turn_message [OF assms(1) Cons.prems(1) Cons.prems(2) Cons.prems(3), of m] Cons.prems(4)
    unfolding split by auto
  obtain st' where "\<forall>rest. run_loop (control_turn env) (map Recv_message ms @ rest) st1
        = run_loop (control_turn env) rest st'"
    "sp_notified st' = sp_notified st1 @ map (Pair CONTROL) (valid_control env ms)"
    "inbox (sp_control st') Ct_control = []" "sp_messenger st' = sp_messenger st1" "\<not> runner_request_stop st'"
    using Cons.IH [OF _ 1(3,5)] Cons.prems(1,4) unfolding split by auto
  with 1 split show ?case by (intro exI [of _ st']) (simp add: seq_def)
qed

text \<open>
  C13. The control thread hands to the kernel the valid messages it receives, in order and
  skipping the others, up to and including the first on which the kernel requests the stop; it
  then reads nothing more and stops the channels, and its outcome is that of stopping them. A
  stop requested before the thread runs is forgotten.
\<close>

theorem control_run_until_stop:
  assumes "stops_on env is_stop" "\<And>x. x \<in> set (before @ [m]) \<Longrightarrow> readable_message env x"
    "inbox (sp_control st) Ct_control = []"
    "\<And>msg. msg \<in> set (valid_control env before) \<Longrightarrow> \<not> is_stop msg"
    "deserialize (env_json env) m (p_auth env) = Inr msg" "is_stop msg"
  shows "\<exists>st'. sp_notified st' = sp_notified st @ map (Pair CONTROL) (valid_control env before @ [msg]) \<and>
    control_run_impl env (map Recv_message (before @ [m]) @ later) replies st =
      (case messenger_stop_channels replies (sp_messenger st) of
         (Inl e, n) \<Rightarrow> (Inl e, st'\<lparr>sp_messenger := n\<rparr>)
       | (Inr _, n) \<Rightarrow> (Inr Stopped, st'\<lparr>sp_messenger := n\<rparr>))"
proof -
  let ?st = "st\<lparr>runner_request_stop := False\<rparr>"
  obtain st1 where 1: "\<And>rest. run_loop (control_turn env) (map Recv_message before @ rest) ?st
        = run_loop (control_turn env) rest st1"
    "sp_notified st1 = sp_notified st @ map (Pair CONTROL) (valid_control env before)"
    "inbox (sp_control st1) Ct_control = []" "sp_messenger st1 = sp_messenger st" "\<not> runner_request_stop st1"
    using control_loop_prefix [OF assms(1), of before ?st] assms(2-4) by auto
  have "valid_control env [m] = [msg]" using assms(5) by (simp add: valid_control_def)
  with control_turn_message [OF assms(1) assms(2) 1(3,5), of m] assms(6) obtain st2 where
    2: "control_turn env (Recv_message m) st1 = (Inr Stopped, st2)"
      "sp_notified st2 = sp_notified st1 @ [(CONTROL, msg)]" "sp_messenger st2 = sp_messenger st1" by auto
  have "run_loop (control_turn env) (map Recv_message (before @ [m]) @ later) ?st = (Inr Stopped, st2)"
    using 1(1) [of "Recv_message m # later"] 2(1) by (simp add: seq_def prog_simps)
  then have "control_run_impl env (map Recv_message (before @ [m]) @ later) replies st =
      seq (split_stop_channels replies) (\<lambda>_. ret Stopped) st2"
    by (simp add: control_run_impl_resolved seq_def prog_simps)
  then show ?thesis
    using 1(2,4) 2(2,3)
    by (intro exI [of _ st2]) (auto simp: seq_def split_stop_channels_def on_messenger_eval prog_simps
        split: prod.split sum.split)
qed

lemma quiet_split_stops: "stops_on quiet_split_env (\<lambda>msg. True)"
  by (simp add: stops_on_def quiet_split_env_def runner_stop_impl_def prog_simps)

theorem control_run_until_stop_witness:
  "\<exists>st' msg. sp_notified st' = [(CONTROL, msg)] \<and> identities msg = [''id''] \<and>
    control_run_impl quiet_split_env (map Recv_message ([[''id'', ''garbage'']] @
        [[''id'', DELIMITER, ''s'', ''H'', ''{}'', ''{}'', ''{}'']]) @ [Recv_error EINTR]) (\<lambda>k. []) fresh_split =
      (Inl Blocks, st'\<lparr>sp_messenger := snd (messenger_stop_channels (\<lambda>k. []) empty_net)\<rparr>)"
proof -
  let ?m = "[''id'', DELIMITER, ''s'', ''H'', ''{}'', ''{}'', ''{}'']"
  let ?msg = "make_xmessage [''id''] \<lparr>m_header = JObj [(''msg_type'', JStr ''status'')], m_parent_header = JObj [],
          m_metadata = JObj [], m_content = JObj [], m_buffers = []\<rparr>"
  have m: "deserialize (env_json quiet_split_env) ?m (p_auth quiet_split_env) = Inr ?msg"
    using deserialize_found [of "[''id'']" "[''s'', ''H'', ''{}'', ''{}'', ''{}'']" sample_json no_xauthentication]
    by (simp add: deserialize_message_base_parts no_xauthentication_eq sample_json_def DELIMITER_def
        quiet_split_env_def)
  have none: "valid_control quiet_split_env [[''id'', ''garbage'']] = []"
    by (simp add: valid_control_def garbage_is_missing_delimiter)
  have "fst (messenger_stop_channels (\<lambda>k. []) empty_net) = Inl Blocks"
    by (simp add: messenger_stop_channels_def stop_exchange_def seq_def net_send_def net_recv_frame_def
        prog_simps arrive_def empty_net_def)
  then have stop: "messenger_stop_channels (\<lambda>k. []) empty_net
      = (Inl Blocks, snd (messenger_stop_channels (\<lambda>k. []) empty_net))"
    by (simp add: prod_eq_iff)
  have rd: "readable_message quiet_split_env x" if "x \<in> set ([[''id'', ''garbage'']] @ [?m])" for x
    using that m by (auto simp: readable_message_def garbage_is_missing_delimiter)
  have inb: "inbox (sp_control fresh_split) Ct_control = []" "sp_notified fresh_split = []"
    "sp_messenger fresh_split = empty_net"
    by (simp_all add: fresh_split_def empty_net_def)
  have "\<exists>st'. sp_notified st' = sp_notified fresh_split @ map (Pair CONTROL) (valid_control quiet_split_env [[''id'', ''garbage'']] @ [?msg]) \<and>
    control_run_impl quiet_split_env (map Recv_message ([[''id'', ''garbage'']] @ [?m]) @ [Recv_error EINTR]) (\<lambda>k. []) fresh_split =
      (case messenger_stop_channels (\<lambda>k. []) (sp_messenger fresh_split) of
         (Inl e, n) \<Rightarrow> (Inl e, st'\<lparr>sp_messenger := n\<rparr>)
       | (Inr _, n) \<Rightarrow> (Inr Stopped, st'\<lparr>sp_messenger := n\<rparr>))"
    by (rule control_run_until_stop [OF quiet_split_stops _ inb(1) _ m], erule rd) (simp_all add: none)
  then obtain st' where st': "sp_notified st' = [(CONTROL, ?msg)]"
    "control_run_impl quiet_split_env (map Recv_message ([[''id'', ''garbage'']] @ [?m]) @ [Recv_error EINTR]) (\<lambda>k. []) fresh_split =
      (Inl Blocks, st'\<lparr>sp_messenger := snd (messenger_stop_channels (\<lambda>k. []) empty_net)\<rparr>)"
    unfolding none inb(2,3) by (subst (asm) stop) auto
  moreover have "identities ?msg = [''id'']" by (simp add: make_xmessage_def)
  ultimately show ?thesis by blast
qed

end
