(* ===== verification/Client.thy ===== *)
theory Client
  imports Messengers Serializer
begin

text \<open>
  The client side (\<^verbatim>\<open>src/client\<close>): the thread that collects published messages, the
  thread that watches the kernel's heartbeat, the channels for requests, and the client that
  puts them together. Message queues, guarded by a mutex in the code, are lists; the methods
  that lock it are atomic operations on them.
\<close>

section \<open>The IOPub client\<close>

datatype iopub_socket = Io_iopub | Io_controller

record 'j iopub_client =
  io_net :: "iopub_socket net"
  m_message_queue :: "'j xpub_message list"

definition on_io :: "(iopub_socket net, 'a) prog \<Rightarrow> ('j iopub_client, 'a) prog" where
  "on_io = zoom io_net (\<lambda>n st. st\<lparr>io_net := n\<rparr>)"

definition xiopub_client_new :: "bind_result \<Rightarrow> xkernel_configuration \<Rightarrow> (iopub_socket wiring, unit) prog" where
  "xiopub_client_new bind config =
     (let iopub_end_point = get_end_point (m_transport config) (m_ip config) (m_iopub_port config)
      in seq (sock_connect Io_iopub iopub_end_point) (\<lambda>_.
         seq (sock_set Io_iopub (Subscribe [])) (\<lambda>_.
         init_socket_at bind Io_controller (get_controller_end_point ''iopub''))))"

definition xiopub_client_delete :: "string \<Rightarrow> (iopub_socket wiring, unit) prog" where
  "xiopub_client_delete iopub_end_point = sock_call Io_iopub (Disconnect iopub_end_point)"

definition iopub_queue_size :: "'j iopub_client \<Rightarrow> nat" where
  "iopub_queue_size st = length (m_message_queue st)"

definition pop_iopub_message :: "('j iopub_client, 'j xpub_message option) prog" where
  "pop_iopub_message st =
     (if m_message_queue st \<noteq> []
      then (let msg = last (m_message_queue st)
            in (Inr (Some msg), st\<lparr>m_message_queue := tl (m_message_queue st)\<rparr>))
      else (Inr None, st))"

definition iopub_turn :: "'j json_api \<Rightarrow> xauthentication \<Rightarrow> iopub_socket poll_result
    \<Rightarrow> ('j iopub_client, loop_status) prog" where
  "iopub_turn J auth poll = (case poll of
      Poll_error e \<Rightarrow> fail (Throws (Zmq_error e))
    | Poll_arrivals batch \<Rightarrow>
        seq (on_io (modify (arrive batch))) (\<lambda>_.
        seq (gets (\<lambda>st. readable (io_net st))) (\<lambda>revents.
        try_catch
          (seq (if revents Io_iopub
                then seq (on_io (net_recv Io_iopub)) (\<lambda>wire_msg.
                     seq (lift_res (deserialize_iopub J wire_msg auth)) (\<lambda>msg.
                     modify (\<lambda>st. st\<lparr>m_message_queue := m_message_queue st @ [msg]\<rparr>)))
                else ret ()) (\<lambda>_.
           if revents Io_controller
           then seq (on_io (net_recv Io_controller)) (\<lambda>wire_msg.
                seq (on_io (net_send Io_controller wire_msg)) (\<lambda>_. ret Stopped))
           else ret Running))
          (\<lambda>e. ret Running))))"

definition iopub_run where
  "iopub_run J auth = run_loop (iopub_turn J auth)"

section \<open>The heartbeat client\<close>

text \<open>
  \<open>hb_awaiting\<close> is the state ZeroMQ keeps for the REQ socket: after a request has been sent
  and until its reply has been read another send fails with EFSM. \<open>status_listener\<close> says whether a status listener
  is registered, and \<open>kernel_status\<close> records its calls; the retry counter of \<^verbatim>\<open>run\<close> is part of the state.
\<close>

datatype heartbeat_client_socket = Hc_heartbeat | Hc_controller

record heartbeat_client =
  hc_net :: "heartbeat_client_socket net"
  hb_awaiting :: bool
  hc_request_stop :: bool
  retry_count :: nat
  status_listener :: bool
  kernel_status :: "bool list"

definition EFSM :: errno where "EFSM = Other_errno 156384763"

definition on_hc :: "(heartbeat_client_socket net, 'a) prog \<Rightarrow> (heartbeat_client, 'a) prog" where
  "on_hc = zoom hc_net (\<lambda>n st. st\<lparr>hc_net := n\<rparr>)"

definition xheartbeat_client_new ::
  "bind_result \<Rightarrow> xkernel_configuration \<Rightarrow> (heartbeat_client_socket wiring, unit) prog" where
  "xheartbeat_client_new bind config =
     (let heartbeat_end_point = get_end_point (m_transport config) (m_ip config) (m_hb_port config)
      in seq (sock_connect Hc_heartbeat heartbeat_end_point) (\<lambda>_.
         init_socket_at bind Hc_controller (get_controller_end_point ''heartbeat'')))"

definition xheartbeat_client_delete :: "string \<Rightarrow> (heartbeat_client_socket wiring, unit) prog" where
  "xheartbeat_client_delete heartbeat_end_point = sock_call Hc_heartbeat (Disconnect heartbeat_end_point)"

definition send_heartbeat_message :: "(heartbeat_client, unit) prog" where
  "send_heartbeat_message =
     seq (gets hb_awaiting) (\<lambda>awaiting.
     if awaiting then fail (Throws (Zmq_error EFSM))
     else seq (on_hc (net_send Hc_heartbeat [''ping''])) (\<lambda>_.
          modify (\<lambda>st. st\<lparr>hb_awaiting := True\<rparr>)))"

definition wait_for_answer :: "heartbeat_client_socket poll_result \<Rightarrow> (heartbeat_client, bool) prog" where
  "wait_for_answer poll = (case poll of
      Poll_error e \<Rightarrow> fail (Throws (Zmq_error e))
    | Poll_arrivals batch \<Rightarrow>
        seq (on_hc (modify (arrive batch))) (\<lambda>_.
        seq (gets (\<lambda>st. readable (hc_net st))) (\<lambda>revents.
        try_catch
          (seq (if revents Hc_heartbeat
                then seq (on_hc (net_recv Hc_heartbeat)) (\<lambda>_. modify (\<lambda>st. st\<lparr>hb_awaiting := False\<rparr>))
                else ret ()) (\<lambda>_.
           seq (if revents Hc_controller
                then seq (on_hc (net_recv Hc_controller)) (\<lambda>wire_msg.
                     seq (on_hc (net_send Hc_controller wire_msg)) (\<lambda>_.
                     modify (\<lambda>st. st\<lparr>hc_request_stop := True\<rparr>)))
                else ret ()) (\<lambda>_.
           ret True)))
          (\<lambda>e. ret False))))"

definition register_kernel_status_listener :: "(heartbeat_client, unit) prog" where
  "register_kernel_status_listener = modify (\<lambda>st. st\<lparr>status_listener := True\<rparr>)"

definition notify_kernel_dead :: "bool \<Rightarrow> (heartbeat_client, unit) prog" where
  "notify_kernel_dead status =
     seq (gets status_listener) (\<lambda>registered.
     if registered then modify (\<lambda>st. st\<lparr>kernel_status := kernel_status st @ [status]\<rparr>)
     else fail (Throws Bad_function_call))"

definition heartbeat_client_turn :: "nat \<Rightarrow> heartbeat_client_socket poll_result
    \<Rightarrow> (heartbeat_client, loop_status) prog" where
  "heartbeat_client_turn max_retry poll =
     seq send_heartbeat_message (\<lambda>_.
     seq (wait_for_answer poll) (\<lambda>answered.
     seq (if \<not> answered
          then seq (gets retry_count) (\<lambda>retries.
               if retries < max_retry
               then seq (modify (\<lambda>st. st\<lparr>retry_count := Suc (retry_count st)\<rparr>)) (\<lambda>_. ret Running)
               else seq (notify_kernel_dead True) (\<lambda>_. ret Stopped))
          else seq (modify (\<lambda>st. st\<lparr>retry_count := 0\<rparr>)) (\<lambda>_. ret Running)) (\<lambda>status.
     seq (gets hc_request_stop) (\<lambda>stop.
     ret (if stop then Stopped else status)))))"

definition heartbeat_client_run :: "nat \<Rightarrow> heartbeat_client_socket poll_result list
    \<Rightarrow> (heartbeat_client, loop_status) prog" where
  "heartbeat_client_run max_retry polls =
     seq (modify (\<lambda>st. st\<lparr>retry_count := 0\<rparr>)) (\<lambda>_.
     seq (gets hc_request_stop) (\<lambda>stop.
     if stop then ret Stopped else run_loop (heartbeat_client_turn max_retry) polls))"

section \<open>Request channels and the client\<close>

datatype client_socket = Cl_shell | Cl_control

datatype 'j client_note = Shell_note "'j xmessage" | Control_note "'j xmessage" | Iopub_note "'j xpub_message"

record 'j client =
  cl_net :: "client_socket net"
  cl_iopub :: "'j iopub_client"
  client_notified :: "'j client_note list"

record 'j client_env =
  cl_json :: "'j json_api"
  cl_auth :: xauthentication
  cl_error_handler :: error_handler
  m_shell_listener :: "('j xmessage \<Rightarrow> ('j client, unit) prog) option"
  m_control_listener :: "('j xmessage \<Rightarrow> ('j client, unit) prog) option"
  m_iopub_listener :: "('j xpub_message \<Rightarrow> ('j client, unit) prog) option"

text \<open>The listeners, which are empty until they are registered; calling an empty one raises.\<close>

definition register_shell_listener where
  "register_shell_listener l env = env\<lparr>m_shell_listener := Some l\<rparr>"

definition register_control_listener where
  "register_control_listener l env = env\<lparr>m_control_listener := Some l\<rparr>"

definition register_iopub_listener where
  "register_iopub_listener l env = env\<lparr>m_iopub_listener := Some l\<rparr>"

definition call_listener :: "('a \<Rightarrow> ('st, unit) prog) option \<Rightarrow> 'a \<Rightarrow> ('st, unit) prog" where
  "call_listener l msg = (case l of None \<Rightarrow> fail (Throws Bad_function_call) | Some f \<Rightarrow> f msg)"

fun client_listener :: "'j client_env \<Rightarrow> 'j client_note \<Rightarrow> ('j client, unit) prog" where
  "client_listener env (Shell_note msg) = call_listener (m_shell_listener env) msg"
| "client_listener env (Control_note msg) = call_listener (m_control_listener env) msg"
| "client_listener env (Iopub_note msg) = call_listener (m_iopub_listener env) msg"

definition max_retry :: nat where "max_retry = 3"

definition heartbeat_timeout :: int where "heartbeat_timeout = 90"

definition on_cl :: "(client_socket net, 'a) prog \<Rightarrow> ('j client, 'a) prog" where
  "on_cl = zoom cl_net (\<lambda>n st. st\<lparr>cl_net := n\<rparr>)"

definition on_iopub :: "('j iopub_client, 'a) prog \<Rightarrow> ('j client, 'a) prog" where
  "on_iopub = zoom cl_iopub (\<lambda>i st. st\<lparr>cl_iopub := i\<rparr>)"

definition xdealer_channel_new :: "client_socket \<Rightarrow> string \<Rightarrow> string \<Rightarrow> string
    \<Rightarrow> (client_socket wiring, unit) prog" where
  "xdealer_channel_new s transport ip port = sock_connect s (get_end_point transport ip port)"

definition dealer_send_message :: "client_socket \<Rightarrow> multipart \<Rightarrow> ('j client, unit) prog" where
  "dealer_send_message s message = on_cl (net_send s message)"

definition dealer_receive_message :: "client_socket \<Rightarrow> bool \<Rightarrow> ('j client, multipart option) prog" where
  "dealer_receive_message s blocking =
     on_cl (if blocking then seq (net_recv s) (\<lambda>wire_msg. ret (Some wire_msg)) else net_recv_noblock s)"

definition client_send :: "client_socket \<Rightarrow> 'j client_env \<Rightarrow> 'j xmessage \<Rightarrow> ('j client, unit) prog" where
  "client_send s env msg =
     seq (lift_res (serialize (cl_json env) msg (cl_auth env) (cl_error_handler env))) (\<lambda>wire_msg.
     dealer_send_message s wire_msg)"

definition send_on_shell :: "'j client_env \<Rightarrow> 'j xmessage \<Rightarrow> ('j client, unit) prog" where
  "send_on_shell env msg = client_send Cl_shell env msg"

definition send_on_control :: "'j client_env \<Rightarrow> 'j xmessage \<Rightarrow> ('j client, unit) prog" where
  "send_on_control env msg = client_send Cl_control env msg"

definition client_receive :: "client_socket \<Rightarrow> 'j client_env \<Rightarrow> bool \<Rightarrow> ('j client, 'j xmessage option) prog" where
  "client_receive s env blocking =
     seq (dealer_receive_message s blocking) (\<lambda>wire_msg. case wire_msg of
       Some w \<Rightarrow> seq (lift_res (deserialize (cl_json env) w (cl_auth env))) (\<lambda>msg. ret (Some msg))
     | None \<Rightarrow> ret None)"

definition receive_on_shell where "receive_on_shell env blocking = client_receive Cl_shell env blocking"

definition receive_on_control where "receive_on_control env blocking = client_receive Cl_control env blocking"

definition client_notify :: "'j client_env \<Rightarrow> 'j client_note \<Rightarrow> ('j client, unit) prog" where
  "client_notify env note =
     seq (modify (\<lambda>st. st\<lparr>client_notified := client_notified st @ [note]\<rparr>)) (\<lambda>_. client_listener env note)"

text \<open>One turn of the loop of \<^verbatim>\<open>poll\<close>; \<open>Stopped\<close> is its return.\<close>

definition client_poll_turn :: "'j client_env \<Rightarrow> client_socket poll_result \<Rightarrow> ('j client, loop_status) prog" where
  "client_poll_turn env poll = (case poll of
      Poll_error e \<Rightarrow> fail (Throws (Zmq_error e))
    | Poll_arrivals batch \<Rightarrow>
        seq (on_cl (modify (arrive batch))) (\<lambda>_.
        seq (gets (\<lambda>st. readable (cl_net st))) (\<lambda>revents.
        try_catch
          (if revents Cl_shell
           then seq (on_cl (net_recv Cl_shell)) (\<lambda>wire_msg.
                seq (lift_res (deserialize (cl_json env) wire_msg (cl_auth env))) (\<lambda>msg.
                seq (client_notify env (Shell_note msg)) (\<lambda>_. ret Stopped)))
           else if revents Cl_control
           then seq (on_cl (net_recv Cl_control)) (\<lambda>wire_msg.
                seq (lift_res (deserialize (cl_json env) wire_msg (cl_auth env))) (\<lambda>msg.
                seq (client_notify env (Control_note msg)) (\<lambda>_. ret Stopped)))
           else ret Running)
          (\<lambda>e. ret Running))))"

definition client_poll where
  "client_poll env = run_loop (client_poll_turn env)"

definition wait_for_message :: "'j client_env \<Rightarrow> client_socket poll_result list \<Rightarrow> ('j client, loop_status) prog" where
  "wait_for_message env polls =
     seq (on_iopub pop_iopub_message) (\<lambda>pending_message. case pending_message of
       Some msg \<Rightarrow> seq (client_notify env (Iopub_note msg)) (\<lambda>_. ret Stopped)
     | None \<Rightarrow> client_poll env polls)"

section \<open>What the IOPub client delivers\<close>

text \<open>Popping \<open>n\<close> times.\<close>

fun pop_times :: "nat \<Rightarrow> ('j iopub_client, 'j xpub_message option list) prog" where
  "pop_times 0 = ret []"
| "pop_times (Suc n) = seq pop_iopub_message (\<lambda>m. seq (pop_times n) (\<lambda>ms. ret (m # ms)))"

lemma pop_iopub_message_eq:
  "pop_iopub_message st =
    (Inr (if m_message_queue st = [] then None else Some (last (m_message_queue st))),
     st\<lparr>m_message_queue := tl (m_message_queue st)\<rparr>)"
  by (simp add: pop_iopub_message_def Let_def)


fun iopub_note :: "'j json_api \<Rightarrow> xauthentication \<Rightarrow> iopub_socket \<times> multipart \<Rightarrow> 'j xpub_message list" where
  "iopub_note J auth (s, m) = (if s = Io_iopub
     then (case deserialize_iopub J m auth of Inr msg \<Rightarrow> [msg] | Inl f \<Rightarrow> []) else [])"

fun iopub_respond :: "iopub_socket \<Rightarrow> multipart \<Rightarrow> (iopub_socket \<times> multipart) list" where
  "iopub_respond Io_iopub m = []"
| "iopub_respond Io_controller m = sends Io_controller m"

definition collects :: "'j json_api \<Rightarrow> xauthentication \<Rightarrow> (iopub_socket \<times> multipart) list
    \<Rightarrow> 'j iopub_client \<Rightarrow> 'j iopub_client \<Rightarrow> bool" where
  "collects J auth arrived st st' \<longleftrightarrow> (\<exists>ms.
     received (io_net st') = received (io_net st) @ ms \<and>
     m_message_queue st' = m_message_queue st @ concat (map (iopub_note J auth) ms) \<and>
     outbox (io_net st') = outbox (io_net st) @ responses iopub_respond ms \<and>
     (\<forall>s. on_socket s ms @ inbox (io_net st') s = inbox (io_net st) s @ on_socket s arrived))"

lemma collects_refl: "collects J auth [] st st"
  unfolding collects_def by (intro exI [of _ "[]"]) simp

lemma collects_trans:
  assumes "collects J auth a st st'" "collects J auth b st' st''"
  shows "collects J auth (a @ b) st st''"
proof -
  from assms obtain ms ms' where
    1: "received (io_net st') = received (io_net st) @ ms"
       "m_message_queue st' = m_message_queue st @ concat (map (iopub_note J auth) ms)"
       "outbox (io_net st') = outbox (io_net st) @ responses iopub_respond ms"
       "\<And>s. on_socket s ms @ inbox (io_net st') s = inbox (io_net st) s @ on_socket s a" and
    2: "received (io_net st'') = received (io_net st') @ ms'"
       "m_message_queue st'' = m_message_queue st' @ concat (map (iopub_note J auth) ms')"
       "outbox (io_net st'') = outbox (io_net st') @ responses iopub_respond ms'"
       "\<And>s. on_socket s ms' @ inbox (io_net st'') s = inbox (io_net st') s @ on_socket s b"
    unfolding collects_def by blast
  have "on_socket s (ms @ ms') @ inbox (io_net st'') s = inbox (io_net st) s @ on_socket s (a @ b)" for s
  proof -
    have "on_socket s (ms @ ms') @ inbox (io_net st'') s = (on_socket s ms @ inbox (io_net st') s) @ on_socket s b"
      using 2(4) [of s] by simp
    then show ?thesis unfolding 1(4) by simp
  qed
  with 1(1-3) 2(1-3) show ?thesis
    unfolding collects_def by (intro exI [of _ "ms @ ms'"]) simp
qed

lemma on_io_eval: "on_io p st = (fst (p (io_net st)), st\<lparr>io_net := snd (p (io_net st))\<rparr>)"
  by (simp add: on_io_def zoom_def split_def Let_def)

definition iopub_readable :: "'j json_api \<Rightarrow> xauthentication \<Rightarrow> multipart \<Rightarrow> bool" where
  "iopub_readable J auth m \<longleftrightarrow>
     deserialize_iopub J m auth \<noteq> Inl Undefined \<and> deserialize_iopub J m auth \<noteq> Inl Blocks"

text \<open>The two halves of a turn.\<close>

lemma iopub_read_half:
  assumes n: "n = io_net st" and ok: "\<And>m. m \<in> set (inbox n Io_iopub) \<Longrightarrow> iopub_readable J auth m"
  shows "\<exists>st1 r. (if readable n Io_iopub
      then seq (on_io (net_recv Io_iopub)) (\<lambda>wire_msg.
           seq (lift_res (deserialize_iopub J wire_msg auth)) (\<lambda>msg.
           modify (\<lambda>st. st\<lparr>m_message_queue := m_message_queue st @ [msg]\<rparr>)))
      else ret ()) st = (r, st1) \<and> (r = Inr () \<or> (\<exists>e. r = Inl (Throws e))) \<and> collects J auth [] st st1 \<and>
      inbox (io_net st1) = (inbox n)(Io_iopub := tl (inbox n Io_iopub))"
proof (cases "inbox n Io_iopub")
  case Nil
  then have "inbox n = (inbox n)(Io_iopub := tl (inbox n Io_iopub))" by auto
  with Nil show ?thesis using n by (simp add: readable_def prog_simps collects_refl)
next
  case (Cons m ms)
  let ?st = "st\<lparr>io_net := n\<lparr>inbox := (inbox n)(Io_iopub := ms), received := received n @ [(Io_iopub, m)]\<rparr>\<rparr>"
  have read: "on_io (net_recv Io_iopub) st = (Inr m, ?st)"
    using Cons n by (simp add: on_io_eval net_recv_def)
  have inb: "on_socket s [(Io_iopub, m)] @ inbox (io_net ?st) s = inbox (io_net st) s" for s
    using Cons n by simp
  from ok Cons have m: "iopub_readable J auth m" by simp
  show ?thesis
  proof (cases "deserialize_iopub J m auth")
    case (Inl e)
    then have "collects J auth [] st ?st"
      unfolding collects_def using inb n by (intro exI [of _ "[(Io_iopub, m)]"]) simp
    with Inl m read Cons show ?thesis
      by (cases e) (auto simp: readable_def seq_def prog_simps iopub_readable_def)
  next
    case (Inr msg)
    then have "collects J auth [] st (?st\<lparr>m_message_queue := m_message_queue st @ [msg]\<rparr>)"
      unfolding collects_def using inb n by (intro exI [of _ "[(Io_iopub, m)]"]) simp
    with Inr read Cons show ?thesis by (simp add: readable_def seq_def prog_simps)
  qed
qed

lemma iopub_stop_half:
  assumes n: "n = io_net st"
  shows "\<exists>st1. (if inbox n Io_controller \<noteq> []
      then seq (on_io (net_recv Io_controller)) (\<lambda>wire_msg.
           seq (on_io (net_send Io_controller wire_msg)) (\<lambda>_. ret Stopped))
      else ret Running) st = (Inr (if inbox n Io_controller \<noteq> [] then Stopped else Running), st1) \<and>
      collects J auth [] st st1 \<and>
      inbox (io_net st1) Io_iopub = inbox n Io_iopub \<and>
      (inbox n Io_controller \<noteq> [] \<longrightarrow> (\<exists>r m. received (io_net st1) = r @ [(Io_controller, m)]))"
proof (cases "inbox n Io_controller")
  case Nil
  then show ?thesis using n by (simp add: prog_simps collects_refl)
next
  case (Cons m ms)
  let ?n = "n\<lparr>inbox := (inbox n)(Io_controller := ms), received := received n @ [(Io_controller, m)]\<rparr>"
  have "seq (on_io (net_recv Io_controller)) (\<lambda>wire_msg.
           seq (on_io (net_send Io_controller wire_msg)) (\<lambda>_. ret Stopped)) st
      = (Inr Stopped, st\<lparr>io_net := ?n\<lparr>outbox := outbox n @ sends Io_controller m\<rparr>\<rparr>)" (is "_ = (_, ?st)")
    using Cons n by (simp add: seq_def on_io_eval net_recv_def net_send_sends prog_simps)
  moreover have "collects J auth [] st ?st"
    unfolding collects_def using Cons n by (intro exI [of _ "[(Io_controller, m)]"]) simp
  ultimately show ?thesis using Cons by simp
qed

lemma collects_arrive:
  assumes "collects J auth [] (st\<lparr>io_net := arrive batch (io_net st)\<rparr>) st'"
  shows "collects J auth batch st st'"
  using assms by (auto simp: collects_def)

lemma iopub_turn_eq:
  assumes n: "n = arrive batch (io_net st)"
  shows "iopub_turn J auth (Poll_arrivals batch) st =
    try_catch (seq (if readable n Io_iopub
      then seq (on_io (net_recv Io_iopub)) (\<lambda>wire_msg.
           seq (lift_res (deserialize_iopub J wire_msg auth)) (\<lambda>msg.
           modify (\<lambda>st. st\<lparr>m_message_queue := m_message_queue st @ [msg]\<rparr>)))
      else ret ()) (\<lambda>_. if inbox n Io_controller \<noteq> []
      then seq (on_io (net_recv Io_controller)) (\<lambda>wire_msg.
           seq (on_io (net_send Io_controller wire_msg)) (\<lambda>_. ret Stopped))
      else ret Running)) (\<lambda>e. ret Running) (st\<lparr>io_net := n\<rparr>)"
proof -
  have "on_io (modify (arrive batch)) st = (Inr (), st\<lparr>io_net := n\<rparr>)" by (simp add: on_io_eval prog_simps n)
  then show ?thesis
    by (simp add: iopub_turn_def readable_def
        seq_eval(1) [where p = "on_io (modify (arrive batch))" and st = st and st' = "st\<lparr>io_net := n\<rparr>"])
qed

lemma iopub_turn_ok:
  assumes "\<And>m. m \<in> set (inbox (arrive batch (io_net st)) Io_iopub) \<Longrightarrow> iopub_readable J auth m"
  shows "\<exists>status st'. iopub_turn J auth (Poll_arrivals batch) st = (Inr status, st') \<and>
    collects J auth batch st st' \<and> set (inbox (io_net st') Io_iopub) \<subseteq> set (inbox (arrive batch (io_net st)) Io_iopub) \<and>
    (status = Stopped \<longrightarrow> (\<exists>r m. received (io_net st') = r @ [(Io_controller, m)]))"
proof -
  define n where n: "n = arrive batch (io_net st)"
  let ?st = "st\<lparr>io_net := n\<rparr>"
  let ?first = "if readable n Io_iopub
      then seq (on_io (net_recv Io_iopub)) (\<lambda>wire_msg.
           seq (lift_res (deserialize_iopub J wire_msg auth)) (\<lambda>msg.
           modify (\<lambda>st. st\<lparr>m_message_queue := m_message_queue st @ [msg]\<rparr>)))
      else ret ()"
  let ?second = "if inbox n Io_controller \<noteq> []
      then seq (on_io (net_recv Io_controller)) (\<lambda>wire_msg.
           seq (on_io (net_send Io_controller wire_msg)) (\<lambda>_. ret Stopped))
      else ret Running"
  note turn = iopub_turn_eq [OF n, of J auth]
  from iopub_read_half [of n ?st J auth] assms obtain st1 r where
    1: "?first ?st = (r, st1)" "r = Inr () \<or> (\<exists>e. r = Inl (Throws e))" "collects J auth [] ?st st1"
      "inbox (io_net st1) = (inbox n)(Io_iopub := tl (inbox n Io_iopub))"
    unfolding n by auto
  have sub: "set (inbox (io_net st1) Io_iopub) \<subseteq> set (inbox n Io_iopub)"
    using 1(4) by (cases "inbox n Io_iopub") auto
  from 1(2) show ?thesis
  proof
    assume "r = Inr ()"
    from iopub_stop_half [OF refl, of st1 J auth] 1(4) obtain st2 where
      2: "?second st1 = (Inr (if inbox n Io_controller \<noteq> [] then Stopped else Running), st2)"
        "collects J auth [] st1 st2" "inbox (io_net st2) Io_iopub = inbox (io_net st1) Io_iopub"
        "inbox n Io_controller \<noteq> [] \<longrightarrow> (\<exists>r m. received (io_net st2) = r @ [(Io_controller, m)])"
      by auto
    have "iopub_turn J auth (Poll_arrivals batch) st
        = (Inr (if inbox n Io_controller \<noteq> [] then Stopped else Running), st2)"
      unfolding turn using 1(1) \<open>r = Inr ()\<close> 2(1) by (simp add: try_catch_def seq_eval(1))
    moreover have "collects J auth batch st st2"
      using collects_trans [OF 1(3) 2(2)] by (simp add: n collects_arrive)
    ultimately show ?thesis using sub 2(3,4) by (auto simp flip: n)
  next
    assume "\<exists>e. r = Inl (Throws e)"
    then have "iopub_turn J auth (Poll_arrivals batch) st = (Inr Running, st1)"
      unfolding turn using 1(1) by (auto simp: try_catch_def seq_eval(2) prog_simps)
    then show ?thesis using sub collects_arrive [OF 1(3) [unfolded n]] by (auto simp flip: n)
  qed
qed

text \<open>
  The collecting thread puts into the queue exactly the valid published messages it reads,
  in order, skipping the others, and echoes the stop message; no message that can be read at all
  makes it fail, it reads each socket in order and loses nothing, and it stops only on the stop
  message, which is the last one it reads.
\<close>

lemma iopub_run_ok:
  assumes "\<And>e. e \<in> set polls \<Longrightarrow> \<exists>batch. e = Poll_arrivals batch"
    "\<And>m. (Io_iopub, m) \<in> set (concat (map arrivals polls)) \<Longrightarrow> iopub_readable J auth m"
    "\<And>m. m \<in> set (inbox (io_net st) Io_iopub) \<Longrightarrow> iopub_readable J auth m"
  shows "\<exists>status st' seen. run_loop (iopub_turn J auth) polls st = (Inr status, st') \<and> prefix seen polls \<and>
      (status = Running \<longrightarrow> seen = polls) \<and> collects J auth (concat (map arrivals seen)) st st' \<and>
      (status = Stopped \<longrightarrow> (\<exists>r m. received (io_net st') = r @ [(Io_controller, m)]))"
  using assms
proof (induction polls arbitrary: st)
  case Nil
  then show ?case by (simp add: prog_simps collects_refl)
next
  case (Cons e es)
  from Cons.prems(1) obtain batch where e: "e = Poll_arrivals batch" by auto
  have ok: "iopub_readable J auth m" if "m \<in> set (inbox (arrive batch (io_net st)) Io_iopub)" for m
    using that Cons.prems(2,3) e by (auto simp: on_socket_def)
  from iopub_turn_ok [OF ok] obtain s1 st1 where
    1: "iopub_turn J auth e st = (Inr s1, st1)" "collects J auth (arrivals e) st st1"
      "set (inbox (io_net st1) Io_iopub) \<subseteq> set (inbox (arrive batch (io_net st)) Io_iopub)"
      "s1 = Stopped \<longrightarrow> (\<exists>r m. received (io_net st1) = r @ [(Io_controller, m)])"
    unfolding e by force
  show ?case
  proof (cases s1)
    case Stopped
    with 1 show ?thesis
      by (intro exI [of _ Stopped] exI [of _ st1] exI [of _ "[e]"]) (simp add: seq_def prog_simps)
  next
    case Running
    have "\<exists>status st' seen. run_loop (iopub_turn J auth) es st1 = (Inr status, st') \<and> prefix seen es \<and>
      (status = Running \<longrightarrow> seen = es) \<and> collects J auth (concat (map arrivals seen)) st1 st' \<and>
      (status = Stopped \<longrightarrow> (\<exists>r m. received (io_net st') = r @ [(Io_controller, m)]))"
      using Cons.prems 1(3) ok by (intro Cons.IH) auto
    then obtain status st' seen where 2: "run_loop (iopub_turn J auth) es st1 = (Inr status, st')" "prefix seen es"
      "status = Running \<longrightarrow> seen = es" "collects J auth (concat (map arrivals seen)) st1 st'"
      "status = Stopped \<longrightarrow> (\<exists>r m. received (io_net st') = r @ [(Io_controller, m)])" by blast
    from collects_trans [OF 1(2) 2(4)] 1(1) 2 Running show ?thesis
      by (intro exI [of _ status] exI [of _ st'] exI [of _ "e # seen"]) (simp add: seq_def)
  qed
qed

section \<open>What the heartbeat client notices\<close>

lemma on_hc_eval: "on_hc p st = (fst (p (hc_net st)), st\<lparr>hc_net := snd (p (hc_net st))\<rparr>)"
  by (simp add: on_hc_def zoom_def split_def Let_def)

text \<open>One wait, whatever arrives: its answer and what it leaves.\<close>

lemma wait_for_answer_arrivals:
  "wait_for_answer (Poll_arrivals batch) st =
    (let n = arrive batch (hc_net st);
         n1 = (case inbox n Hc_heartbeat of [] \<Rightarrow> n
               | m # ms \<Rightarrow> n\<lparr>inbox := (inbox n)(Hc_heartbeat := ms), received := received n @ [(Hc_heartbeat, m)]\<rparr>);
         n2 = (case inbox n1 Hc_controller of [] \<Rightarrow> n1
               | m # ms \<Rightarrow> n1\<lparr>inbox := (inbox n1)(Hc_controller := ms), received := received n1 @ [(Hc_controller, m)],
                   outbox := outbox n1 @ sends Hc_controller m\<rparr>)
     in (Inr True, st\<lparr>hc_net := n2, hb_awaiting := hb_awaiting st \<and> inbox n Hc_heartbeat = [],
           hc_request_stop := hc_request_stop st \<or> inbox n Hc_controller \<noteq> []\<rparr>))"
proof -
  define n where n: "n = arrive batch (hc_net st)"
  have arr: "on_hc (modify (arrive batch)) st = (Inr (), st\<lparr>hc_net := n\<rparr>)"
    by (simp add: on_hc_eval prog_simps n)
  show ?thesis
    by (cases "inbox n Hc_heartbeat"; cases "inbox n Hc_controller")
      (simp_all add: wait_for_answer_def seq_eval(1) [where p = "on_hc (modify (arrive batch))" and st = st, OF arr] readable_def Let_def seq_def on_hc_eval try_catch_def
        net_recv_def net_send_sends prog_simps del: arrive_selects flip: n)
qed


text \<open>
  When the kernel does not answer within the timeout and no stop has been requested, the
  thread's next request, on a socket that still waits for a reply, raises EFSM out of \<^verbatim>\<open>run\<close>,
  long before the retries are used up.
\<close>

lemma heartbeat_client_dies_on_timeout:
  assumes "\<not> hb_awaiting st" "\<not> hc_request_stop st" "inbox (hc_net st) Hc_heartbeat = []"
    "inbox (hc_net st) Hc_controller = []"
  shows "\<exists>st'. heartbeat_client_run limit (Poll_arrivals [] # poll # polls) st
      = (Inl (Throws (Zmq_error EFSM)), st') \<and> kernel_status st' = kernel_status st \<and>
    outbox (hc_net st') = outbox (hc_net st) @ [(Hc_heartbeat, [''ping''])]"
proof -
  let ?st = "st\<lparr>retry_count := 0, hc_net := (hc_net st)\<lparr>outbox := outbox (hc_net st) @ [(Hc_heartbeat, [''ping''])]\<rparr>,
      hb_awaiting := True\<rparr>"
  obtain st1 where 1: "heartbeat_client_turn limit (Poll_arrivals []) (st\<lparr>retry_count := 0\<rparr>) = (Inr Running, st1)"
    "hb_awaiting st1" "kernel_status st1 = kernel_status st"
    "outbox (hc_net st1) = outbox (hc_net st) @ [(Hc_heartbeat, [''ping''])]"
    using assms by (auto simp: heartbeat_client_turn_def send_heartbeat_message_def seq_def on_hc_eval net_send_def
        prog_simps wait_for_answer_arrivals Let_def)
  then have "heartbeat_client_turn limit poll st1 = (Inl (Throws (Zmq_error EFSM)), st1)"
    by (simp add: heartbeat_client_turn_def send_heartbeat_message_def seq_def prog_simps)
  with 1 assms(2) show ?thesis by (simp add: heartbeat_client_run_def seq_def prog_simps)
qed

section \<open>What waiting for a message delivers\<close>

lemma on_cl_eval: "on_cl p st = (fst (p (cl_net st)), st\<lparr>cl_net := snd (p (cl_net st))\<rparr>)"
  by (simp add: on_cl_def zoom_def split_def Let_def)

fun note_of :: "client_socket \<Rightarrow> 'j xmessage \<Rightarrow> 'j client_note" where
  "note_of Cl_shell msg = Shell_note msg"
| "note_of Cl_control msg = Control_note msg"

text \<open>A listener that returns and does not read from the client's sockets.\<close>

definition listener_returns :: "'j client_env \<Rightarrow> bool" where
  "listener_returns env \<longleftrightarrow> (\<forall>note st. \<exists>st'. client_listener env note st = (Inr (), st') \<and>
     client_notified st' = client_notified st \<and> received (cl_net st') = received (cl_net st))"

text \<open>The code of \<^verbatim>\<open>poll\<close> for the socket that is readable.\<close>

definition client_serve :: "'j client_env \<Rightarrow> client_socket \<Rightarrow> ('j client, loop_status) prog" where
  "client_serve env s =
     seq (on_cl (net_recv s)) (\<lambda>wire_msg.
     seq (lift_res (deserialize (cl_json env) wire_msg (cl_auth env))) (\<lambda>msg.
     seq (client_notify env (note_of s msg)) (\<lambda>_. ret Stopped)))"

lemma client_poll_turn_eq:
  "client_poll_turn env (Poll_arrivals batch) st =
    (let n = arrive batch (cl_net st)
     in try_catch (if inbox n Cl_shell \<noteq> [] then client_serve env Cl_shell
                   else if inbox n Cl_control \<noteq> [] then client_serve env Cl_control
                   else ret Running) (\<lambda>e. ret Running) (st\<lparr>cl_net := n\<rparr>))"
proof -
  define n where n: "n = arrive batch (cl_net st)"
  have "on_cl (modify (arrive batch)) st = (Inr (), st\<lparr>cl_net := n\<rparr>)"
    by (simp add: on_cl_eval prog_simps n)
  then show ?thesis
    by (simp add: client_poll_turn_def client_serve_def readable_def Let_def del: arrive_selects flip: n
        add: seq_eval(1) [where p = "on_cl (modify (arrive batch))" and st = st and st' = "st\<lparr>cl_net := n\<rparr>"])
qed

lemma client_serve_cases:
  assumes "listener_returns env" "inbox (cl_net st) s = m # ms"
    "try_catch (client_serve env s) (\<lambda>e. ret Running) st = (Inr status, st')"
  shows "received (cl_net st') = received (cl_net st) @ [(s, m)] \<and>
    (case deserialize (cl_json env) m (cl_auth env) of
       Inr msg \<Rightarrow> status = Stopped \<and> client_notified st' = client_notified st @ [note_of s msg]
     | Inl f \<Rightarrow> (\<exists>e. f = Throws e) \<and> status = Running \<and> client_notified st' = client_notified st)"
proof -
  let ?st = "st\<lparr>cl_net := (cl_net st)\<lparr>inbox := (inbox (cl_net st))(s := ms), received := received (cl_net st) @ [(s, m)]\<rparr>\<rparr>"
  have read: "on_cl (net_recv s) st = (Inr m, ?st)" using assms(2) by (simp add: on_cl_eval net_recv_def)
  show ?thesis
  proof (cases "deserialize (cl_json env) m (cl_auth env)")
    case (Inl f)
    with assms(3) read show ?thesis
      by (cases f) (auto simp: client_serve_def seq_def try_catch_def prog_simps)
  next
    case (Inr msg)
    from assms(1) obtain st1 where "client_listener env (note_of s msg)
        (?st\<lparr>client_notified := client_notified st @ [note_of s msg]\<rparr>) = (Inr (), st1)"
      "client_notified st1 = client_notified st @ [note_of s msg]"
      "received (cl_net st1) = received (cl_net ?st)"
      unfolding listener_returns_def by fastforce
    with assms(3) read Inr show ?thesis
      by (auto simp: client_serve_def seq_def try_catch_def client_notify_def prog_simps)
  qed
qed

lemma client_poll_turn_cases:
  assumes "listener_returns env" "client_poll_turn env (Poll_arrivals batch) st = (Inr status, st')"
  shows "\<exists>ms. received (cl_net st') = received (cl_net st) @ ms \<and>
    (status = Running \<longrightarrow> client_notified st' = client_notified st \<and>
       (\<forall>(s, m) \<in> set ms. \<exists>e. deserialize (cl_json env) m (cl_auth env) = Inl (Throws e))) \<and>
    (status = Stopped \<longrightarrow> (\<exists>s m msg. ms = [(s, m)] \<and> deserialize (cl_json env) m (cl_auth env) = Inr msg \<and>
       client_notified st' = client_notified st @ [note_of s msg]))"
proof -
  define n where n: "n = arrive batch (cl_net st)"
  have serve: ?thesis if "inbox n s = m # ms"
    "try_catch (client_serve env s) (\<lambda>e. ret Running) (st\<lparr>cl_net := n\<rparr>) = (Inr status, st')" for s m ms
    using client_serve_cases [OF assms(1), of "st\<lparr>cl_net := n\<rparr>" s m ms status st'] that
    by (cases "deserialize (cl_json env) m (cl_auth env)") (auto simp: n intro!: exI [of _ "[(s, m)]"])
  show ?thesis
  proof (cases "inbox n Cl_shell")
    case (Cons m ms)
    with assms(2) show ?thesis
      by (intro serve [OF Cons]) (simp add: client_poll_turn_eq Let_def del: arrive_selects flip: n)
  next
    case Nil
    note no_shell = Nil
    show ?thesis
    proof (cases "inbox n Cl_control")
      case (Cons m ms)
      with assms(2) no_shell show ?thesis
        by (intro serve [OF Cons]) (simp add: client_poll_turn_eq Let_def del: arrive_selects flip: n)
    next
      case Nil
      with assms(2) no_shell have "status = Running" "st' = st\<lparr>cl_net := n\<rparr>"
        by (simp_all add: client_poll_turn_eq Let_def try_catch_def prog_simps del: arrive_selects flip: n)
      then show ?thesis by (intro exI [of _ "[]"]) (simp add: n)
    qed
  qed
qed

lemma client_poll_cases:
  assumes "listener_returns env" "client_poll env polls st = (Inr status, st')"
  shows "\<exists>bad. (\<forall>(s, m) \<in> set bad. \<exists>e. deserialize (cl_json env) m (cl_auth env) = Inl (Throws e)) \<and>
    (case status of
       Running \<Rightarrow> received (cl_net st') = received (cl_net st) @ bad \<and> client_notified st' = client_notified st
     | Stopped \<Rightarrow> (\<exists>s m msg. received (cl_net st') = received (cl_net st) @ bad @ [(s, m)] \<and>
         deserialize (cl_json env) m (cl_auth env) = Inr msg \<and>
         client_notified st' = client_notified st @ [note_of s msg]))"
  using assms(2) unfolding client_poll_def
proof (induction polls arbitrary: st)
  case Nil
  then show ?case by (intro exI [of _ "[]"]) (auto simp: prog_simps)
next
  case (Cons e es)
  then obtain s1 st1 where 1: "client_poll_turn env e st = (Inr s1, st1)"
    and rest: "(if s1 = Running then run_loop (client_poll_turn env) es else ret Stopped) st1 = (Inr status, st')"
    by (auto simp: seq_Inr_iff)
  from 1 obtain batch where e: "e = Poll_arrivals batch"
    by (cases e) (auto simp: client_poll_turn_def prog_simps)
  from client_poll_turn_cases [OF assms(1) 1 [unfolded e]] obtain ms where
    ms: "received (cl_net st1) = received (cl_net st) @ ms"
      "s1 = Running \<Longrightarrow> client_notified st1 = client_notified st"
      "s1 = Running \<Longrightarrow> \<forall>(s, m) \<in> set ms. \<exists>e. deserialize (cl_json env) m (cl_auth env) = Inl (Throws e)"
      "s1 = Stopped \<Longrightarrow> (\<exists>s m msg. ms = [(s, m)] \<and> deserialize (cl_json env) m (cl_auth env) = Inr msg \<and>
         client_notified st1 = client_notified st @ [note_of s msg])" by blast
  show ?case
  proof (cases s1)
    case Stopped
    with rest ms show ?thesis by (intro exI [of _ "[]"]) (auto simp: prog_simps)
  next
    case Running
    with rest have "run_loop (client_poll_turn env) es st1 = (Inr status, st')" by simp
    from Cons.IH [OF this] obtain bad where
      "\<forall>(s, m) \<in> set bad. \<exists>e. deserialize (cl_json env) m (cl_auth env) = Inl (Throws e)"
      "case status of
       Running \<Rightarrow> received (cl_net st') = received (cl_net st1) @ bad \<and> client_notified st' = client_notified st1
     | Stopped \<Rightarrow> (\<exists>s m msg. received (cl_net st') = received (cl_net st1) @ bad @ [(s, m)] \<and>
         deserialize (cl_json env) m (cl_auth env) = Inr msg \<and>
         client_notified st' = client_notified st1 @ [note_of s msg])" by blast
    with ms Running show ?thesis
      by (intro exI [of _ "ms @ bad"]) (auto split: loop_status.splits)
  qed
qed

lemma on_iopub_eval: "on_iopub p st = (fst (p (cl_iopub st)), st\<lparr>cl_iopub := snd (p (cl_iopub st))\<rparr>)"
  by (simp add: on_iopub_def zoom_def split_def Let_def)

text \<open>
  Waiting for a message, when it returns, has delivered exactly one: a published message when
  the queue holds one (the newest, see above), without reading any socket; else the first valid
  message read from the shell or control channel, every message read before it being invalid
  and dropped.
\<close>

lemma wait_for_message_delivers_one:
  assumes "listener_returns env" "wait_for_message env polls st = (Inr Stopped, st')"
  shows "if m_message_queue (cl_iopub st) \<noteq> []
    then received (cl_net st') = received (cl_net st) \<and>
      client_notified st' = client_notified st @ [Iopub_note (last (m_message_queue (cl_iopub st)))]
    else (\<exists>bad s m msg. received (cl_net st') = received (cl_net st) @ bad @ [(s, m)] \<and>
      (\<forall>(s, m) \<in> set bad. \<exists>e. deserialize (cl_json env) m (cl_auth env) = Inl (Throws e)) \<and>
      deserialize (cl_json env) m (cl_auth env) = Inr msg \<and>
      client_notified st' = client_notified st @ [note_of s msg])"
proof (cases "m_message_queue (cl_iopub st) = []")
  case False
  let ?q = "m_message_queue (cl_iopub st)"
  let ?st = "st\<lparr>cl_iopub := (cl_iopub st)\<lparr>m_message_queue := tl ?q\<rparr>,
      client_notified := client_notified st @ [Iopub_note (last ?q)]\<rparr>"
  from assms(1) obtain st1 where "client_listener env (Iopub_note (last ?q)) ?st = (Inr (), st1)"
    "client_notified st1 = client_notified ?st" "received (cl_net st1) = received (cl_net ?st)"
    unfolding listener_returns_def by blast
  with assms(2) False show ?thesis
    by (auto simp: wait_for_message_def seq_def on_iopub_eval pop_iopub_message_eq client_notify_def prog_simps)
next
  case True
  then have "cl_iopub st\<lparr>m_message_queue := []\<rparr> = cl_iopub st" by simp
  with assms(2) True have "client_poll env polls st = (Inr Stopped, st')"
    by (simp add: wait_for_message_def seq_def on_iopub_eval pop_iopub_message_eq prog_simps)
  from client_poll_cases [OF assms(1) this] True show ?thesis by fastforce
qed

definition quiet_client_env :: "jv client_env" where
  "quiet_client_env = \<lparr>cl_json = sample_json, cl_auth = no_xauthentication, cl_error_handler = strict,
     m_shell_listener = Some (\<lambda>msg. ret ()), m_control_listener = Some (\<lambda>msg. ret ()),
     m_iopub_listener = Some (\<lambda>msg. ret ())\<rparr>"

lemma quiet_client_listener: "client_listener quiet_client_env x = ret ()"
  by (cases x) (simp_all add: quiet_client_env_def call_listener_def)

end
