(* ===== verification/Handshake.thy ===== *)
theory Handshake
  imports Middleware Serializer
begin

text \<open>
  Registration of a kernel with its client: the kernel's side
  (\<^verbatim>\<open>src/server/xhandshaking.cpp\<close>), which sends the ports it has bound, and the client's side
  (\<^verbatim>\<open>src/client/xhandshake_client_zmq.cpp\<close>), which waits for them.
\<close>

record xregistration_configuration =
  r_transport :: string
  r_ip :: string
  m_registration_ip :: string
  m_registration_port :: string
  r_signature_scheme :: string
  r_key :: string
  m_kernel_id :: string

datatype xconfiguration = Kernel_config xkernel_configuration | Registration_config xregistration_configuration

text \<open>
  What \<^verbatim>\<open>xkernel_configuration\<close>, a type of xeus, is before its members are assigned is the
  parameter \<open>initial\<close>.
\<close>

fun get_kernel_configuration :: "xkernel_configuration \<Rightarrow> xconfiguration \<Rightarrow> xkernel_configuration" where
  "get_kernel_configuration initial (Kernel_config conf) = conf"
| "get_kernel_configuration initial (Registration_config conf) =
     initial\<lparr>m_transport := r_transport conf, m_ip := r_ip conf,
       m_signature_scheme := r_signature_scheme conf, c_key := r_key conf\<rparr>"

section \<open>The kernel's side\<close>

datatype handshake_socket = Hs_socket

text \<open>Either side has one socket: how it was set up, and its end of the network.\<close>

record handshake =
  hs_wiring :: "handshake_socket wiring"
  hs_net :: "handshake_socket net"

definition on_hs_wiring :: "(handshake_socket wiring, 'a) prog \<Rightarrow> (handshake, 'a) prog" where
  "on_hs_wiring = zoom hs_wiring (\<lambda>w st. st\<lparr>hs_wiring := w\<rparr>)"

definition on_hs_net :: "(handshake_socket net, 'a) prog \<Rightarrow> (handshake, 'a) prog" where
  "on_hs_net = zoom hs_net (\<lambda>n st. st\<lparr>hs_net := n\<rparr>)"

definition fresh_handshake :: handshake where
  "fresh_handshake = \<lparr>hs_wiring = [], hs_net = empty_net\<rparr>"

text \<open>
  A blocking receive; \<open>arrived\<close> is what has arrived when it ends, which is at the latest when the
  receive timeout of the socket has passed.
\<close>

definition handshake_recv :: "(handshake_socket \<times> multipart) list \<Rightarrow> (handshake, multipart option) prog" where
  "handshake_recv arrived =
     seq (on_hs_net (modify (arrive arrived))) (\<lambda>_.
     seq (gets (\<lambda>h. rcvtimeo (hs_wiring h) Hs_socket)) (\<lambda>timeo.
     on_hs_net (net_recv_timed timeo Hs_socket)))"

definition handshake_connect :: "xregistration_configuration \<Rightarrow> (handshake_socket wiring, unit) prog" where
  "handshake_connect regis_config =
     (let end_point = get_end_point (r_transport regis_config) (m_registration_ip regis_config)
            (m_registration_port regis_config)
      in seq (sock_set Hs_socket (Linger get_socket_linger)) (\<lambda>_.
         seq (sock_set Hs_socket (Rcvtimeo 5000)) (\<lambda>_.
         sock_connect Hs_socket end_point)))"

definition connection_info :: "'j json_api \<Rightarrow> xregistration_configuration \<Rightarrow> xkernel_configuration \<Rightarrow> 'j" where
  "connection_info J regis_config kernel_config = j_object J
     [(''kernel_id'', j_string J (m_kernel_id regis_config)),
      (''control_port'', j_string J (m_control_port kernel_config)),
      (''shell_port'', j_string J (m_shell_port kernel_config)),
      (''stdin_port'', j_string J (m_stdin_port kernel_config)),
      (''iopub_port'', j_string J (m_iopub_port kernel_config)),
      (''hb_port'', j_string J (m_hb_port kernel_config))]"

text \<open>
  When the receive times out it leaves the message empty; its result is not looked at.
\<close>

definition send_connection_info :: "'j json_api \<Rightarrow> xregistration_configuration \<Rightarrow> xkernel_configuration
    \<Rightarrow> xauthentication \<Rightarrow> error_handler \<Rightarrow> (handshake_socket \<times> multipart) list \<Rightarrow> (handshake, unit) prog" where
  "send_connection_info J regis_config kernel_config auth eh replies =
     seq (on_hs_wiring (handshake_connect regis_config)) (\<lambda>_.
     let wire_msg = serialize_zmq_id [] []
     in seq (lift_res (j_dump J eh (connection_info J regis_config kernel_config))) (\<lambda>content.
        let signature = sign1 auth content
        in seq (on_hs_net (net_send Hs_socket (wire_msg @ [signature, content]))) (\<lambda>_.
           seq (handshake_recv replies) (\<lambda>received_msg.
           let rep = (case received_msg of Some m \<Rightarrow> m | None \<Rightarrow> [])
           in seq (lift_res (deserialize_zmq_id rep)) (\<lambda>(_, rep).
              seq (lift_res (pop rep)) (\<lambda>(rep_sig, rep).
              seq (lift_res (pop rep)) (\<lambda>(rep_content, _).
              seq (lift_res (verify1 auth rep_sig rep_content)) (\<lambda>ok.
              if \<not> ok then fail (Throws (Runtime_error ''ERROR: Signatures don't match''))
              else ret ()))))))))"

section \<open>The client's side\<close>

text \<open>The socket is bound where the configuration says, or to the first free port drawn.\<close>

record xhandshake_client_zmq_impl =
  hx_key :: string
  hx_auth :: xauthentication

definition xhandshake_client_zmq_impl_new :: "'c mac_api \<Rightarrow> (bytes \<Rightarrow> string) \<Rightarrow> bind_result \<Rightarrow> (nat \<Rightarrow> int)
    \<Rightarrow> xregistration_configuration \<Rightarrow> (handshake, xhandshake_client_zmq_impl) prog" where
  "xhandshake_client_zmq_impl_new M hex_string bind draw config =
     seq (lift_res (make_xauthentication M hex_string (r_signature_scheme config) (r_key config))) (\<lambda>auth.
     seq (on_hs_wiring (init_socket bind draw Hs_socket (r_transport config) (m_registration_ip config)
            (m_registration_port config))) (\<lambda>_.
     ret \<lparr>hx_key = r_key config, hx_auth = auth\<rparr>))"

definition get_registration_port :: "handshake \<Rightarrow> string res" where
  "get_registration_port st = get_socket_port (query_end_point (hs_wiring st) Hs_socket)"

definition read_port :: "'j json_api \<Rightarrow> 'j \<Rightarrow> string \<Rightarrow> string res" where
  "read_port J j port = rbind (if j_contains J j port then j_at J j port else
       rbind (j_set J j port (j_null J)) (\<lambda>_. Inr (j_null J))) (j_get_string J)"

text \<open>
  The reply is signed under the fixed scheme, whatever the client's configuration says.
\<close>

definition wait_for_configuration :: "'j json_api \<Rightarrow> 'c mac_api \<Rightarrow> (bytes \<Rightarrow> string)
    \<Rightarrow> xkernel_configuration \<Rightarrow> string \<Rightarrow> (handshake_socket \<times> multipart) list \<Rightarrow> (handshake, xkernel_configuration) prog" where
  "wait_for_configuration J M hex_string initial key arrived =
     seq (handshake_recv arrived) (\<lambda>received_msg. case received_msg of
       None \<Rightarrow> fail (Throws (Runtime_error ''Did not receive kernel configuration''))
     | Some wire_msg \<Rightarrow>
         seq (lift_res (deserialize_zmq_id wire_msg)) (\<lambda>(routing_ids, wire_msg).
         seq (lift_res (pop wire_msg)) (\<lambda>(signature, wire_msg).
         seq (lift_res (pop wire_msg)) (\<lambda>(content, wire_msg).
         seq (lift_res (j_parse J content)) (\<lambda>j.
         seq (lift_res (read_port J j ''control_port'')) (\<lambda>control_port.
         seq (lift_res (read_port J j ''shell_port'')) (\<lambda>shell_port.
         seq (lift_res (read_port J j ''stdin_port'')) (\<lambda>stdin_port.
         seq (lift_res (read_port J j ''iopub_port'')) (\<lambda>iopub_port.
         seq (lift_res (read_port J j ''hb_port'')) (\<lambda>hb_port.
         let config = initial\<lparr>c_key := key, m_control_port := control_port,
               m_shell_port := shell_port, m_stdin_port := stdin_port,
               m_iopub_port := iopub_port, m_hb_port := hb_port\<rparr>
         in seq (lift_res (make_xauthentication M hex_string ''hmac-sha256'' key)) (\<lambda>auth.
            let signature = sign1 auth ''ACK''
            in seq (on_hs_net (net_send Hs_socket (serialize_zmq_id routing_ids [] @ [signature, ''ACK'']))) (\<lambda>_.
               ret config))))))))))))"

text \<open>\<^verbatim>\<open>xhandshake_client_zmq\<close>, through which a program uses it, forwards every call to the object it owns.\<close>

definition xhandshake_client_zmq_new :: "'c mac_api \<Rightarrow> (bytes \<Rightarrow> string) \<Rightarrow> bind_result \<Rightarrow> (nat \<Rightarrow> int)
    \<Rightarrow> xregistration_configuration \<Rightarrow> (handshake, xhandshake_client_zmq_impl) prog" where
  "xhandshake_client_zmq_new M hex_string bind draw config = xhandshake_client_zmq_impl_new M hex_string bind draw config"

definition hc_get_registration_port :: "handshake \<Rightarrow> string res" where
  "hc_get_registration_port st = get_registration_port st"

definition hc_wait_for_configuration :: "'j json_api \<Rightarrow> 'c mac_api \<Rightarrow> (bytes \<Rightarrow> string) \<Rightarrow> xkernel_configuration
    \<Rightarrow> xhandshake_client_zmq_impl \<Rightarrow> (handshake_socket \<times> multipart) list \<Rightarrow> (handshake, xkernel_configuration) prog" where
  "hc_wait_for_configuration J M hex_string initial p_client_impl arrived =
     wait_for_configuration J M hex_string initial (hx_key p_client_impl) arrived"

lemmas handshake_client_defs = xhandshake_client_zmq_new_def hc_get_registration_port_def hc_wait_for_configuration_def

section \<open>The exchange\<close>

text \<open>
  Documented behaviour of JSON objects, as a hypothesis on the object the kernel sends: its
  members are found, and a string reads as itself.
\<close>

definition members_found :: "'j json_api \<Rightarrow> (string \<times> 'j) list \<Rightarrow> bool" where
  "members_found J kvs \<longleftrightarrow> (\<forall>k v. map_of kvs k = Some v \<longrightarrow>
     j_contains J (j_object J kvs) k \<and> j_at J (j_object J kvs) k = Inr v) \<and>
     (\<forall>s. j_get_string J (j_string J s) = Inr s)"

lemma read_port_found:
  "members_found J kvs \<Longrightarrow> map_of kvs port = Some (j_string J p) \<Longrightarrow> read_port J (j_object J kvs) port = Inr p"
  by (simp add: members_found_def read_port_def)

definition reported_configuration :: "xkernel_configuration \<Rightarrow> string \<Rightarrow> xkernel_configuration \<Rightarrow> xkernel_configuration" where
  "reported_configuration initial key config = initial\<lparr>c_key := key,
     m_control_port := m_control_port config, m_shell_port := m_shell_port config,
     m_stdin_port := m_stdin_port config, m_iopub_port := m_iopub_port config, m_hb_port := m_hb_port config\<rparr>"

lemmas handshake_eval = on_hs_wiring_def on_hs_net_def zoom_def handshake_recv_def net_recv_timed_def seq_def prog_simps

lemma handshake_recv_one:
  assumes "inbox (hs_net st) Hs_socket = []"
  shows "\<exists>st'. handshake_recv [(Hs_socket, m)] st = (Inr (Some m), st') \<and> hs_wiring st' = hs_wiring st \<and>
    outbox (hs_net st') = outbox (hs_net st)"
  using assms by (simp add: handshake_eval arrive_def)

lemma handshake_recv_none:
  assumes "inbox (hs_net st) Hs_socket = []"
  shows "handshake_recv [] st = (if rcvtimeo (hs_wiring st) Hs_socket < 0 then Inl Blocks else Inr None, st)"
  using assms by (simp add: handshake_eval arrive_def)

lemma wait_for_configuration_eq:
  assumes "inbox (hs_net st) Hs_socket = []" "DELIMITER \<notin> set ids"
    "j_parse J content = Inr (connection_info J regis config)"
    "members_found J [(''kernel_id'', j_string J (m_kernel_id regis)),
      (''control_port'', j_string J (m_control_port config)), (''shell_port'', j_string J (m_shell_port config)),
      (''stdin_port'', j_string J (m_stdin_port config)), (''iopub_port'', j_string J (m_iopub_port config)),
      (''hb_port'', j_string J (m_hb_port config))]"
    "make_xauthentication M hex_string ''hmac-sha256'' key = Inr auth"
  shows "\<exists>st'. wait_for_configuration J M hex_string initial key [(Hs_socket, ids @ [DELIMITER, signature, content])] st
      = (Inr (reported_configuration initial key config), st') \<and>
    outbox (hs_net st') = outbox (hs_net st) @ [(Hs_socket, ids @ [DELIMITER, sign1 auth ''ACK'', ''ACK''])]"
  using assms
  by (simp add: wait_for_configuration_def handshake_eval arrive_def
      deserialize_zmq_id_found connection_info_def read_port_found Let_def serialize_zmq_id_def net_send_def
      reported_configuration_def)

lemma handshake_connect_eq:
  "handshake_connect regis w = (Inr (), w @ [(Hs_socket, Set_option (Linger get_socket_linger)),
     (Hs_socket, Set_option (Rcvtimeo 5000)),
     (Hs_socket, Connect (get_end_point (r_transport regis) (m_registration_ip regis) (m_registration_port regis)))])"
  by (simp add: handshake_connect_def Let_def seq_def sock_set_def sock_connect_def sock_call_def prog_simps)

lemma send_connection_info_replied:
  assumes "j_dump J eh (connection_info J regis config) = Inr content"
    "inbox (hs_net st) Hs_socket = []" "DELIMITER \<notin> set ids"
  shows "\<exists>st'. send_connection_info J regis config auth eh [(Hs_socket, ids @ [DELIMITER, s, c])] st
    = (case verify1 auth s c of
         Inl f \<Rightarrow> Inl f
       | Inr ok \<Rightarrow> if ok then Inr () else Inl (Throws (Runtime_error ''ERROR: Signatures don't match'')), st') \<and>
    hs_wiring st' = snd (handshake_connect regis (hs_wiring st)) \<and>
    outbox (hs_net st') = outbox (hs_net st) @ [(Hs_socket, [DELIMITER, sign1 auth content, content])]"
  using assms by (simp add: send_connection_info_def handshake_eval handshake_connect_eq arrive_def
      net_send_def serialize_zmq_id_def deserialize_zmq_id_found Let_def split: sum.split)

text \<open>
  A kernel that registers sends its ports, and the client, which sees the message with the
  kernel's routing identity in front, returns exactly those ports, with its own key and
  everything else as in a fresh configuration, the transport and the address among it; the acknowledgement it sends back, delivered to a kernel that uses
  the scheme hmac-sha256, is accepted.
\<close>

lemma handshake_reports_ports:
  assumes "j_dump J eh (connection_info J regis config) = Inr content"
    "j_parse J content = Inr (connection_info J regis config)"
    "members_found J [(''kernel_id'', j_string J (m_kernel_id regis)),
      (''control_port'', j_string J (m_control_port config)), (''shell_port'', j_string J (m_shell_port config)),
      (''stdin_port'', j_string J (m_stdin_port config)), (''iopub_port'', j_string J (m_iopub_port config)),
      (''hb_port'', j_string J (m_hb_port config))]"
    "make_xauthentication M hex_string ''hmac-sha256'' key = Inr auth"
    "peer \<noteq> DELIMITER" "inbox (hs_net kst) Hs_socket = []" "inbox (hs_net cst) Hs_socket = []"
  shows "\<exists>kernel_msg ack kst' cst'.
    send_connection_info J regis config auth eh [(Hs_socket, ack)] kst = (Inr (), kst') \<and>
    hs_wiring kst' = snd (handshake_connect regis (hs_wiring kst)) \<and>
    outbox (hs_net kst') = outbox (hs_net kst) @ [(Hs_socket, kernel_msg)] \<and>
    wait_for_configuration J M hex_string initial key [(Hs_socket, peer # kernel_msg)] cst
      = (Inr (reported_configuration initial key config), cst') \<and>
    outbox (hs_net cst') = outbox (hs_net cst) @ [(Hs_socket, peer # ack)]"
proof -
  let ?ack = "[DELIMITER, sign1 auth ''ACK'', ''ACK'']"
  let ?msg = "[DELIMITER, sign1 auth content, content]"
  have "authenticator auth" using assms(4) by (rule make_xauthentication_authenticator)
  then have "verify1 auth (sign1 auth ''ACK'') ''ACK'' = Inr True" by (rule authenticator.verify_sign1)
  with send_connection_info_replied [OF assms(1,6), of "[]" auth "sign1 auth ''ACK''" "''ACK''"]
  obtain kst' where "send_connection_info J regis config auth eh [(Hs_socket, ?ack)] kst = (Inr (), kst')"
      "hs_wiring kst' = snd (handshake_connect regis (hs_wiring kst))"
      "outbox (hs_net kst') = outbox (hs_net kst) @ [(Hs_socket, ?msg)]" by auto
  moreover obtain cst' where "wait_for_configuration J M hex_string initial key [(Hs_socket, peer # ?msg)] cst
      = (Inr (reported_configuration initial key config), cst')"
      "outbox (hs_net cst') = outbox (hs_net cst) @ [(Hs_socket, peer # ?ack)]"
    using wait_for_configuration_eq [OF assms(7) _ assms(2-4), of "[peer]" initial "sign1 auth content"] assms(5)
    by auto
  ultimately show ?thesis by blast
qed

definition sample_registration :: xregistration_configuration where
  "sample_registration = \<lparr>r_transport = ''tcp'', r_ip = ''127.0.0.1'', m_registration_ip = ''127.0.0.1'',
     m_registration_port = ''4000'', r_signature_scheme = ''hmac-sha256'', r_key = ''k'', m_kernel_id = ''kid''\<rparr>"

definition blank_configuration :: xkernel_configuration where
  "blank_configuration = \<lparr>m_transport = ''tcp'', m_ip = ''127.0.0.1'', m_control_port = [], m_shell_port = [],
     m_stdin_port = [], m_iopub_port = [], m_hb_port = [], m_signature_scheme = ''hmac-sha256'', c_key = [],
     m_curve_public_key = [], m_curve_secret_key = []\<rparr>"

definition sample_ports :: xkernel_configuration where
  "sample_ports = blank_configuration\<lparr>m_control_port := ''50001'', m_shell_port := ''50002'', m_stdin_port := ''50003'',
     m_iopub_port := ''50004'', m_hb_port := ''50005''\<rparr>"

definition info_json :: "jv json_api" where
  "info_json = table_json [(''INFO'', connection_info (table_json []) sample_registration sample_ports)]"

lemma info_json_reads:
  "j_dump info_json strict (connection_info info_json sample_registration sample_ports) = Inr ''INFO''"
  "j_parse info_json ''INFO'' = Inr (connection_info info_json sample_registration sample_ports)"
  "members_found info_json kvs"
  by (auto simp: info_json_def connection_info_def members_found_def table_json_def)

text \<open>
  The client does not look at the signature of a registration message: what it returns and
  what it answers are the same for every signature.
\<close>

lemma registration_signature_unchecked:
  assumes "DELIMITER \<notin> set ids" "inbox (hs_net st) Hs_socket = []"
  shows "let (result, st1) = wait_for_configuration J M hex_string initial key [(Hs_socket, ids @ [DELIMITER, signature, content])] st;
      (result', st2) = wait_for_configuration J M hex_string initial key [(Hs_socket, ids @ [DELIMITER, signature', content])] st
    in result = result' \<and> outbox (hs_net st1) = outbox (hs_net st2)"
proof -
  define reply where "reply = seq (lift_res (j_parse J content)) (\<lambda>j.
         seq (lift_res (read_port J j ''control_port'')) (\<lambda>control_port.
         seq (lift_res (read_port J j ''shell_port'')) (\<lambda>shell_port.
         seq (lift_res (read_port J j ''stdin_port'')) (\<lambda>stdin_port.
         seq (lift_res (read_port J j ''iopub_port'')) (\<lambda>iopub_port.
         seq (lift_res (read_port J j ''hb_port'')) (\<lambda>hb_port.
         seq (lift_res (make_xauthentication M hex_string ''hmac-sha256'' key)) (\<lambda>auth.
         seq (on_hs_net (net_send Hs_socket (ids @ [DELIMITER, sign1 auth ''ACK'', ''ACK'']))) (\<lambda>_.
           ret (initial\<lparr>c_key := key, m_control_port := control_port,
               m_shell_port := shell_port, m_stdin_port := stdin_port,
               m_iopub_port := iopub_port, m_hb_port := hb_port\<rparr>)))))))))"
  have "\<exists>st'. wait_for_configuration J M hex_string initial key [(Hs_socket, ids @ [DELIMITER, s, content])] st = reply st' \<and>
      outbox (hs_net st') = outbox (hs_net st)" for s
    using handshake_recv_one [OF assms(2), of "ids @ [DELIMITER, s, content]"] assms(1)
    by (auto simp: wait_for_configuration_def reply_def seq_eval deserialize_zmq_id_found serialize_zmq_id_def Let_def lift_res_def)
  moreover have "fst (reply s) = fst (reply s')" "outbox (hs_net s) = outbox (hs_net s') \<Longrightarrow>
      outbox (hs_net (snd (reply s))) = outbox (hs_net (snd (reply s')))" for s s'
    by (simp_all add: reply_def seq_def lift_res_def on_hs_net_def zoom_def net_send_def ret_def split: prod.split sum.split)
  ultimately show ?thesis by (simp add: Let_def case_prod_beta) metis
qed

text \<open>
  When the client does not answer within the five seconds of the kernel's receive, the
  kernel does not report a timeout: it pops a frame from the empty message, which is undefined
  behaviour.
\<close>

lemma registration_timeout_is_undefined:
  assumes "j_dump J eh (connection_info J regis config) = Inr content" "inbox (hs_net st) Hs_socket = []"
  shows "fst (send_connection_info J regis config auth eh [] st) = Inl Undefined"
  using assms by (simp add: send_connection_info_def handshake_eval arrive_def handshake_connect_eq rcvtimeo_def
      net_send_def deserialize_zmq_id_def Let_def)

text \<open>
  The client's socket has no receive timeout: a client that no kernel registers with waits for ever, and the
  exception that says that no configuration was received is never thrown.
\<close>

lemma waiting_for_a_kernel_never_fails:
  assumes "xhandshake_client_zmq_impl_new M hex_string bind draw config fresh_handshake = (Inr hc, st)"
  shows "fst (wait_for_configuration J M hex_string initial (hx_key hc) [] st) = Inl Blocks"
proof -
  have "inbox (hs_net st) Hs_socket = [] \<and> rcvtimeo (hs_wiring st) Hs_socket = -1"
    using assms
    by (auto simp: xhandshake_client_zmq_impl_new_def handshake_eval fresh_handshake_def empty_net_def init_socket_def
        sock_set_def sock_call_def sock_bind_def find_free_port_impl_eq rcvtimeo_def split: sum.splits if_splits option.splits)
  then show ?thesis by (simp add: wait_for_configuration_def seq_eval handshake_recv_none)
qed

text \<open>
  The client acknowledges under hmac-sha256 whatever scheme the kernel was configured with: a
  kernel that uses another digest refuses a client holding the right key, whenever the two
  digests of the acknowledgement differ and have the same length.
\<close>

lemma handshake_fails_under_other_digest:
  assumes "mac_computes M hmac"
    "make_xauthentication M hex_string scheme key = Inr kernel_auth" "scheme \<noteq> ''none''"
    "make_xauthentication M hex_string ''hmac-sha256'' key = Inr client_auth"
    "hex_string (hmac key (map toupper (drop 5 scheme)) ''ACK'') \<noteq> hex_string (hmac key ''SHA256'' ''ACK'')"
    "length (hex_string (hmac key (map toupper (drop 5 scheme)) ''ACK'')) = length (hex_string (hmac key ''SHA256'' ''ACK''))"
    "j_dump J eh (connection_info J regis config) = Inr content" "inbox (hs_net st) Hs_socket = []"
  shows "fst (send_connection_info J regis config kernel_auth eh
      [(Hs_socket, [DELIMITER, sign1 client_auth ''ACK'', ''ACK''])] st)
    = Inl (Throws (Runtime_error ''ERROR: Signatures don't match''))"
proof -
  from assms(2,3) obtain a where a: "make_openssl_xauthentication M scheme key = Inr a"
      "kernel_auth = openssl_methods M hex_string a" by (auto elim: make_xauthentication_cases)
  from assms(4) obtain b where b: "make_openssl_xauthentication M ''hmac-sha256'' key = Inr b"
      "client_auth = openssl_methods M hex_string b" by (auto elim: make_xauthentication_cases)
  have "sign1 client_auth ''ACK'' = hex_string (hmac key ''SHA256'' ''ACK'')"
    using make_openssl_fields [OF b(1)] b(2)
    by (simp add: openssl_methods_eq compute_hex_signature1_value [OF assms(1)] toupper_def char_of_def bit_Suc_0_iff)
  moreover have "verify1 kernel_auth s ''ACK'' = memcmp_signature (hex_string (hmac key (map toupper (drop 5 scheme)) ''ACK'')) s" for s
    using make_openssl_fields [OF a(1)] a(2)
    by (simp add: openssl_methods_eq compute_hex_signature1_value [OF assms(1)])
  ultimately have "verify1 kernel_auth (sign1 client_auth ''ACK'') ''ACK'' = Inr False"
    using assms(5,6) by (simp add: memcmp_signature_def)
  then show ?thesis
    using send_connection_info_replied [OF assms(7,8), of "[]" kernel_auth "sign1 client_auth ''ACK''" "''ACK''"] by auto
qed

end
