(* ===== verification/Dap_Client.thy ===== *)
theory Dap_Client
  imports Dap_Framing Serializer Middleware
begin

text \<open>
  The Debug Adapter Protocol client (\<^verbatim>\<open>src/debugger/xdap_tcp_client_impl.cpp\<close>), which
  stands between the kernel's control channel and a debug adapter on a TCP connection. The
  stream \<open>tcp_in\<close> is all the adapter still sends, as the frames that successive receives
  yield; \<open>tcp_out\<close> is what has been sent to it. The callback of the constructor and the
  virtual handler of events are parameters: the callback works on a state of its own, of type
  \<open>'u\<close>, and the handler, a subclass's code, on the whole client.
\<close>

section \<open>State\<close>

datatype dap_socket = Dp_tcp | Dp_publisher | Dp_controller | Dp_controller_header

datatype dap_tcp_type = client_type | server_type

datatype dap_init_type = sequential | parallel

record 'u dap_client =
  dp_net :: "dap_socket net"
  dp_wiring :: "dap_socket wiring"
  tcp_in :: "frame list"
  tcp_out :: "frame list"
  m_socket_id :: frame
  dp_parent_header :: string
  dp_request_stop :: bool
  m_wait_attach :: bool
  dp_message_queue :: "string list"
  m_stopped_queue :: "string list"
  dp_user :: 'u

record ('j, 'u) dap_env =
  dp_json :: "'j json_api"
  dp_auth :: xauthentication
  m_dap_tcp_type :: dap_tcp_type
  m_dap_init_type :: dap_init_type
  m_user_name :: string
  m_session_id :: string
  m_event_callback :: "'j \<Rightarrow> ('u, unit) prog"
  m_event_handler :: "'j \<Rightarrow> ('u dap_client, unit) prog"
  dp_make_header :: "string \<Rightarrow> string \<Rightarrow> string \<Rightarrow> 'j"
  dp_bind :: bind_result
  dp_routing_id :: string
  dp_fuel :: nat

definition on_dp :: "(dap_socket net, 'a) prog \<Rightarrow> ('u dap_client, 'a) prog" where
  "on_dp = zoom dp_net (\<lambda>n st. st\<lparr>dp_net := n\<rparr>)"

definition on_wiring :: "(dap_socket wiring, 'a) prog \<Rightarrow> ('u dap_client, 'a) prog" where
  "on_wiring = zoom dp_wiring (\<lambda>w st. st\<lparr>dp_wiring := w\<rparr>)"

definition on_user :: "('u, 'a) prog \<Rightarrow> ('u dap_client, 'a) prog" where
  "on_user = zoom dp_user (\<lambda>u st. st\<lparr>dp_user := u\<rparr>)"

text \<open>The constructor: the options of the four sockets, and no identity or header yet.\<close>

definition make_dap_client :: "int \<Rightarrow> 'u \<Rightarrow> frame list \<Rightarrow> 'u dap_client" where
  "make_dap_client socket_linger user stream =
     \<lparr>dp_net = empty_net,
      dp_wiring = map (\<lambda>s. (s, Set_option (Linger socket_linger)))
        [Dp_tcp, Dp_publisher, Dp_controller, Dp_controller_header],
      tcp_in = stream, tcp_out = [], m_socket_id = [], dp_parent_header = [],
      dp_request_stop = False, m_wait_attach = False, dp_message_queue = [], m_stopped_queue = [],
      dp_user = user\<rparr>"

section \<open>Talking to the adapter\<close>

definition get_tcp_id :: "'u dap_client \<Rightarrow> frame" where "get_tcp_id st = m_socket_id st"

text \<open>The two frames a message on the stream socket is sent as.\<close>

definition tcp_send :: "string \<Rightarrow> ('u dap_client, unit) prog" where
  "tcp_send raw_message = modify (\<lambda>st. st\<lparr>tcp_out := tcp_out st @ [get_tcp_id st, raw_message]\<rparr>)"

definition send_dap_request :: "('j, 'u) dap_env \<Rightarrow> 'j \<Rightarrow> ('u dap_client, unit) prog" where
  "send_dap_request env message =
     seq (lift_res (j_dump (dp_json env) strict message)) (\<lambda>content.
     tcp_send (dap_buffer content))"

section \<open>Waiting for a message\<close>

text \<open>The search of the message queue: the message found and the queue without it.\<close>

fun find_queued :: "'j json_api \<Rightarrow> ('j \<Rightarrow> bool res) \<Rightarrow> string list \<Rightarrow> ('j \<times> string list) option res" where
  "find_queued J condition [] = Inr None"
| "find_queued J condition (raw_message # queue) =
     rbind (j_parse J raw_message) (\<lambda>message.
     rbind (condition message) (\<lambda>holds.
       if holds then Inr (Some (message, queue))
       else rbind (find_queued J condition queue) (\<lambda>found. case found of
              Some (m, q) \<Rightarrow> Inr (Some (m, raw_message # q))
            | None \<Rightarrow> Inr None)))"

text \<open>
  The inner loop over a batch of messages: the last one that satisfies the condition is kept in
  \<open>found\<close>, the others go to the message queue. It yields what is left of the batch and
  the queue even when it fails.
\<close>

fun drain_batch :: "'j json_api \<Rightarrow> ('j \<Rightarrow> bool res) \<Rightarrow> 'j option \<Rightarrow> string list \<Rightarrow> string list
    \<Rightarrow> 'j option res \<times> string list \<times> string list" where
  "drain_batch J condition found [] queue = (Inr found, [], queue)"
| "drain_batch J condition found (raw_message # batch) queue =
     (case rbind (j_parse J raw_message) (\<lambda>m. rbind (condition m) (\<lambda>holds. Inr (m, holds))) of
        Inl e \<Rightarrow> (Inl e, raw_message # batch, queue)
      | Inr (tmp_message, holds) \<Rightarrow>
          if holds then drain_batch J condition (Some tmp_message) batch queue
          else drain_batch J condition found batch (queue @ [raw_message]))"

lemma handle_tcp_loop_consumes:
  "handle_tcp_loop ins buffer header_pos hint q = Inr (ins', q') \<Longrightarrow>
   length ins' \<le> length ins \<and> (header_pos = None \<longrightarrow> length ins' < length ins)"
proof (induction ins buffer header_pos hint q rule: handle_tcp_loop.induct)
  case (1 ins buffer header_pos hint q)
  from 1(2) obtain ins1 buffer1 hpos ins2 buffer2 spos field size ins3 buffer3 where
    s: "search_loop HEADER hint ins buffer header_pos = Inr (ins1, buffer1, hpos)"
      "search_loop SEPARATOR (hpos + HEADER_LENGTH) ins1 buffer1 (str_find buffer1 SEPARATOR (hpos + HEADER_LENGTH))
        = Inr (ins2, buffer2, spos)"
      "substr_len buffer2 (hpos + HEADER_LENGTH) spos = Inr field" "stoull field = Inr size"
      "size_loop (spos + SEPARATOR_LENGTH) size ins2 buffer2 = Inr (ins3, buffer3)"
    and rest: "(if length buffer3 - (spos + SEPARATOR_LENGTH) = size
       then Inr (ins3, q @ [drop (spos + SEPARATOR_LENGTH) buffer3])
       else handle_tcp_loop ins3 buffer3 (str_find buffer3 HEADER (spos + SEPARATOR_LENGTH + size))
              (spos + SEPARATOR_LENGTH + size) (q @ [take size (drop (spos + SEPARATOR_LENGTH) buffer3)]))
       = Inr (ins', q')"
    unfolding handle_tcp_loop.simps [of ins buffer header_pos hint q] rbind_Inr_iff Let_def
    by (auto simp: res_simps)
  note p = search_loop_progress [OF s(1)] search_loop_progress [OF s(2)] size_loop_progress [OF s(5)]
  have "length ins' \<le> length ins3"
  proof (cases "length buffer3 - (spos + SEPARATOR_LENGTH) = size")
    case False
    with rest 1(1) [OF s(1) refl refl refl s(2) refl refl s(3,4) refl s(5) refl] show ?thesis by auto
  qed (use rest in simp)
  with p show ?case by auto
qed

lemma handle_tcp_socket_consumes [termination_simp]:
  "handle_tcp_socket ins q = Inr (ins', q') \<Longrightarrow> length ins' < length ins"
  using handle_tcp_loop_consumes by (auto simp: handle_tcp_socket_def)

text \<open>The outer loop, which ends when a batch held a message that satisfies the condition.\<close>

function wait_loop :: "'j json_api \<Rightarrow> ('j \<Rightarrow> bool res) \<Rightarrow> frame list \<Rightarrow> string list \<Rightarrow> string list
    \<Rightarrow> 'j res \<times> frame list \<times> string list \<times> string list" where
  "wait_loop J condition ins stopped queue =
     (case handle_tcp_socket ins stopped of
        Inl e \<Rightarrow> (Inl e, ins, stopped, queue)
      | Inr (ins', batch) \<Rightarrow>
          (case drain_batch J condition None batch queue of
             (Inl e, left, queue') \<Rightarrow> (Inl e, ins', left, queue')
           | (Inr (Some message), left, queue') \<Rightarrow> (Inr message, ins', left, queue')
           | (Inr None, left, queue') \<Rightarrow> wait_loop J condition ins' left queue'))"
  by pat_completeness auto
termination
  by (relation "measure (\<lambda>(J, condition, ins, stopped, queue). length ins)") (auto simp: handle_tcp_socket_consumes)

declare wait_loop.simps [simp del]

definition dap_wait_for_message :: "('j, 'u) dap_env \<Rightarrow> ('j \<Rightarrow> bool res) \<Rightarrow> ('u dap_client, 'j) prog" where
  "dap_wait_for_message env condition st =
     (case find_queued (dp_json env) condition (dp_message_queue st) of
        Inl e \<Rightarrow> (Inl e, st)
      | Inr (Some (message, queue)) \<Rightarrow> (Inr message, st\<lparr>dp_message_queue := queue\<rparr>)
      | Inr None \<Rightarrow>
          (let (result, ins, stopped, queue) = wait_loop (dp_json env) condition (tcp_in st)
                 (m_stopped_queue st) (dp_message_queue st)
           in (result, st\<lparr>tcp_in := ins, m_stopped_queue := stopped, dp_message_queue := queue\<rparr>)))"

section \<open>Forwarding events\<close>

text \<open>
  \<^verbatim>\<open>message["type"] == "event" && message["event"] == "stopped" &&
  message["body"]["allThreadsStopped"]\<close>, on a message that is not constant: members that
  are missing are added to it as null. The conversion of the last operand to \<^verbatim>\<open>bool\<close> is a type
  error unless it is a boolean.
\<close>

definition stopped_all_threads :: "'j json_api \<Rightarrow> 'j \<Rightarrow> (bool \<times> 'j) res" where
  "stopped_all_threads J message =
     rbind (j_index J message ''type'') (\<lambda>(message, tp).
     if tp \<noteq> j_string J ''event'' then Inr (False, message)
     else rbind (j_index J message ''event'') (\<lambda>(message, ev).
     if ev \<noteq> j_string J ''stopped'' then Inr (False, message)
     else rbind (j_index2 J message ''body'' ''allThreadsStopped'') (\<lambda>(message, flag).
          rbind (j_get_bool J flag) (\<lambda>b. Inr (b, message)))))"

definition is_threads_response :: "'j json_api \<Rightarrow> 'j \<Rightarrow> bool res" where
  "is_threads_response J msg =
     (if j_contains J msg ''command'' then j_path_is J msg [''command''] ''threads'' else Inr False)"

definition threads_request :: "'j json_api \<Rightarrow> int \<Rightarrow> 'j" where
  "threads_request J seq_no = j_object J
     [(''seq'', j_number J seq_no), (''type'', j_string J ''request''), (''command'', j_string J ''threads'')]"

text \<open>
  \<^verbatim>\<open>message["seq"].get<int>() + 1\<close>; when the member is missing the null that is inserted for
  it is no integer, and the call fails, so the change of the message does not outlive it.
\<close>

definition next_seq :: "'j json_api \<Rightarrow> 'j \<Rightarrow> int res" where
  "next_seq J message =
     rbind (j_index J message ''seq'') (\<lambda>(_, n). rbind (j_get_int J n) int_succ)"

text \<open>The identifiers of the threads of a response, each read by \<^verbatim>\<open>th["id"]\<close>.\<close>

fun thread_ids :: "'j json_api \<Rightarrow> 'j list \<Rightarrow> 'j list res" where
  "thread_ids J [] = Inr []"
| "thread_ids J (th # ths) =
     rbind (j_index J th ''id'') (\<lambda>(_, tid). rbind (thread_ids J ths) (\<lambda>ids. Inr (tid # ids)))"

definition add_thread_list :: "'j json_api \<Rightarrow> 'j \<Rightarrow> 'j \<Rightarrow> 'j res" where
  "add_thread_list J message rep =
     rbind (j_assign2 J message ''body'' ''threadList'' (j_array J [])) (\<lambda>new_message.
     rbind (j_index2 J rep ''body'' ''threads'') (\<lambda>(_, threads).
     rbind (thread_ids J (j_elems J threads)) (\<lambda>ids.
     j_assign2 J new_message ''body'' ''threadList'' (j_array J ids))))"

definition debug_event_parent :: "'j json_api \<Rightarrow> string \<Rightarrow> 'j res" where
  "debug_event_parent J parent_header =
     (if parent_header = [] then Inr (j_object J []) else j_parse J parent_header)"

definition debug_event :: "('j, 'u) dap_env \<Rightarrow> 'j \<Rightarrow> 'j \<Rightarrow> 'j xpub_message" where
  "debug_event env parent_header message =
     \<lparr>m_header = dp_make_header env ''debug_event'' (m_user_name env) (m_session_id env),
      m_parent_header = parent_header, m_metadata = j_object (dp_json env) [],
      m_content = message, m_buffers = [], topic = ''debug_event''\<rparr>"

definition publish_debug_event :: "('j, 'u) dap_env \<Rightarrow> 'j \<Rightarrow> ('u dap_client, unit) prog" where
  "publish_debug_event env message =
     (let J = dp_json env in
      seq (gets dp_parent_header) (\<lambda>parent.
      seq (lift_res (debug_event_parent J parent)) (\<lambda>parent_header.
      seq (lift_res (serialize_iopub J (debug_event env parent_header message) (dp_auth env) strict)) (\<lambda>wire_msg.
      on_dp (net_send Dp_publisher wire_msg)))))"

text \<open>The branch for a stopped event: it asks the adapter for the threads first.\<close>

definition forward_stopped :: "('j, 'u) dap_env \<Rightarrow> 'j \<Rightarrow> ('u dap_client, unit) prog" where
  "forward_stopped env message =
     (let J = dp_json env in
      seq (lift_res (next_seq J message)) (\<lambda>seq_no.
      seq (send_dap_request env (threads_request J seq_no)) (\<lambda>_.
      seq (dap_wait_for_message env (is_threads_response J)) (\<lambda>rep.
      seq (lift_res (add_thread_list J message rep)) (\<lambda>new_message.
      on_user (m_event_callback env new_message))))))"

definition forward_event :: "('j, 'u) dap_env \<Rightarrow> 'j \<Rightarrow> ('u dap_client, unit) prog" where
  "forward_event env message =
     seq (lift_res (stopped_all_threads (dp_json env) message)) (\<lambda>(stopped, message).
     seq (if stopped then forward_stopped env message
          else on_user (m_event_callback env message)) (\<lambda>_.
     publish_debug_event env message))"

section \<open>The initialisation sequence\<close>

definition is_message :: "'j json_api \<Rightarrow> string \<Rightarrow> string \<Rightarrow> string \<Rightarrow> 'j \<Rightarrow> bool res" where
  "is_message J tp key expected message =
     rbind (j_path_is J message [''type''] tp) (\<lambda>same.
       if same then j_path_is J message [key] expected else Inr False)"

definition configuration_done :: "'j json_api \<Rightarrow> int \<Rightarrow> 'j" where
  "configuration_done J seq_no = j_object J
     [(''type'', j_string J ''request''), (''seq'', j_number J seq_no),
      (''command'', j_string J ''configurationDone'')]"

definition handle_init_sequence :: "('j, 'u) dap_env \<Rightarrow> ('u dap_client, unit) prog" where
  "handle_init_sequence env =
     (let J = dp_json env in
      seq (dap_wait_for_message env (is_message J ''event'' ''event'' ''initialized'')) (\<lambda>initialized.
      seq (lift_res (next_seq J initialized)) (\<lambda>seq_no.
      seq (send_dap_request env (configuration_done J seq_no)) (\<lambda>_.
      seq (dap_wait_for_message env (is_message J ''response'' ''command'' ''configurationDone'')) (\<lambda>config_response.
      seq (dap_wait_for_message env (is_message J ''response'' ''command'' ''attach'')) (\<lambda>attach_response.
      seq (forward_event env initialized) (\<lambda>_.
      seq (lift_res (j_dump J strict attach_response)) (\<lambda>raw_response.
      on_dp (net_send Dp_controller [raw_response])))))))))"

section \<open>The handlers of the sockets\<close>

definition handle_header_socket :: "('u dap_client, unit) prog" where
  "handle_header_socket =
     seq (on_dp (net_recv_frame Dp_controller_header)) (\<lambda>message.
     seq (modify (\<lambda>st. st\<lparr>dp_parent_header := message\<rparr>)) (\<lambda>_.
     on_dp (net_send Dp_controller_header [''ACK''])))"

text \<open>\<^verbatim>\<open>raw_message.substr(raw_message.find(SEPARATOR) + SEPARATOR_LENGTH)\<close>, where \<^verbatim>\<open>npos + 4\<close> wraps.\<close>

definition dap_content :: "string \<Rightarrow> string res" where
  "dap_content raw_message =
     substr_from raw_message (sz_add (pos_value (str_find raw_message SEPARATOR 0)) SEPARATOR_LENGTH)"

definition handle_control_socket :: "('j, 'u) dap_env \<Rightarrow> ('u dap_client, unit) prog" where
  "handle_control_socket env =
     (let J = dp_json env in
      seq (on_dp (net_recv_frame Dp_controller)) (\<lambda>message.
      seq (gets m_wait_attach) (\<lambda>wait_attach.
        if wait_attach then
          seq (lift_res (rbind (dap_content message) (j_parse J))) (\<lambda>json_message.
          seq (tcp_send message) (\<lambda>_.
          seq (lift_res (j_index J json_message ''command'')) (\<lambda>(_, command).
            if command = j_string J ''attach'' then
              seq (handle_init_sequence env) (\<lambda>_. modify (\<lambda>st. st\<lparr>m_wait_attach := False\<rparr>))
            else ret ())))
        else tcp_send message)))"

section \<open>The messages of the adapter\<close>

definition dap_pop_front :: "('u dap_client, unit) prog" where
  "dap_pop_front st = (case dp_message_queue st of
      [] \<Rightarrow> (Inl Undefined, st)
    | _ # queue \<Rightarrow> (Inr (), st\<lparr>dp_message_queue := queue\<rparr>))"

text \<open>
  The body of the loop, for the message at the front of the queue. An event goes to the
  handler, a response to the controller; the message stays in the queue meanwhile.
\<close>

definition process_message :: "('j, 'u) dap_env \<Rightarrow> string \<Rightarrow> ('u dap_client, unit) prog" where
  "process_message env raw_message =
     (let J = dp_json env in
      seq (lift_res (j_parse J raw_message)) (\<lambda>message.
      seq (lift_res (j_index J message ''type'')) (\<lambda>(message, tp).
      seq (if tp = j_string J ''event'' then m_event_handler env message
           else
             seq (lift_res (j_index J message ''command'')) (\<lambda>(message, command).
             seq (if command = j_string J ''disconnect'' then modify (\<lambda>st. st\<lparr>dp_request_stop := True\<rparr>)
                  else ret ()) (\<lambda>_.
             on_dp (net_send Dp_controller [raw_message])))) (\<lambda>_.
      dap_pop_front))))"

text \<open>
  The loop, with fuel: the handler may put messages into the queue, so that no bound follows
  from the queue alone. \<open>Blocks\<close> is the outcome when the fuel does not suffice.
\<close>

fun process_message_queue :: "('j, 'u) dap_env \<Rightarrow> nat \<Rightarrow> ('u dap_client, unit) prog" where
  "process_message_queue env 0 = fail Blocks"
| "process_message_queue env (Suc fuel) =
     seq (gets dp_message_queue) (\<lambda>queue. case queue of
         [] \<Rightarrow> ret ()
       | raw_message # _ \<Rightarrow>
           seq (process_message env raw_message) (\<lambda>_. process_message_queue env fuel))"

definition dap_handle_tcp :: "('u dap_client, unit) prog" where
  "dap_handle_tcp st =
     (case handle_tcp_socket (tcp_in st) (dp_message_queue st) of
        Inl e \<Rightarrow> (Inl e, st)
      | Inr (ins, queue) \<Rightarrow> (Inr (), st\<lparr>tcp_in := ins, dp_message_queue := queue\<rparr>))"

section \<open>The thread of the client\<close>

text \<open>The outcome of a poll: an error, or what has arrived and whether the TCP socket is readable.\<close>

datatype dap_poll = Dap_error errno | Dap_arrivals "(dap_socket \<times> multipart) list" bool

definition dap_turn :: "('j, 'u) dap_env \<Rightarrow> dap_poll \<Rightarrow> ('u dap_client, loop_status) prog" where
  "dap_turn env event = (case event of
      Dap_error e \<Rightarrow> poll_error e
    | Dap_arrivals batch tcp_readable \<Rightarrow>
        seq (on_dp (modify (arrive batch))) (\<lambda>_.
        seq (gets dp_net) (\<lambda>n.
        seq (if readable n Dp_controller_header then handle_header_socket else ret ()) (\<lambda>_.
        seq (if readable n Dp_controller then handle_control_socket env else ret ()) (\<lambda>_.
        seq (if tcp_readable then dap_handle_tcp else ret ()) (\<lambda>_.
        seq (process_message_queue env (dp_fuel env)) (\<lambda>_.
        seq (gets dp_request_stop) (\<lambda>stop. ret (if stop then Stopped else Running)))))))))"

definition init_tcp_socket :: "('j, 'u) dap_env \<Rightarrow> string \<Rightarrow> ('u dap_client, unit) prog" where
  "init_tcp_socket env tcp_end_point =
     (if m_dap_tcp_type env = client_type then
        seq (on_wiring (sock_connect Dp_tcp tcp_end_point)) (\<lambda>_.
        modify (\<lambda>st. st\<lparr>m_socket_id := take 256 (dp_routing_id env)\<rparr>))
      else
        seq (on_wiring (sock_bind (dp_bind env) Dp_tcp tcp_end_point)) (\<lambda>_ st.
          (case tcp_in st of
             f # msg # ins \<Rightarrow> (Inr (), st\<lparr>tcp_in := ins, m_socket_id := f\<rparr>)
           | _ \<Rightarrow> (Inl Blocks, st))))"

definition finalize_tcp_socket :: "('j, 'u) dap_env \<Rightarrow> string \<Rightarrow> ('u dap_client, unit) prog" where
  "finalize_tcp_socket env tcp_end_point = on_wiring (sock_call Dp_tcp
     (if m_dap_tcp_type env = client_type then Disconnect tcp_end_point else Unbind tcp_end_point))"

text \<open>
  The thread's function over the outcomes of its polls, after the message with which the
  controller starts it, \<open>hello\<close>. \<open>Running\<close> means that it waits for the next poll.
\<close>

definition start_debugger :: "('j, 'u) dap_env \<Rightarrow> string \<Rightarrow> string \<Rightarrow> string \<Rightarrow> string \<Rightarrow> multipart
    \<Rightarrow> dap_poll list \<Rightarrow> ('u dap_client, loop_status) prog" where
  "start_debugger env tcp_end_point publisher_end_point controller_end_point
       controller_header_end_point hello events =
     seq (on_wiring (sock_connect Dp_publisher publisher_end_point)) (\<lambda>_.
     seq (on_wiring (sock_connect Dp_controller controller_end_point)) (\<lambda>_.
     seq (on_wiring (sock_connect Dp_controller_header controller_header_end_point)) (\<lambda>_.
     seq (init_tcp_socket env tcp_end_point) (\<lambda>_.
     seq (on_dp (modify (arrive [(Dp_controller, hello)]))) (\<lambda>_.
     seq (on_dp (net_recv_frame Dp_controller)) (\<lambda>req.
     seq (on_dp (net_send Dp_controller [''ACK''])) (\<lambda>_.
     seq (modify (\<lambda>st. st\<lparr>dp_request_stop := False,
            m_wait_attach := m_dap_init_type env = parallel\<rparr>)) (\<lambda>_.
     seq (run_loop (dap_turn env) events) (\<lambda>status.
       if status = Running then ret Running
       else
         seq (modify (\<lambda>st. st\<lparr>dp_request_stop := False\<rparr>)) (\<lambda>_.
         seq (finalize_tcp_socket env tcp_end_point) (\<lambda>_.
         seq (on_wiring (sock_call Dp_controller (Disconnect controller_end_point))) (\<lambda>_.
         seq (on_wiring (sock_call Dp_controller_header (Disconnect controller_header_end_point))) (\<lambda>_.
         seq (on_wiring (sock_call Dp_publisher (Disconnect publisher_end_point))) (\<lambda>_.
         ret Stopped))))))))))))))"

section \<open>What waiting for a message yields\<close>

text \<open>
  \<open>decides\<close>: the messages parse, to \<open>parsed\<close>, and the condition, which does not raise on
  them, is \<open>holds\<close>.
\<close>

definition decides :: "'j json_api \<Rightarrow> ('j \<Rightarrow> bool res) \<Rightarrow> (string \<Rightarrow> 'j) \<Rightarrow> (string \<Rightarrow> bool) \<Rightarrow> string list \<Rightarrow> bool" where
  "decides J condition parsed holds raws \<longleftrightarrow>
     (\<forall>raw \<in> set raws. j_parse J raw = Inr (parsed raw) \<and> condition (parsed raw) = Inr (holds raw))"

lemma decides_simps [simp]:
  "decides J condition parsed holds []"
  "decides J condition parsed holds (raw # raws) \<longleftrightarrow>
     j_parse J raw = Inr (parsed raw) \<and> condition (parsed raw) = Inr (holds raw) \<and>
     decides J condition parsed holds raws"
  "decides J condition parsed holds (raws @ raws') \<longleftrightarrow>
     decides J condition parsed holds raws \<and> decides J condition parsed holds raws'"
  by (auto simp: decides_def)

lemma decides_split:
  "decides J condition parsed holds raws \<Longrightarrow> decides J condition parsed holds (take k raws)"
  "decides J condition parsed holds raws \<Longrightarrow> decides J condition parsed holds (drop k raws)"
  by (auto simp: decides_def dest: in_set_takeD in_set_dropD)

lemma find_queued_none:
  "decides J condition parsed holds queue \<Longrightarrow> \<forall>raw \<in> set queue. \<not> holds raw \<Longrightarrow>
   find_queued J condition queue = Inr None"
  by (induction queue) auto

lemma drain_batch_decides:
  "decides J condition parsed holds batch \<Longrightarrow>
   drain_batch J condition found batch queue =
     (Inr (if filter holds batch = [] then found else Some (parsed (last (filter holds batch)))), [],
      queue @ filter (\<lambda>raw. \<not> holds raw) batch)"
  by (induction batch arbitrary: found queue) auto

lemma handle_tcp_socket_messages:
  assumes "payload cs = concat (map dap_buffer ms)" "ms \<noteq> []" "\<forall>m \<in> set ms. length m < size_max"
  obtains k es where "0 < k" "k \<le> length ms" "payload es = concat (map dap_buffer (drop k ms))"
    "handle_tcp_socket (tcp_frames cs) q = Inr (tcp_frames es, q @ take k ms)"
  using handle_tcp_loop_messages [of "[]" cs "[]" ms q] assms
  by (auto simp: handle_tcp_socket_def str_find_def HEADER_def)

lemma wait_loop_messages:
  "payload cs = concat (map dap_buffer ms) \<Longrightarrow> \<forall>m \<in> set ms. length m < size_max \<Longrightarrow>
   decides J condition parsed holds ms \<Longrightarrow> \<exists>m \<in> set ms. holds m \<Longrightarrow>
   \<exists>k es. k \<le> length ms \<and> payload es = concat (map dap_buffer (drop k ms)) \<and>
     filter holds (take k ms) \<noteq> [] \<and>
     wait_loop J condition (tcp_frames cs) [] queue =
       (Inr (parsed (last (filter holds (take k ms)))), tcp_frames es, [],
        queue @ filter (\<lambda>raw. \<not> holds raw) (take k ms))"
proof (induction "length ms" arbitrary: ms cs queue rule: less_induct)
  case less
  from less.prems have "ms \<noteq> []" by auto
  from handle_tcp_socket_messages [OF less.prems(1) this less.prems(2), of "[]"]
  obtain k es where k: "0 < k" "k \<le> length ms" "payload es = concat (map dap_buffer (drop k ms))"
    and tcp: "handle_tcp_socket (tcp_frames cs) [] = Inr (tcp_frames es, take k ms)" by auto
  note drain = drain_batch_decides [OF decides_split(1) [OF less.prems(3), of k], of None queue]
  show ?case
  proof (cases "filter holds (take k ms) = []")
    case False
    then show ?thesis using k
      by (intro exI [of _ k] exI [of _ es]) (simp add: wait_loop.simps [of J condition "tcp_frames cs"] tcp drain)
  next
    case True
    then have all: "filter (\<lambda>raw. \<not> holds raw) (take k ms) = take k ms"
      by (simp add: filter_empty_conv)
    have "\<exists>m \<in> set (drop k ms). holds m"
      using less.prems(4) True by (metis UnE append_take_drop_id filter_empty_conv set_append)
    moreover have "length (drop k ms) < length ms" using k by simp
    moreover have "\<forall>m \<in> set (drop k ms). length m < size_max"
      using less.prems(2) by (auto dest: in_set_dropD)
    ultimately obtain k' es' where ih: "k' \<le> length (drop k ms)"
      "payload es' = concat (map dap_buffer (drop k' (drop k ms)))"
      "filter holds (take k' (drop k ms)) \<noteq> []"
      "wait_loop J condition (tcp_frames es) [] (queue @ take k ms) =
        (Inr (parsed (last (filter holds (take k' (drop k ms))))), tcp_frames es', [],
         (queue @ take k ms) @ filter (\<lambda>raw. \<not> holds raw) (take k' (drop k ms)))"
      using less.hyps [OF _ k(3) _ decides_split(2) [OF less.prems(3)], of "queue @ take k ms"] by blast
    have "drop (k + k') ms = drop k' (drop k ms)" by (simp add: add.commute)
    then show ?thesis
      using ih k(1,2) True all
      by (intro exI [of _ "k + k'"] exI [of _ es'])
        (simp add: wait_loop.simps [of J condition "tcp_frames cs"] tcp drain take_add del: drop_drop)
  qed
qed

lemma dap_wait_for_message_stream:
  assumes "tcp_in st = tcp_frames cs" "payload cs = concat (map dap_buffer ms)"
    "\<forall>m \<in> set ms. length m < size_max" "m_stopped_queue st = []"
    "decides (dp_json env) condition parsed holds (dp_message_queue st @ ms)"
    "\<forall>raw \<in> set (dp_message_queue st). \<not> holds raw" "\<exists>m \<in> set ms. holds m"
  shows "\<exists>k es. k \<le> length ms \<and> payload es = concat (map dap_buffer (drop k ms)) \<and>
    filter holds (take k ms) \<noteq> [] \<and>
    dap_wait_for_message env condition st =
      (Inr (parsed (last (filter holds (take k ms)))),
       st\<lparr>tcp_in := tcp_frames es, m_stopped_queue := [],
          dp_message_queue := dp_message_queue st @ filter (\<lambda>raw. \<not> holds raw) (take k ms)\<rparr>)"
proof -
  from assms(5) have d: "decides (dp_json env) condition parsed holds (dp_message_queue st)"
    "decides (dp_json env) condition parsed holds ms" by simp_all
  from wait_loop_messages [OF assms(2,3) d(2) assms(7), of "dp_message_queue st"]
  show ?thesis
    using find_queued_none [OF d(1) assms(6)] assms(1,4)
    by (fastforce simp: dap_wait_for_message_def)
qed

text \<open>
  C24. While the stream of the adapter holds, cut in whatever way, a sequence of messages of
  which one satisfies the condition, \<^verbatim>\<open>wait_for_message\<close> returns; it takes a prefix of that
  sequence off the stream, and every message of the prefix that does not satisfy the
  condition is kept, in order, at the end of the message queue. What it returns is the last
  message of the prefix that satisfies the condition: the earlier ones that arrived in the
  same batch are dropped.
\<close>

theorem wait_for_message_returns:
  assumes "tcp_in st = tcp_frames cs" "payload cs = concat (map dap_buffer ms)"
    "\<forall>m \<in> set ms. length m < size_max" "m_stopped_queue st = []"
    "decides (dp_json env) condition parsed holds (dp_message_queue st @ ms)"
    "\<forall>raw \<in> set (dp_message_queue st). \<not> holds raw" "\<exists>m \<in> set ms. holds m"
  shows "\<exists>k es. k \<le> length ms \<and> payload es = concat (map dap_buffer (drop k ms)) \<and>
    filter holds (take k ms) \<noteq> [] \<and>
    dap_wait_for_message env condition st =
      (Inr (parsed (last (filter holds (take k ms)))),
       st\<lparr>tcp_in := tcp_frames es, m_stopped_queue := [],
          dp_message_queue := dp_message_queue st @ filter (\<lambda>raw. \<not> holds raw) (take k ms)\<rparr>)"
  using assms by (rule dap_wait_for_message_stream)

definition sample_dap_env :: "(string \<times> jv) list \<Rightarrow> (jv, jv list) dap_env" where
  "sample_dap_env tbl =
     \<lparr>dp_json = table_json tbl, dp_auth = sample_auth, m_dap_tcp_type = client_type,
      m_dap_init_type = sequential, m_user_name = ''u'', m_session_id = ''s'',
      m_event_callback = (\<lambda>v. modify (\<lambda>u. u @ [v])),
      m_event_handler = (\<lambda>v. on_user (modify (\<lambda>u. u @ [v]))),
      dp_make_header = (\<lambda>tp user session. JStr tp), dp_bind = (\<lambda>e. None), dp_routing_id = ''id'',
      dp_fuel = 10\<rparr>"

definition sample_stream :: "frame list" where
  "sample_stream = tcp_frames [(''i'', dap_buffer ''e'' @ dap_buffer ''t1''), (''i'', dap_buffer ''t2'')]"

theorem wait_for_message_returns_witness:
  "\<exists>k es. k \<le> length [''e'', ''t1'', ''t2''] \<and>
     payload es = concat (map dap_buffer (drop k [''e'', ''t1'', ''t2''])) \<and>
     filter (\<lambda>raw. raw \<noteq> ''e'') (take k [''e'', ''t1'', ''t2'']) \<noteq> [] \<and>
     dap_wait_for_message (sample_dap_env [(''e'', JObj []), (''t1'', JObj [(''command'', JStr ''threads'')]),
         (''t2'', JObj [(''command'', JStr ''threads'')])])
       (is_threads_response (table_json [(''e'', JObj []), (''t1'', JObj [(''command'', JStr ''threads'')]),
         (''t2'', JObj [(''command'', JStr ''threads'')])]))
       (make_dap_client 0 [] sample_stream) =
      (Inr ((\<lambda>raw. if raw = ''e'' then JObj [] else JObj [(''command'', JStr ''threads'')])
          (last (filter (\<lambda>raw. raw \<noteq> ''e'') (take k [''e'', ''t1'', ''t2''])))),
       (make_dap_client 0 [] sample_stream)\<lparr>tcp_in := tcp_frames es, m_stopped_queue := [],
          dp_message_queue := dp_message_queue (make_dap_client 0 ([] :: jv list) sample_stream) @
            filter (\<lambda>raw. \<not> raw \<noteq> ''e'') (take k [''e'', ''t1'', ''t2''])\<rparr>)"
  by (rule wait_for_message_returns [where cs = "[(''i'', dap_buffer ''e'' @ dap_buffer ''t1''), (''i'', dap_buffer ''t2'')]"])
    (simp_all add: make_dap_client_def sample_stream_def sample_dap_env_def is_threads_response_def
      j_path_is_def size_max_def)

section \<open>Routing the messages of the adapter\<close>

text \<open>
  The messages that the loop can read: they parse, and have the member it looks at. A
  member that is missing would be added as null.
\<close>

definition member_is :: "'j json_api \<Rightarrow> string \<Rightarrow> string \<Rightarrow> 'j \<Rightarrow> bool" where
  "member_is J key s v = (case j_at J v key of Inr x \<Rightarrow> x = j_string J s | Inl e \<Rightarrow> False)"

definition well_formed_dap :: "'j json_api \<Rightarrow> (string \<Rightarrow> 'j) \<Rightarrow> string \<Rightarrow> bool" where
  "well_formed_dap J parsed raw \<longleftrightarrow> j_parse J raw = Inr (parsed raw) \<and>
     j_contains J (parsed raw) ''type'' \<and> \<not> isl (j_at J (parsed raw) ''type'') \<and>
     (member_is J ''type'' ''event'' (parsed raw) \<or>
      j_contains J (parsed raw) ''command'' \<and> \<not> isl (j_at J (parsed raw) ''command''))"

lemma not_isl_iff: "\<not> isl r \<longleftrightarrow> (\<exists>x. r = Inr x)"
  by (cases r) auto

lemma process_message_event:
  assumes "well_formed_dap (dp_json env) parsed raw" "member_is (dp_json env) ''type'' ''event'' (parsed raw)"
    "m_event_handler env (parsed raw) st = (Inr (), st')" "dp_message_queue st' = raw' # queue"
  shows "process_message env raw st = (Inr (), st'\<lparr>dp_message_queue := queue\<rparr>)"
  using assms
  by (auto simp: process_message_def well_formed_dap_def not_isl_iff member_is_def j_index_def dap_pop_front_def seq_def lift_res_def)

lemma process_message_response:
  assumes "well_formed_dap (dp_json env) parsed raw" "\<not> member_is (dp_json env) ''type'' ''event'' (parsed raw)"
    "dp_message_queue st = raw' # queue"
  shows "process_message env raw st =
    (Inr (), st\<lparr>dp_request_stop := dp_request_stop st \<or> member_is (dp_json env) ''command'' ''disconnect'' (parsed raw),
       dp_net := (dp_net st)\<lparr>outbox := outbox (dp_net st) @ [(Dp_controller, [raw])]\<rparr>,
       dp_message_queue := queue\<rparr>)"
  using assms
  by (auto simp: process_message_def well_formed_dap_def not_isl_iff member_is_def j_index_def dap_pop_front_def seq_def lift_res_def
      on_dp_def zoom_def net_send_def modify_def ret_def)

text \<open>
  What the loop makes of a queue, when the handler works on the state of its owner and sends what
  \<open>emit\<close> says for the event.
\<close>

definition dispatched :: "'j json_api \<Rightarrow> (string \<Rightarrow> 'j) \<Rightarrow> ('j \<Rightarrow> 'u \<Rightarrow> 'u) \<Rightarrow> (string \<Rightarrow> (dap_socket \<times> multipart) list)
    \<Rightarrow> string list \<Rightarrow> 'u dap_client \<Rightarrow> 'u dap_client" where
  "dispatched J parsed handle emit queue st =
     (let is_event = (\<lambda>raw. member_is J ''type'' ''event'' (parsed raw))
      in st\<lparr>dp_message_queue := [],
           dp_request_stop := dp_request_stop st \<or>
             (\<exists>raw \<in> set queue. \<not> is_event raw \<and> member_is J ''command'' ''disconnect'' (parsed raw)),
           dp_net := (dp_net st)\<lparr>outbox := outbox (dp_net st) @
             concat (map (\<lambda>raw. if is_event raw then emit raw else [(Dp_controller, [raw])]) queue)\<rparr>,
           dp_user := fold (\<lambda>raw. handle (parsed raw)) (filter is_event queue) (dp_user st)\<rparr>)"

text \<open>One message, still at the front of the queue.\<close>

definition dispatched_one :: "'j json_api \<Rightarrow> (string \<Rightarrow> 'j) \<Rightarrow> ('j \<Rightarrow> 'u \<Rightarrow> 'u) \<Rightarrow> (string \<Rightarrow> (dap_socket \<times> multipart) list)
    \<Rightarrow> string \<Rightarrow> 'u dap_client \<Rightarrow> 'u dap_client" where
  "dispatched_one J parsed handle emit raw st =
     (if member_is J ''type'' ''event'' (parsed raw)
      then st\<lparr>dp_user := handle (parsed raw) (dp_user st),
              dp_net := (dp_net st)\<lparr>outbox := outbox (dp_net st) @ emit raw\<rparr>\<rparr>
      else st\<lparr>dp_request_stop := dp_request_stop st \<or> member_is J ''command'' ''disconnect'' (parsed raw),
              dp_net := (dp_net st)\<lparr>outbox := outbox (dp_net st) @ [(Dp_controller, [raw])]\<rparr>\<rparr>)"

lemma dispatched_Cons:
  "dispatched J parsed handle emit (raw # queue) st =
     dispatched J parsed handle emit queue (dispatched_one J parsed handle emit raw st)"
  by (simp add: dispatched_def dispatched_one_def Let_def)

lemma dispatched_queue:
  "dispatched J parsed handle emit queue (st\<lparr>dp_message_queue := q\<rparr>) = dispatched J parsed handle emit queue st"
  by (simp add: dispatched_def Let_def)

lemma dispatched_one_keeps:
  "dp_message_queue (dispatched_one J parsed handle emit raw st) = dp_message_queue st"
  "dp_parent_header (dispatched_one J parsed handle emit raw st) = dp_parent_header st"
  by (simp_all add: dispatched_one_def)

lemma process_message_queue_dispatches:
  assumes "\<And>raw st. raw \<in> S \<Longrightarrow> member_is (dp_json env) ''type'' ''event'' (parsed raw) \<Longrightarrow> dp_parent_header st = header \<Longrightarrow>
    m_event_handler env (parsed raw) st = (Inr (), st\<lparr>dp_user := handle (parsed raw) (dp_user st),
      dp_net := (dp_net st)\<lparr>outbox := outbox (dp_net st) @ emit raw\<rparr>\<rparr>)"
  shows "\<forall>raw \<in> set (dp_message_queue st). raw \<in> S \<and> well_formed_dap (dp_json env) parsed raw \<Longrightarrow>
   dp_parent_header st = header \<Longrightarrow> length (dp_message_queue st) < fuel \<Longrightarrow>
   process_message_queue env fuel st = (Inr (), dispatched (dp_json env) parsed handle emit (dp_message_queue st) st)"
proof (induction fuel arbitrary: st)
  case (Suc fuel)
  show ?case
  proof (cases "dp_message_queue st")
    case Nil
    then have "st\<lparr>dp_message_queue := []\<rparr> = st" by simp
    with Nil show ?thesis by (simp add: dispatched_def ret_def)
  next
    case (Cons raw queue)
    let ?J = "dp_json env"
    let ?st = "dispatched_one ?J parsed handle emit raw st"
    from Cons Suc.prems(1) have wf: "well_formed_dap ?J parsed raw" and S: "raw \<in> S" by simp_all
    have "process_message env raw st = (Inr (), ?st\<lparr>dp_message_queue := queue\<rparr>)"
    proof (cases "member_is ?J ''type'' ''event'' (parsed raw)")
      case True
      from process_message_event [OF wf True assms [OF S True Suc.prems(2)]] Cons show ?thesis
        using True by (simp add: dispatched_one_def)
    next
      case False
      from process_message_response [of env, OF wf False Cons] show ?thesis using False by (simp add: dispatched_one_def)
    qed
    moreover have "process_message_queue env fuel (?st\<lparr>dp_message_queue := queue\<rparr>)
      = (Inr (), dispatched ?J parsed handle emit queue (?st\<lparr>dp_message_queue := queue\<rparr>))"
      using Suc.IH [of "?st\<lparr>dp_message_queue := queue\<rparr>"] Suc.prems Cons by (simp add: dispatched_one_keeps)
    ultimately show ?thesis
      using Cons by (simp add: dispatched_Cons dispatched_queue seq_def gets_def)
  qed
qed simp

text \<open>A handler that sends nothing.\<close>

definition routed :: "'j json_api \<Rightarrow> (string \<Rightarrow> 'j) \<Rightarrow> ('j \<Rightarrow> 'u \<Rightarrow> 'u) \<Rightarrow> string list \<Rightarrow> 'u dap_client \<Rightarrow> 'u dap_client" where
  "routed J parsed handle queue st =
     (let is_event = (\<lambda>raw. member_is J ''type'' ''event'' (parsed raw));
          responses = filter (\<lambda>raw. \<not> is_event raw) queue
      in st\<lparr>dp_message_queue := [],
           dp_request_stop := dp_request_stop st \<or>
             (\<exists>raw \<in> set responses. member_is J ''command'' ''disconnect'' (parsed raw)),
           dp_net := (dp_net st)\<lparr>outbox := outbox (dp_net st) @ map (\<lambda>raw. (Dp_controller, [raw])) responses\<rparr>,
           dp_user := fold (\<lambda>raw. handle (parsed raw)) (filter is_event queue) (dp_user st)\<rparr>)"

lemma dispatched_silent: "dispatched J parsed handle (\<lambda>raw. []) queue st = routed J parsed handle queue st"
proof -
  have "concat (map (\<lambda>raw. if p raw then [] else [(Dp_controller, [raw])]) queue)
    = map (\<lambda>raw. (Dp_controller, [raw])) (filter (\<lambda>raw. \<not> p raw) queue)" for p :: "string \<Rightarrow> bool"
    by (induction queue) simp_all
  then show ?thesis by (simp add: dispatched_def routed_def Let_def Bex_def conj_assoc)
qed

lemma routed_queue: "routed J parsed handle queue (st\<lparr>dp_message_queue := q\<rparr>) = routed J parsed handle queue st"
  by (simp add: routed_def Let_def)

lemma process_message_queue_run:
  assumes "\<And>v st. m_event_handler env v st = (Inr (), st\<lparr>dp_user := handle v (dp_user st)\<rparr>)"
    "\<forall>raw \<in> set (dp_message_queue st). well_formed_dap (dp_json env) parsed raw" "length (dp_message_queue st) < fuel"
  shows "process_message_queue env fuel st = (Inr (), routed (dp_json env) parsed handle (dp_message_queue st) st)"
proof -
  have "m_event_handler env v s = (Inr (), s\<lparr>dp_user := handle v (dp_user s), dp_net := (dp_net s)\<lparr>outbox := outbox (dp_net s) @ []\<rparr>\<rparr>)"
    for v s by (cases s, cases "dp_net s") (simp add: assms(1))
  note run = process_message_queue_dispatches [where emit = "\<lambda>raw. []", OF this]
  show ?thesis
    unfolding dispatched_silent [symmetric] by (rule run [where S = UNIV]) (use assms(2,3) in auto)
qed

definition sample_dap_table :: "(string \<times> jv) list" where
  "sample_dap_table =
     [(''e'', JObj [(''type'', JStr ''event'')]),
      (''d'', JObj [(''type'', JStr ''response''), (''command'', JStr ''disconnect'')])]"

definition sample_dap_value :: "string \<Rightarrow> jv" where
  "sample_dap_value raw = (case map_of sample_dap_table raw of Some v \<Rightarrow> v | None \<Rightarrow> JNull)"

section \<open>Forwarding an event\<close>

lemma publish_debug_event_run:
  assumes "make_xauthentication M hex_string scheme key = Inr (dp_auth env)"
    "debug_event_parent (dp_json env) (dp_parent_header st) = Inr parent"
    "reads_back_parts (dp_json env) strict (debug_event env parent message)"
  obtains wire where "deserialize_iopub (dp_json env) wire (dp_auth env) = Inr (debug_event env parent message)"
    "publish_debug_event env message st = (Inr (), st\<lparr>dp_net := (dp_net st)\<lparr>outbox :=
       outbox (dp_net st) @ sends Dp_publisher wire\<rparr>\<rparr>)"
proof -
  from assms(1) have "authenticator (dp_auth env)" by (rule make_xauthentication_authenticator)
  from authenticator.pub_message_roundtrip [OF this assms(3)] obtain wire where
    "serialize_iopub (dp_json env) (debug_event env parent message) (dp_auth env) strict = Inr wire"
    "deserialize_iopub (dp_json env) wire (dp_auth env) = Inr (debug_event env parent message)" by blast
  with that assms(2) show ?thesis
    by (simp add: publish_debug_event_def Let_def seq_def lift_res_def gets_def on_dp_def zoom_def net_send_sends)
qed

lemma send_dap_request_run:
  "j_dump (dp_json env) strict message = Inr content \<Longrightarrow>
   send_dap_request env message st = (Inr (), st\<lparr>tcp_out := tcp_out st @ [m_socket_id st, dap_buffer content]\<rparr>)"
  by (simp add: send_dap_request_def tcp_send_def get_tcp_id_def seq_def lift_res_def modify_def)

lemma forward_stopped_run:
  assumes "next_seq (dp_json env) message = Inr n"
    "j_dump (dp_json env) strict (threads_request (dp_json env) n) = Inr content"
    "tcp_in st = tcp_frames cs" "payload cs = concat (map dap_buffer ms)"
    "\<forall>m \<in> set ms. length m < size_max" "m_stopped_queue st = []"
    "decides (dp_json env) (is_threads_response (dp_json env)) parsed holds (dp_message_queue st @ ms)"
    "\<forall>raw \<in> set (dp_message_queue st). \<not> holds raw" "\<exists>m \<in> set ms. holds m"
    "\<forall>m \<in> set ms. holds m \<longrightarrow> parsed m = rep"
    "add_thread_list (dp_json env) message rep = Inr new_message"
    "m_event_callback env new_message (dp_user st) = (Inr (), u)"
  obtains ins queue where "forward_stopped env message st =
    (Inr (), st\<lparr>tcp_out := tcp_out st @ [m_socket_id st, dap_buffer content], tcp_in := ins,
       m_stopped_queue := [], dp_message_queue := queue, dp_user := u\<rparr>)"
proof -
  let ?st = "st\<lparr>tcp_out := tcp_out st @ [m_socket_id st, dap_buffer content]\<rparr>"
  from dap_wait_for_message_stream [of ?st cs ms env "is_threads_response (dp_json env)" parsed holds] assms
  obtain k es where k: "filter holds (take k ms) \<noteq> []"
    and wait: "dap_wait_for_message env (is_threads_response (dp_json env)) ?st =
      (Inr (parsed (last (filter holds (take k ms)))),
       ?st\<lparr>tcp_in := tcp_frames es, m_stopped_queue := [],
          dp_message_queue := dp_message_queue st @ filter (\<lambda>raw. \<not> holds raw) (take k ms)\<rparr>)" by auto
  have "last (filter holds (take k ms)) \<in> set (filter holds (take k ms))" using k by (rule last_in_set)
  then have "parsed (last (filter holds (take k ms))) = rep"
    using assms(10) by (auto dest: in_set_takeD)
  with wait have wait: "dap_wait_for_message env (is_threads_response (dp_json env)) ?st =
      (Inr rep, ?st\<lparr>tcp_in := tcp_frames es, m_stopped_queue := [],
          dp_message_queue := dp_message_queue st @ filter (\<lambda>raw. \<not> holds raw) (take k ms)\<rparr>)" by simp
  show ?thesis
    using assms(1,11,12) send_dap_request_run [OF assms(2), of st] wait
    by (intro that [of "dp_message_queue st @ filter (\<lambda>raw. \<not> holds raw) (take k ms)" "tcp_frames es"])
      (simp add: forward_stopped_def Let_def seq_def lift_res_def on_user_def zoom_def)
qed

text \<open>
  An event that all threads have stopped: the adapter is asked for the threads, with the next
  sequence number; the callback gets the event extended by the list of the answer, and the event itself is
  published, under the header received last.
\<close>

lemma forward_event_stopped:
  assumes "stopped_all_threads (dp_json env) message = Inr (True, message)"
    "next_seq (dp_json env) message = Inr n"
    "j_dump (dp_json env) strict (threads_request (dp_json env) n) = Inr content"
    "tcp_in st = tcp_frames cs" "payload cs = concat (map dap_buffer ms)"
    "\<forall>m \<in> set ms. length m < size_max" "m_stopped_queue st = []"
    "decides (dp_json env) (is_threads_response (dp_json env)) parsed holds (dp_message_queue st @ ms)"
    "\<forall>raw \<in> set (dp_message_queue st). \<not> holds raw" "\<exists>m \<in> set ms. holds m"
    "\<forall>m \<in> set ms. holds m \<longrightarrow> parsed m = rep"
    "add_thread_list (dp_json env) message rep = Inr new_message"
    "m_event_callback env new_message (dp_user st) = (Inr (), u)"
    "make_xauthentication M hex_string scheme key = Inr (dp_auth env)"
    "debug_event_parent (dp_json env) (dp_parent_header st) = Inr parent"
    "reads_back_parts (dp_json env) strict (debug_event env parent message)"
  shows "\<exists>st' wire. forward_event env message st = (Inr (), st') \<and>
    tcp_out st' = tcp_out st @ [m_socket_id st, dap_buffer content] \<and> dp_user st' = u \<and>
    outbox (dp_net st') = outbox (dp_net st) @ sends Dp_publisher wire \<and>
    deserialize_iopub (dp_json env) wire (dp_auth env) = Inr (debug_event env parent message)"
proof -
  from forward_stopped_run [OF assms(2-13)] obtain ins queue where stopped:
    "forward_stopped env message st =
      (Inr (), st\<lparr>tcp_out := tcp_out st @ [m_socket_id st, dap_buffer content], tcp_in := ins,
       m_stopped_queue := [], dp_message_queue := queue, dp_user := u\<rparr>)" by blast
  let ?st = "st\<lparr>tcp_out := tcp_out st @ [m_socket_id st, dap_buffer content], tcp_in := ins,
       m_stopped_queue := [], dp_message_queue := queue, dp_user := u\<rparr>"
  have "debug_event_parent (dp_json env) (dp_parent_header ?st) = Inr parent" using assms(15) by simp
  from publish_debug_event_run [OF assms(14) this assms(16)] obtain wire where
    "deserialize_iopub (dp_json env) wire (dp_auth env) = Inr (debug_event env parent message)"
    "publish_debug_event env message ?st = (Inr (), ?st\<lparr>dp_net := (dp_net ?st)\<lparr>outbox :=
       outbox (dp_net ?st) @ sends Dp_publisher wire\<rparr>\<rparr>)" by blast
  then show ?thesis
    using assms(1) stopped by (intro exI [of _ "?st\<lparr>dp_net := (dp_net ?st)\<lparr>outbox :=
       outbox (dp_net ?st) @ sends Dp_publisher wire\<rparr>\<rparr>"] exI [of _ wire])
      (simp add: forward_event_def seq_def lift_res_def)
qed

definition sample_stopped :: jv where
  "sample_stopped = JObj [(''type'', JStr ''event''), (''event'', JStr ''stopped''), (''seq'', JNum 6),
     (''body'', JObj [(''allThreadsStopped'', JBool True)])]"

definition sample_threads :: jv where
  "sample_threads = JObj [(''command'', JStr ''threads''),
     (''body'', JObj [(''threads'', JArr [JObj [(''id'', JNum 1)], JObj [(''id'', JNum 4)]])])]"

definition stopped_table :: "(string \<times> jv) list" where
  "stopped_table = [(''s'', sample_stopped), (''t'', sample_threads), (''e'', JObj []), (''h'', JStr ''debug_event''),
     (''r'', threads_request (table_json []) 7)]"

text \<open>
  A stopped event without the optional member \<^verbatim>\<open>allThreadsStopped\<close> is not forwarded:
  the null inserted for it has no conversion to \<^verbatim>\<open>bool\<close>, and the exception leaves
  \<^verbatim>\<open>forward_event\<close> before the callback and the publisher have seen the event.
\<close>

lemma stopped_event_without_flag:
  assumes "\<And>k. k \<in> {''type'', ''event'', ''body''} \<Longrightarrow> j_contains (dp_json env) message k"
    "j_at (dp_json env) message ''type'' = Inr (j_string (dp_json env) ''event'')"
    "j_at (dp_json env) message ''event'' = Inr (j_string (dp_json env) ''stopped'')"
    "j_at (dp_json env) message ''body'' = Inr body"
    "\<not> j_contains (dp_json env) body ''allThreadsStopped''"
    "j_set (dp_json env) body ''allThreadsStopped'' (j_null (dp_json env)) = Inr body'"
    "j_set (dp_json env) message ''body'' body' = Inr message'"
    "j_get_bool (dp_json env) (j_null (dp_json env)) = Inl (Throws Type_error)"
  shows "forward_event env message st = (Inl (Throws Type_error), st)"
  using assms
  by (simp add: forward_event_def stopped_all_threads_def j_index_def j_index2_def seq_def lift_res_def)

end
