(* ===== verification/Debugger.thy ===== *)
theory Debugger
  imports Dap_Framing Json_Api Middleware "HOL-Library.Char_ord" "HOL-Library.List_Lexorder"
begin

text \<open>
  The kernel's side of the debugger (\<^verbatim>\<open>src/debugger/xdebugger_base.cpp\<close> and
  \<^verbatim>\<open>src/debugger/xdebugger_middleware.cpp\<close>): requests of the front end, which it answers
  itself or forwards to the DAP client over two REQ sockets, and the events that tell it which threads
  are stopped. A \<^verbatim>\<open>std::map\<close> is the list of its entries in the order of the keys, a
  \<^verbatim>\<open>std::set\<close> of integers a set. The inboxes of the sockets hold the replies still to come. What a
  subclass provides (\<open>start\<close>, \<open>stop\<close>, the debugger's information, the name of a cell's file,
  further handlers) is a parameter. Log output is not modelled.
\<close>

section \<open>Ordered maps\<close>

text \<open>The operations the code uses: \<^verbatim>\<open>erase\<close>, and \<^verbatim>\<open>insert\<close>, which keeps an entry that exists.\<close>

definition smap_erase :: "string \<Rightarrow> (string \<times> 'v) list \<Rightarrow> (string \<times> 'v) list" where
  "smap_erase k m = filter (\<lambda>e. fst e \<noteq> k) m"

fun smap_insert :: "string \<Rightarrow> 'v \<Rightarrow> (string \<times> 'v) list \<Rightarrow> (string \<times> 'v) list" where
  "smap_insert k v [] = [(k, v)]"
| "smap_insert k v ((k', v') # m) =
     (if k < k' then (k, v) # (k', v') # m
      else if k = k' then (k', v') # m
      else (k', v') # smap_insert k v m)"

definition smap_ordered :: "(string \<times> 'v) list \<Rightarrow> bool" where
  "smap_ordered m \<longleftrightarrow> sorted_wrt (<) (map fst m)"

text \<open>What the debugger relies on, and what assigning by erasing and inserting comes to.\<close>

locale ordered_map =
  fixes lookup :: "'m \<Rightarrow> 'k \<Rightarrow> 'v option"
    and erase :: "'k \<Rightarrow> 'm \<Rightarrow> 'm"
    and insrt :: "'k \<Rightarrow> 'v \<Rightarrow> 'm \<Rightarrow> 'm"
    and ordered :: "'m \<Rightarrow> bool"
  assumes ordered_erase: "ordered m \<Longrightarrow> ordered (erase k m)"
    and ordered_insert: "ordered m \<Longrightarrow> ordered (insrt k v m)"
    and lookup_erase: "ordered m \<Longrightarrow> lookup (erase k m) = (lookup m)(k := None)"
    and lookup_insert: "ordered m \<Longrightarrow> lookup (insrt k v m) =
      (if lookup m k = None then (lookup m)(k := Some v) else lookup m)"
begin

lemma ordered_assign: "ordered m \<Longrightarrow> ordered (insrt k v (erase k m))"
  by (simp add: ordered_erase ordered_insert)

lemma lookup_assign: "ordered m \<Longrightarrow> lookup (insrt k v (erase k m)) = (lookup m)(k \<mapsto> v)"
  by (simp add: ordered_erase lookup_insert lookup_erase)

end

lemma smap_ordered_Cons [simp]:
  "smap_ordered (e # m) \<longleftrightarrow> (\<forall>e' \<in> set m. fst e < fst e') \<and> smap_ordered m"
  by (simp add: smap_ordered_def)

lemma smap_ordered_Nil [simp]: "smap_ordered []"
  by (simp add: smap_ordered_def)

lemma smap_ordered_erase: "smap_ordered m \<Longrightarrow> smap_ordered (smap_erase k m)"
  by (induction m) (auto simp: smap_erase_def)

lemma smap_insert_keys: "fst ` set (smap_insert k v m) = insert k (fst ` set m)"
  by (induction k v m rule: smap_insert.induct) auto

lemma smap_ordered_insert: "smap_ordered m \<Longrightarrow> smap_ordered (smap_insert k v m)"
proof (induction k v m rule: smap_insert.induct)
  case (2 k v k' v' m)
  then have *: "smap_ordered m" "\<forall>x \<in> fst ` set m. k' < x" by auto
  have "\<forall>x \<in> fst ` set (smap_insert k v m). k' < x" if "k' < k"
    using *(2) that unfolding smap_insert_keys by auto
  with 2 * show ?case by fastforce
qed simp

lemma smap_lookup_erase: "map_of (smap_erase k m) = (map_of m)(k := None)"
  by (induction m) (auto simp: smap_erase_def)

lemma map_of_above: "\<forall>e \<in> set m. k < fst e \<Longrightarrow> map_of m (k :: string) = None"
  by (induction m) auto

lemma smap_lookup_insert:
  "smap_ordered m \<Longrightarrow> map_of (smap_insert k v m) =
     (if map_of m k = None then (map_of m)(k := Some v) else map_of m)"
proof (induction k v m rule: smap_insert.induct)
  case (2 k v k' v' m)
  show ?case
  proof (cases "k < k'")
    case True
    with 2(2) have "map_of m k = None" by (intro map_of_above) force
    with True show ?thesis by auto
  next
    case False
    with 2 show ?thesis by (auto simp: fun_eq_iff)
  qed
qed simp

interpretation smap: ordered_map map_of smap_erase smap_insert smap_ordered
  by unfold_locales
    (simp_all add: smap_ordered_erase smap_ordered_insert smap_lookup_erase smap_lookup_insert)

section \<open>State\<close>

datatype db_socket = Db_header | Db_request

record 'j debugger =
  db_net :: "db_socket net"
  db_wiring :: "db_socket wiring"
  m_is_started :: bool
  m_breakpoint_list :: "(string \<times> 'j list) list"
  m_stopped_threads :: "int set"
  db_files :: "string \<rightharpoonup> string"

record xdebugger_info =
  m_hash_seed :: nat
  m_tmp_file_prefix :: string
  m_tmp_file_suffix :: string
  m_rich_rendering :: bool
  m_exception_paths :: "string list"
  m_copy_to_globals :: bool

definition xdebugger_info_new :: "nat \<Rightarrow> string \<Rightarrow> string \<Rightarrow> bool \<Rightarrow> string list \<Rightarrow> bool \<Rightarrow> xdebugger_info" where
  "xdebugger_info_new hash_seed tmp_file_prefix tmp_file_suffix rich_rendering exception_paths copy_to_globals =
     \<lparr>m_hash_seed = hash_seed, m_tmp_file_prefix = tmp_file_prefix, m_tmp_file_suffix = tmp_file_suffix,
      m_rich_rendering = rich_rendering, m_exception_paths = exception_paths, m_copy_to_globals = copy_to_globals\<rparr>"

type_synonym 'j request_handler = "'j \<Rightarrow> ('j debugger, 'j) prog"
type_synonym 'j event_handler = "'j \<Rightarrow> ('j debugger, unit) prog"

text \<open>
  The handlers a subclass registers replace the ones of the base class for the same name; it may also
  override the virtual \<^verbatim>\<open>variables_request_impl\<close>.
\<close>

record 'j debugger_env =
  db_json :: "'j json_api"
  db_bind :: bind_result
  get_debugger_info :: xdebugger_info
  get_cell_temporary_file :: "string \<Rightarrow> string"
  db_writable :: "string \<Rightarrow> bool"
  db_start :: "('j debugger, bool) prog"
  db_stop :: "('j debugger, unit) prog"
  db_windows :: bool
  own_variables_request_impl :: "'j request_handler option"
  registered_request :: "string \<rightharpoonup> 'j request_handler"
  registered_started :: "string \<rightharpoonup> 'j request_handler"
  registered_event :: "string \<rightharpoonup> 'j event_handler"

definition on_db :: "(db_socket net, 'a) prog \<Rightarrow> ('j debugger, 'a) prog" where
  "on_db = zoom db_net (\<lambda>n st. st\<lparr>db_net := n\<rparr>)"

definition on_db_wiring :: "(db_socket wiring, 'a) prog \<Rightarrow> ('j debugger, 'a) prog" where
  "on_db_wiring = zoom db_wiring (\<lambda>w st. st\<lparr>db_wiring := w\<rparr>)"

section \<open>The middleware\<close>

definition make_debugger :: "(string \<rightharpoonup> string) \<Rightarrow> 'j debugger" where
  "make_debugger files =
     \<lparr>db_net = empty_net,
      db_wiring = [(Db_header, Set_option (Linger get_socket_linger)),
                   (Db_request, Set_option (Linger get_socket_linger))],
      m_is_started = False, m_breakpoint_list = [], m_stopped_threads = {}, db_files = files\<rparr>"

definition middleware_bind_sockets :: "'j debugger_env \<Rightarrow> string \<Rightarrow> string \<Rightarrow> ('j debugger, unit) prog" where
  "middleware_bind_sockets env header_end_point request_end_point =
     seq (on_db_wiring (sock_bind (db_bind env) Db_header header_end_point)) (\<lambda>_.
     on_db_wiring (sock_bind (db_bind env) Db_request request_end_point))"

definition middleware_unbind_sockets :: "string \<Rightarrow> string \<Rightarrow> ('j debugger, unit) prog" where
  "middleware_unbind_sockets header_end_point request_end_point =
     seq (on_db_wiring (sock_call Db_header (Unbind header_end_point))) (\<lambda>_.
     on_db_wiring (sock_call Db_request (Unbind request_end_point)))"

definition send_recv :: "string \<Rightarrow> db_socket \<Rightarrow> ('j debugger, string) prog" where
  "send_recv msg socket =
     seq (on_db (net_send socket [msg])) (\<lambda>_. on_db (net_recv_frame socket))"

definition middleware_send_recv_header :: "string \<Rightarrow> ('j debugger, string) prog" where
  "middleware_send_recv_header header = send_recv header Db_header"

definition middleware_send_recv_request :: "string \<Rightarrow> ('j debugger, string) prog" where
  "middleware_send_recv_request request = send_recv request Db_request"

text \<open>What the base class offers of it to its subclasses, and uses itself.\<close>

definition bind_sockets :: "'j debugger_env \<Rightarrow> string \<Rightarrow> string \<Rightarrow> ('j debugger, unit) prog" where
  "bind_sockets env header_end_point request_end_point = middleware_bind_sockets env header_end_point request_end_point"

definition unbind_sockets :: "string \<Rightarrow> string \<Rightarrow> ('j debugger, unit) prog" where
  "unbind_sockets header_end_point request_end_point = middleware_unbind_sockets header_end_point request_end_point"

definition send_recv_header :: "string \<Rightarrow> ('j debugger, string) prog" where
  "send_recv_header header = middleware_send_recv_header header"

definition send_recv_request :: "string \<Rightarrow> ('j debugger, string) prog" where
  "send_recv_request request = middleware_send_recv_request request"

lemmas middleware_defs [simp] = middleware_bind_sockets_def middleware_unbind_sockets_def middleware_send_recv_header_def
  middleware_send_recv_request_def

definition forward_message :: "'j debugger_env \<Rightarrow> 'j \<Rightarrow> ('j debugger, 'j) prog" where
  "forward_message env message =
     seq (lift_res (j_dump (db_json env) strict message)) (\<lambda>content.
     seq (send_recv_request (dap_buffer content)) (\<lambda>raw_reply.
     lift_res (j_parse (db_json env) raw_reply)))"

section \<open>Requests the debugger answers itself\<close>

text \<open>The members of a response, from the request it answers.\<close>

definition response :: "'j json_api \<Rightarrow> 'j \<Rightarrow> bool \<Rightarrow> (string \<times> 'j) list \<Rightarrow> 'j res" where
  "response J message success rest =
     rbind (j_at J message ''seq'') (\<lambda>request_seq.
     rbind (j_at J message ''command'') (\<lambda>command.
     Inr (j_object J ([(''type'', j_string J ''response''), (''request_seq'', request_seq),
       (''success'', j_bool J success), (''command'', command)] @ rest))))"

definition breakpoint_entries :: "'j json_api \<Rightarrow> (string \<times> 'j list) list \<Rightarrow> 'j" where
  "breakpoint_entries J bps = j_array J (map (\<lambda>(source, breakpoints).
     j_object J [(''source'', j_string J source), (''breakpoints'', j_array J breakpoints)]) bps)"

definition debug_info_request :: "'j debugger_env \<Rightarrow> 'j request_handler" where
  "debug_info_request env message st =
     (let J = db_json env; info = get_debugger_info env;
          breakpoint_list = breakpoint_entries J (if m_is_started st then m_breakpoint_list st else [])
      in (response J message True [(''body'', j_object J
           [(''isStarted'', j_bool J (m_is_started st)),
            (''hashMethod'', j_string J ''Murmur2''),
            (''hashSeed'', j_number J (int (m_hash_seed info))),
            (''tmpFilePrefix'', j_string J (m_tmp_file_prefix info)),
            (''tmpFileSuffix'', j_string J (m_tmp_file_suffix info)),
            (''breakpoints'', breakpoint_list),
            (''stoppedThreads'', j_array J (map (j_number J) (sorted_list_of_set (m_stopped_threads st)))),
            (''richRendering'', j_bool J (m_rich_rendering info)),
            (''exceptionPaths'', j_array J (map (j_string J) (m_exception_paths info))),
            (''copyToGlobals'', j_bool J (m_copy_to_globals info))])], st))"

text \<open>
  Reading a string member inside \<^verbatim>\<open>try { ... } catch(...)\<close>: the empty string when the library raises. The
  read of a member that is missing is still undefined.
\<close>

definition caught_string :: "'j json_api \<Rightarrow> 'j \<Rightarrow> string list \<Rightarrow> string res" where
  "caught_string J message path = catch_exn (rbind (j_path J message path) (j_get_string J)) []"

text \<open>A file that cannot be opened for reading is written, when it can be opened for that.\<close>

definition dump_cell_request :: "'j debugger_env \<Rightarrow> 'j request_handler" where
  "dump_cell_request env message =
     (let J = db_json env in
      seq (lift_res (caught_string J message [''arguments'', ''code''])) (\<lambda>code.
        let next_file_name = get_cell_temporary_file env code in
        seq (modify (\<lambda>st. if db_files st next_file_name = None \<and> db_writable env next_file_name
               then st\<lparr>db_files := (db_files st)(next_file_name \<mapsto> code)\<rparr> else st)) (\<lambda>_.
        lift_res (response J message True
          [(''body'', j_object J [(''sourcePath'', j_string J next_file_name)])]))))"

text \<open>The list \<^verbatim>\<open>{{}}\<close> of the failure is an array that holds an empty object.\<close>

definition source_request :: "'j debugger_env \<Rightarrow> 'j request_handler" where
  "source_request env message =
     (let J = db_json env in
      seq (lift_res (caught_string J message [''arguments'', ''source'', ''path''])) (\<lambda>sourcePath.
      seq (gets db_files) (\<lambda>files. case files sourcePath of
          None \<Rightarrow> lift_res (response J message False
            [(''message'', j_string J ''source unavailable''), (''body'', j_array J [j_object J []])])
        | Some content \<Rightarrow> lift_res (response J message True
            [(''body'', j_object J [(''content'', j_string J content)])]))))"

section \<open>Requests that are forwarded\<close>

definition set_breakpoints_request :: "'j debugger_env \<Rightarrow> 'j request_handler" where
  "set_breakpoints_request env message =
     (let J = db_json env in
      seq (lift_res (rbind (j_path J message [''arguments'', ''source'', ''path'']) (j_get_string J))) (\<lambda>source.
      seq (modify (\<lambda>st. st\<lparr>m_breakpoint_list := smap_erase source (m_breakpoint_list st)\<rparr>)) (\<lambda>_.
      seq (lift_res (j_path J message [''arguments'', ''breakpoints''])) (\<lambda>bp_json.
      seq (modify (\<lambda>st. st\<lparr>m_breakpoint_list :=
             smap_insert source (j_elems J bp_json) (m_breakpoint_list st)\<rparr>)) (\<lambda>_.
      forward_message env message)))))"

text \<open>
  The loop over the stack frames: the first one whose source has the path \<open><string>\<close> is
  removed. The frames before it may gain the members that are looked at.
\<close>

fun drop_string_frame :: "'j json_api \<Rightarrow> 'j list \<Rightarrow> 'j list res" where
  "drop_string_frame J [] = Inr []"
| "drop_string_frame J (frame # frames) =
     rbind (j_index2 J frame ''source'' ''path'') (\<lambda>(frame, path).
       if path = j_string J ''<string>'' then Inr frames
       else rbind (drop_string_frame J frames) (\<lambda>frames. Inr (frame # frames)))"

text \<open>
  A loop over \<^verbatim>\<open>reply["body"]["stackFrames"]\<close> that changes it; an element access by position is an
  error for a value that is not an array.
\<close>

definition on_stack_frames :: "'j json_api \<Rightarrow> ('j list \<Rightarrow> 'j list res) \<Rightarrow> 'j \<Rightarrow> 'j res" where
  "on_stack_frames J loop reply =
     rbind (j_index2 J reply ''body'' ''stackFrames'') (\<lambda>(reply, frames).
       if j_elems J frames = [] then Inr reply
       else if \<not> j_is_array J frames then Inl (Throws Type_error)
       else rbind (loop (j_elems J frames)) (\<lambda>frames'.
            j_assign2 J reply ''body'' ''stackFrames'' (j_array J frames')))"

text \<open>The branch for Windows: \<^verbatim>\<open>std::replace\<close> turns the backslashes of every path into slashes.\<close>

definition slashed :: "string \<Rightarrow> string" where
  "slashed path = map (\<lambda>c. if c = CHR 0x5C then CHR ''/'' else c) path"

fun slash_frames :: "'j json_api \<Rightarrow> 'j list \<Rightarrow> 'j list res" where
  "slash_frames J [] = Inr []"
| "slash_frames J (frame # frames) =
     rbind (j_index2 J frame ''source'' ''path'') (\<lambda>(frame, path).
     rbind (j_get_string J path) (\<lambda>path.
     rbind (j_assign2 J frame ''source'' ''path'' (j_string J (slashed path))) (\<lambda>frame.
     rbind (slash_frames J frames) (\<lambda>frames. Inr (frame # frames)))))"

definition stack_trace_request :: "'j debugger_env \<Rightarrow> 'j request_handler" where
  "stack_trace_request env message =
     (let J = db_json env in
      seq (forward_message env message) (\<lambda>reply.
      lift_res (rbind (on_stack_frames J (drop_string_frame J) reply) (\<lambda>reply.
        if db_windows env then on_stack_frames J (slash_frames J) reply else Inr reply))))"

text \<open>A number converted to a 32-bit \<^verbatim>\<open>int\<close>, and \<^verbatim>\<open>int\<close> addition, undefined on overflow.\<close>

definition to_int32 :: "int \<Rightarrow> int" where
  "to_int32 i = (i + 2 ^ 31) mod 2 ^ 32 - 2 ^ 31"

definition int_add :: "int \<Rightarrow> int \<Rightarrow> int res" where
  "int_add a b = (if - (2 ^ 31) \<le> a + b \<and> a + b < 2 ^ 31 then Inr (a + b) else Inl Undefined)"

text \<open>\<^verbatim>\<open>list.at(i)\<close>, and the loop that collects the elements from \<open>i\<close> on.\<close>

definition array_at :: "'j json_api \<Rightarrow> 'j \<Rightarrow> int \<Rightarrow> 'j res" where
  "array_at J xs i =
     (if \<not> j_is_array J xs then Inl (Throws Type_error)
      else if i < 0 \<or> int (length (j_elems J xs)) \<le> i then Inl (Throws Out_of_range)
      else Inr (j_elems J xs ! nat i))"

fun collect_from :: "'j json_api \<Rightarrow> 'j \<Rightarrow> int \<Rightarrow> nat \<Rightarrow> 'j list res" where
  "collect_from J xs i 0 = Inr []"
| "collect_from J xs i (Suc n) =
     rbind (array_at J xs i) (\<lambda>v. rbind (collect_from J xs (i + 1) n) (\<lambda>vs. Inr (v # vs)))"

text \<open>The optional argument, \<open>0\<close> when it is missing.\<close>

definition int_argument :: "'j json_api \<Rightarrow> 'j \<Rightarrow> string \<Rightarrow> int res" where
  "int_argument J arguments k =
     (if j_contains J arguments k then rbind (j_at J arguments k) (j_get_int J) else Inr 0)"

text \<open>
  The part of the variables that is asked for; a list nothing was appended to is null.
\<close>

definition slice_variables :: "'j json_api \<Rightarrow> int \<Rightarrow> int \<Rightarrow> 'j \<Rightarrow> 'j res" where
  "slice_variables J start count reply =
     rbind (if count = 0 then rbind (j_index2 J reply ''body'' ''variables'') (\<lambda>(reply, vs).
              Inr (reply, to_int32 (int (length (j_elems J vs)))))
            else rbind (int_add start count) (\<lambda>end_index. Inr (reply, end_index))) (\<lambda>(reply, end_index).
     rbind (j_index2 J reply ''body'' ''variables'') (\<lambda>(reply, old_variables_list).
     rbind (j_at J reply ''body'') (\<lambda>body.
     rbind (j_erase J body ''variables'') (\<lambda>body.
     rbind (j_set J reply ''body'' body) (\<lambda>reply.
     rbind (collect_from J old_variables_list start (nat (end_index - start))) (\<lambda>variables_list.
     j_assign2 J reply ''body'' ''variables''
       (if variables_list = [] then j_null J else j_array J variables_list)))))))"

definition variables_request_impl :: "'j debugger_env \<Rightarrow> 'j request_handler" where
  "variables_request_impl env message =
     (let J = db_json env in
      seq (forward_message env message) (\<lambda>reply.
      lift_res (rbind (j_at J message ''arguments'') (\<lambda>arguments.
        if j_contains J arguments ''start'' \<or> j_contains J arguments ''count'' then
          rbind (int_argument J arguments ''start'') (\<lambda>start.
          rbind (int_argument J arguments ''count'') (\<lambda>count.
            if start \<noteq> 0 \<or> count \<noteq> 0 then slice_variables J start count reply else Inr reply))
        else Inr reply))))"

text \<open>The handler of the request calls the virtual method, which a subclass may have replaced.\<close>

definition variables_request :: "'j debugger_env \<Rightarrow> 'j request_handler" where
  "variables_request env message =
     (case own_variables_request_impl env of
        None \<Rightarrow> variables_request_impl env message
      | Some own_impl \<Rightarrow> own_impl message)"

section \<open>Events\<close>

definition continued_event :: "'j debugger_env \<Rightarrow> 'j event_handler" where
  "continued_event env message =
     (let J = db_json env in
      seq (lift_res (rbind (j_path J message [''body'', ''allThreadsContinued'']) (j_get_bool J))) (\<lambda>all_threads.
        if all_threads then modify (\<lambda>st. st\<lparr>m_stopped_threads := {}\<rparr>)
        else
          seq (lift_res (rbind (j_path J message [''body'', ''threadId'']) (j_get_int J))) (\<lambda>tid.
          modify (\<lambda>st. st\<lparr>m_stopped_threads := m_stopped_threads st - {tid}\<rparr>))))"

text \<open>The loop over the threads of the list; those inserted before an error stay.\<close>

fun insert_threads :: "'j json_api \<Rightarrow> 'j list \<Rightarrow> ('j debugger, unit) prog" where
  "insert_threads J [] = ret ()"
| "insert_threads J (v # vs) =
     seq (lift_res (j_get_int J v)) (\<lambda>tid.
     seq (modify (\<lambda>st. st\<lparr>m_stopped_threads := insert tid (m_stopped_threads st)\<rparr>)) (\<lambda>_.
     insert_threads J vs))"

definition stopped_event :: "'j debugger_env \<Rightarrow> 'j event_handler" where
  "stopped_event env message =
     (let J = db_json env in
      seq (lift_res (rbind (j_path J message [''body'', ''allThreadsStopped'']) (j_get_bool J))) (\<lambda>all_threads.
        if all_threads then
          seq (lift_res (j_path J message [''body'', ''threadList''])) (\<lambda>threads.
          insert_threads J (j_elems J threads))
        else
          seq (lift_res (rbind (j_path J message [''body'', ''threadId'']) (j_get_int J))) (\<lambda>tid.
          modify (\<lambda>st. st\<lparr>m_stopped_threads := insert tid (m_stopped_threads st)\<rparr>))))"

definition event_handlers :: "'j debugger_env \<Rightarrow> string \<rightharpoonup> 'j event_handler" where
  "event_handlers env =
     [''continued'' \<mapsto> continued_event env, ''stopped'' \<mapsto> stopped_event env] ++ registered_event env"

definition handle_event :: "'j debugger_env \<Rightarrow> 'j event_handler" where
  "handle_event env message =
     (let J = db_json env in
      seq (lift_res (rbind (j_path J message [''event'']) (j_get_string J))) (\<lambda>event.
        case event_handlers env event of
          Some handler \<Rightarrow> handler message
        | None \<Rightarrow> ret ()))"

text \<open>What a subclass hands to its DAP client, and what else it may ask.\<close>

definition get_event_callback :: "'j debugger_env \<Rightarrow> 'j event_handler" where
  "get_event_callback env = handle_event env"

definition is_started :: "'j debugger \<Rightarrow> bool" where "is_started st = m_is_started st"

definition get_stopped_threads :: "'j debugger \<Rightarrow> int set" where "get_stopped_threads st = m_stopped_threads st"

section \<open>Processing requests\<close>

text \<open>The two tables of handlers: those that need no running debugger, and the others.\<close>

definition request_handlers :: "'j debugger_env \<Rightarrow> string \<rightharpoonup> 'j request_handler" where
  "request_handlers env = [''debugInfo'' \<mapsto> debug_info_request env] ++ registered_request env"

definition started_handlers :: "'j debugger_env \<Rightarrow> string \<rightharpoonup> 'j request_handler" where
  "started_handlers env =
     [''dumpCell'' \<mapsto> dump_cell_request env, ''setBreakpoints'' \<mapsto> set_breakpoints_request env,
      ''source'' \<mapsto> source_request env, ''stackTrace'' \<mapsto> stack_trace_request env,
      ''variables'' \<mapsto> variables_request env] ++ registered_started env"

definition start_on_initialize :: "'j debugger_env \<Rightarrow> 'j \<Rightarrow> ('j debugger, 'j) prog" where
  "start_on_initialize env message =
     (let J = db_json env; reply = j_object J [] in
      seq (lift_res (j_path_is J message [''command''] ''initialize'')) (\<lambda>initialize.
      seq (gets m_is_started) (\<lambda>started.
        if \<not> initialize \<or> started then ret reply
        else
          seq (db_start env) (\<lambda>started.
          seq (modify (\<lambda>st. st\<lparr>m_is_started := started\<rparr>)) (\<lambda>_.
            if started then ret reply
            else lift_res (rbind (j_at J message ''seq'') (\<lambda>request_seq. Inr (j_object J
              [(''command'', j_string J ''initialize''), (''request_seq'', request_seq),
               (''seq'', j_number J 3), (''success'', j_bool J False), (''type'', j_string J ''response'')]))))))))"

definition dispatch_request :: "'j debugger_env \<Rightarrow> 'j \<Rightarrow> 'j \<Rightarrow> 'j \<Rightarrow> ('j debugger, 'j) prog" where
  "dispatch_request env header message reply =
     (let J = db_json env in
      seq (lift_res (rbind (j_path J message [''command'']) (j_get_string J))) (\<lambda>command.
      seq (gets m_is_started) (\<lambda>started.
        case request_handlers env command of
          Some handler \<Rightarrow> handler message
        | None \<Rightarrow>
            if started then
              seq (lift_res (j_dump J strict header)) (\<lambda>header_buffer.
              seq (send_recv_header header_buffer) (\<lambda>_.
                case started_handlers env command of
                  Some handler \<Rightarrow> handler message
                | None \<Rightarrow> forward_message env message))
            else ret reply)))"

definition stop_on_disconnect :: "'j debugger_env \<Rightarrow> 'j \<Rightarrow> ('j debugger, unit) prog" where
  "stop_on_disconnect env message =
     seq (lift_res (j_path_is (db_json env) message [''command''] ''disconnect'')) (\<lambda>disconnect.
       if disconnect then
         seq (db_stop env) (\<lambda>_.
         modify (\<lambda>st. st\<lparr>m_breakpoint_list := [], m_stopped_threads := {}, m_is_started := False\<rparr>))
       else ret ())"

definition process_request_impl :: "'j debugger_env \<Rightarrow> 'j \<Rightarrow> 'j \<Rightarrow> ('j debugger, 'j) prog" where
  "process_request_impl env header message =
     seq (start_on_initialize env message) (\<lambda>reply.
     seq (dispatch_request env header message reply) (\<lambda>reply.
     seq (stop_on_disconnect env message) (\<lambda>_. ret reply)))"

section \<open>What a piece of code keeps\<close>

definition preserves :: "('st \<Rightarrow> bool) \<Rightarrow> ('st, 'a) prog \<Rightarrow> bool" where
  "preserves I p \<longleftrightarrow> (\<forall>st. I st \<longrightarrow> I (snd (p st)))"

lemma preserves_basic [simp]:
  "preserves I (ret x)" "preserves I (lift_res r)" "preserves I (gets f)" "preserves I (fail e)"
  by (simp_all add: preserves_def ret_def lift_res_def gets_def fail_def)

lemma seq_lift_res [simp]:
  "seq (lift_res (Inr x)) f = f x" "seq (lift_res (Inl e)) f = fail e"
  by (rule ext, simp add: seq_def lift_res_def fail_def)+

lemma preserves_modify: "(\<And>st. I st \<Longrightarrow> I (g st)) \<Longrightarrow> preserves I (modify g)"
  by (simp add: preserves_def modify_def)

lemma preserves_seq: "preserves I p \<Longrightarrow> (\<And>x. preserves I (f x)) \<Longrightarrow> preserves I (seq p f)"
  unfolding preserves_def seq_def by (fastforce split: prod.splits sum.splits)

lemma preserves_zoom:
  "(\<And>part st. I st \<Longrightarrow> I (put part st)) \<Longrightarrow> preserves I (zoom get put p)"
  by (auto simp: preserves_def zoom_def Let_def split: prod.splits)

text \<open>
  The invariant of the debugger: the breakpoints are an ordered map, and there are none while the debugger
  is not running. \<open>db_inv b\<close> fixes whether it is running.
\<close>

definition db_inv :: "bool \<Rightarrow> 'j debugger \<Rightarrow> bool" where
  "db_inv b st \<longleftrightarrow> smap_ordered (m_breakpoint_list st) \<and> m_is_started st = b \<and>
     (\<not> b \<longrightarrow> m_breakpoint_list st = [])"

definition debugger_ok :: "'j debugger \<Rightarrow> bool" where
  "debugger_ok st \<longleftrightarrow> db_inv (m_is_started st) st"

text \<open>What a subclass may do: its code keeps both, for it has no access to them but by the base class.\<close>

definition subclass_ok :: "'j debugger_env \<Rightarrow> bool" where
  "subclass_ok env \<longleftrightarrow> (\<forall>b. preserves (db_inv b) (db_start env) \<and> preserves (db_inv b) (db_stop env) \<and>
     (\<forall>h m. own_variables_request_impl env = Some h \<longrightarrow> preserves (db_inv b) (h m)) \<and>
     (\<forall>h \<in> ran (registered_request env). \<forall>m. preserves (db_inv b) (h m)) \<and>
     (\<forall>h \<in> ran (registered_started env). \<forall>m. preserves (db_inv b) (h m)))"

lemma preserves_on_db [simp]: "preserves (db_inv b) (on_db p)"
  by (auto simp: on_db_def db_inv_def intro: preserves_zoom)

lemma preserves_send_recv [simp]:
  "preserves (db_inv b) (send_recv msg socket)"
  "preserves (db_inv b) (send_recv_header msg)" "preserves (db_inv b) (send_recv_request msg)"
  by (simp_all add: send_recv_def send_recv_header_def send_recv_request_def preserves_seq)

lemma preserves_forward [simp]: "preserves (db_inv b) (forward_message env message)"
  by (simp add: forward_message_def preserves_seq)

lemma preserves_debug_info [simp]: "preserves (db_inv b) (debug_info_request env message)"
  by (simp add: preserves_def debug_info_request_def Let_def)

lemma db_inv_files [simp]: "db_inv b (st\<lparr>db_files := files\<rparr>) = db_inv b st"
  by (simp add: db_inv_def)

lemma preserves_own_requests [simp]:
  "preserves (db_inv b) (dump_cell_request env message)"
  "preserves (db_inv b) (source_request env message)"
  "preserves (db_inv b) (stack_trace_request env message)"
  "preserves (db_inv b) (variables_request_impl env message)"
  by (auto simp: dump_cell_request_def source_request_def stack_trace_request_def variables_request_impl_def
      Let_def simp del: seq_modify seq_gets intro!: preserves_seq preserves_modify split: option.split)

lemma preserves_variables_request:
  "subclass_ok env \<Longrightarrow> preserves (db_inv b) (variables_request env message)"
  by (simp add: variables_request_def subclass_ok_def split: option.split)

lemma preserves_set_breakpoints [simp]: "preserves (db_inv True) (set_breakpoints_request env message)"
  by (auto simp: set_breakpoints_request_def Let_def db_inv_def smap.ordered_erase smap.ordered_insert
      simp del: seq_modify seq_gets intro!: preserves_seq preserves_modify)

section \<open>Every request keeps the invariant\<close>

lemma request_handlers_preserve:
  assumes "subclass_ok env" "request_handlers env command = Some h"
  shows "preserves (db_inv b) (h message)"
proof -
  have "registered_request env c = Some g \<Longrightarrow> preserves (db_inv b) (g message)" for c g
    using assms(1) ranI [of "registered_request env" c g] by (auto simp: subclass_ok_def)
  with assms(2) show ?thesis by (auto simp: request_handlers_def map_add_Some_iff split: if_splits)
qed

lemma started_handlers_preserve:
  assumes "subclass_ok env" "started_handlers env command = Some h"
  shows "preserves (db_inv True) (h message)"
proof -
  have "registered_started env c = Some g \<Longrightarrow> preserves (db_inv True) (g message)" for c g
    using assms(1) ranI [of "registered_started env" c g] by (auto simp: subclass_ok_def)
  with assms(2) preserves_variables_request [OF assms(1)] show ?thesis
    by (auto simp: started_handlers_def map_add_Some_iff split: if_splits)
qed

lemma start_keeps:
  assumes "subclass_ok env" "debugger_ok st" "start_on_initialize env message st = (r, st')"
  shows "debugger_ok st'"
proof -
  have inv: "db_inv (m_is_started st) (snd (db_start env st))"
    using assms(1,2) by (simp add: subclass_ok_def preserves_def debugger_ok_def)
  obtain s st1 where s: "db_start env st = (s, st1)" by fastforce
  show ?thesis
    using assms(2,3) inv
    by (auto simp: start_on_initialize_def Let_def seq_def lift_res_def gets_def modify_def ret_def s
        debugger_ok_def db_inv_def split: sum.splits if_splits prod.splits)
qed

lemma dispatch_keeps:
  assumes "subclass_ok env"
  shows "preserves (db_inv b) (dispatch_request env header message reply)"
proof -
  have "db_inv b (snd (dispatch_request env header message reply st))" if inv: "db_inv b st" for st
  proof (cases "rbind (j_path (db_json env) message [''command'']) (j_get_string (db_json env))")
    case (Inl e)
    then show ?thesis using inv by (simp add: dispatch_request_def Let_def seq_def lift_res_def)
  next
    case command: (Inr command)
    let ?rest = "case request_handlers env command of
          Some handler \<Rightarrow> handler message
        | None \<Rightarrow>
            if b then
              seq (lift_res (j_dump (db_json env) strict header)) (\<lambda>header_buffer.
              seq (send_recv_header header_buffer) (\<lambda>_.
                case started_handlers env command of
                  Some handler \<Rightarrow> handler message
                | None \<Rightarrow> forward_message env message))
            else ret reply"
    have "preserves (db_inv b) ?rest"
      using request_handlers_preserve [OF assms] started_handlers_preserve [OF assms]
      by (cases b) (auto intro!: preserves_seq split: option.split)
    moreover have "dispatch_request env header message reply st = ?rest st"
      using inv command by (simp add: dispatch_request_def Let_def db_inv_def)
    ultimately show ?thesis using inv by (simp add: preserves_def)
  qed
  then show ?thesis by (simp add: preserves_def)
qed

lemma stop_keeps:
  assumes "subclass_ok env" "debugger_ok st" "stop_on_disconnect env message st = (r, st')"
  shows "debugger_ok st'"
proof -
  have inv: "db_inv (m_is_started st) (snd (db_stop env st))"
    using assms(1,2) by (simp add: subclass_ok_def preserves_def debugger_ok_def)
  obtain s st1 where s: "db_stop env st = (s, st1)" by fastforce
  show ?thesis
    using assms(2,3) inv
    by (auto simp: stop_on_disconnect_def Let_def seq_def lift_res_def modify_def ret_def s
        debugger_ok_def db_inv_def split: sum.splits if_splits prod.splits)
qed

lemma preservesD: "preserves I p \<Longrightarrow> I st \<Longrightarrow> I (snd (p st))"
  by (simp add: preserves_def)

lemma debugger_okI: "db_inv b st \<Longrightarrow> debugger_ok st"
  by (simp add: debugger_ok_def db_inv_def)

lemma stop_resets:
  "stop_on_disconnect env message st = (Inr (), st') \<Longrightarrow>
   j_path_is (db_json env) message [''command''] ''disconnect'' = Inr True \<Longrightarrow>
   \<not> m_is_started st' \<and> m_breakpoint_list st' = [] \<and> m_stopped_threads st' = {}"
  by (auto simp: stop_on_disconnect_def seq_Inr_iff modify_def)

text \<open>
  C27. Whatever request it processes, and whether that fails or not, the debugger's breakpoints stay
  an ordered map, one entry for each source, that is empty while the debugger is not running; and after
  a disconnect request that succeeds it is not running, without breakpoints and without stopped
  threads.
\<close>

theorem process_request_keeps_invariant:
  assumes "subclass_ok env" "debugger_ok st" "process_request_impl env header message st = (r, st')"
  shows "debugger_ok st' \<and>
    (\<forall>reply. r = Inr reply \<longrightarrow> j_path_is (db_json env) message [''command''] ''disconnect'' = Inr True \<longrightarrow>
      \<not> m_is_started st' \<and> m_breakpoint_list st' = [] \<and> m_stopped_threads st' = {})"
proof -
  obtain r1 st1 where 1: "start_on_initialize env message st = (r1, st1)" by fastforce
  then have ok1: "debugger_ok st1" by (rule start_keeps [OF assms(1,2)])
  show ?thesis
  proof (cases r1)
    case (Inl e)
    with 1 have "process_request_impl env header message st = (Inl e, st1)"
      by (simp add: process_request_impl_def seq_def)
    with assms(3) ok1 show ?thesis by auto
  next
    case r1: (Inr reply1)
    obtain r2 st2 where 2: "dispatch_request env header message reply1 st1 = (r2, st2)" by fastforce
    have ok2: "debugger_ok st2"
      using dispatch_keeps [OF assms(1), of "m_is_started st1" header message reply1] ok1 2
        preservesD debugger_okI debugger_ok_def by (metis snd_conv)
    show ?thesis
    proof (cases r2)
      case (Inl e)
      with 1 2 r1 have "process_request_impl env header message st = (Inl e, st2)"
        by (simp add: process_request_impl_def seq_def)
      with assms(3) ok2 show ?thesis by auto
    next
      case r2: (Inr reply2)
      obtain r3 st3 where 3: "stop_on_disconnect env message st2 = (r3, st3)" by fastforce
      then have ok3: "debugger_ok st3" by (rule stop_keeps [OF assms(1) ok2])
      have "process_request_impl env header message st =
          ((case r3 of Inl e \<Rightarrow> Inl e | Inr u \<Rightarrow> Inr reply2), st3)"
        using 1 2 3 r1 r2 by (simp add: process_request_impl_def seq_def ret_def split: sum.split)
      with assms(3) have "st' = st3" "r = (case r3 of Inl e \<Rightarrow> Inl e | Inr u \<Rightarrow> Inr reply2)" by simp_all
      then have "st' = st3" "\<And>reply. r = Inr reply \<Longrightarrow> r3 = Inr ()" by (auto split: sum.splits)
      then show ?thesis using ok3 3 stop_resets [of env message st2 st3] by auto
    qed
  qed
qed

definition sample_db_env :: "(string \<times> jv) list \<Rightarrow> jv debugger_env" where
  "sample_db_env tbl =
     \<lparr>db_json = table_json tbl, db_bind = (\<lambda>e. None),
      get_debugger_info = xdebugger_info_new 7 ''/tmp/'' ''.c'' False [] False,
      get_cell_temporary_file = (\<lambda>code. ''/tmp/1.c''), db_writable = (\<lambda>f. True),
      db_start = ret True, db_stop = ret (), db_windows = False, own_variables_request_impl = None, registered_request = Map.empty,
      registered_started = Map.empty, registered_event = Map.empty\<rparr>"

lemma sample_subclass_ok: "subclass_ok (sample_db_env tbl)"
  by (simp add: subclass_ok_def sample_db_env_def)

text \<open>A running debugger to which the DAP client answers \<open>ACK\<close> and then \<open>raw\<close>.\<close>

definition sample_debugger :: "string \<Rightarrow> jv debugger" where
  "sample_debugger raw = (make_debugger Map.empty)
     \<lparr>db_net := empty_net\<lparr>inbox := \<lambda>s. case s of Db_header \<Rightarrow> [[''ACK'']] | Db_request \<Rightarrow> [[raw]]\<rparr>,
      m_is_started := True, m_breakpoint_list := [(''a.c'', [JNum 1])], m_stopped_threads := {3}\<rparr>"

definition sample_disconnect :: jv where
  "sample_disconnect = JObj [(''command'', JStr ''disconnect'')]"

lemmas debugger_run_defs = process_request_impl_def start_on_initialize_def dispatch_request_def
  stop_on_disconnect_def request_handlers_def started_handlers_def j_path_is_def send_recv_header_def
  send_recv_request_def send_recv_def on_db_def zoom_def net_send_def net_recv_frame_def forward_message_def

lemma sample_debugger_ok: "debugger_ok (sample_debugger raw)"
  by (simp add: debugger_ok_def db_inv_def sample_debugger_def)

theorem process_request_keeps_invariant_witness:
  "\<exists>st'. process_request_impl
      (sample_db_env [(''m'', sample_disconnect), (''h'', JObj []), (''r'', JBool True)])
      (JObj []) sample_disconnect (sample_debugger ''r'') = (Inr (JBool True), st') \<and>
    \<not> m_is_started st' \<and> m_breakpoint_list st' = [] \<and> m_stopped_threads st' = {}"
proof -
  let ?env = "sample_db_env [(''m'', sample_disconnect), (''h'', JObj []), (''r'', JBool True)]"
  let ?run = "process_request_impl ?env (JObj []) sample_disconnect (sample_debugger ''r'')"
  obtain r st' where run: "?run = (r, st')" by fastforce
  have "fst ?run = Inr (JBool True)"
    by (simp add: debugger_run_defs sample_debugger_def sample_db_env_def sample_disconnect_def
        make_debugger_def empty_net_def seq_def lift_res_def ret_def fail_def gets_def modify_def Let_def)
  moreover have "j_path_is (db_json ?env) sample_disconnect [''command''] ''disconnect'' = Inr True"
    by (simp add: j_path_is_def sample_db_env_def sample_disconnect_def)
  ultimately show ?thesis
    using process_request_keeps_invariant [OF sample_subclass_ok sample_debugger_ok run] run by auto
qed

section \<open>Breakpoints\<close>

text \<open>What a request that needs a running debugger and is handled by \<open>handler\<close> comes to.\<close>

lemma process_started_request:
  assumes "m_is_started st" "j_path (db_json env) message [''command''] = Inr v"
    "j_get_string (db_json env) v = Inr command"
    "v \<noteq> j_string (db_json env) ''disconnect''"
    "request_handlers env command = None" "started_handlers env command = Some handler"
    "j_dump (db_json env) strict header = Inr header_buffer"
    "send_recv_header header_buffer st = (Inr ack, st1)" "handler message st1 = (Inr reply, st')"
  shows "process_request_impl env header message st = (Inr reply, st')"
  using assms
  by (simp add: process_request_impl_def start_on_initialize_def dispatch_request_def stop_on_disconnect_def
      j_path_is_def seq_def [of "send_recv_header header_buffer"] Let_def seq_def ret_def lift_res_def gets_def
      del: j_path.simps)

lemma send_recv_run:
  assumes "inbox (db_net st) s = [f] # ms"
  shows "send_recv msg s st = (Inr f, st\<lparr>db_net := (db_net st)\<lparr>inbox := (inbox (db_net st))(s := ms),
    received := received (db_net st) @ [(s, [f])], outbox := outbox (db_net st) @ [(s, [msg])]\<rparr>\<rparr>)"
  using assms by (simp add: send_recv_def on_db_def zoom_def net_send_def net_recv_frame_def seq_def)

text \<open>
  C28. A request that sets the breakpoints of a source, made to a running debugger: the header and then
  the framed request go to the DAP client, its reply is the reply, and the breakpoints of that
  source, and of no other, are replaced by those of the request.
\<close>

theorem set_breakpoints_replaces:
  assumes "m_is_started st" "smap_ordered (m_breakpoint_list st)"
    "j_path (db_json env) message [''command''] = Inr v"
    "j_get_string (db_json env) v = Inr ''setBreakpoints''" "v \<noteq> j_string (db_json env) ''disconnect''"
    "registered_request env ''setBreakpoints'' = None" "registered_started env ''setBreakpoints'' = None"
    "j_path (db_json env) message [''arguments'', ''source'', ''path''] = Inr path"
    "j_get_string (db_json env) path = Inr source"
    "j_path (db_json env) message [''arguments'', ''breakpoints''] = Inr breakpoints"
    "j_dump (db_json env) strict header = Inr header_buffer"
    "j_dump (db_json env) strict message = Inr content"
    "inbox (db_net st) Db_header = [ack] # acks" "inbox (db_net st) Db_request = [raw_reply] # replies"
    "j_parse (db_json env) raw_reply = Inr reply"
  shows "\<exists>st'. process_request_impl env header message st = (Inr reply, st') \<and>
    map_of (m_breakpoint_list st') = (map_of (m_breakpoint_list st))(source \<mapsto> j_elems (db_json env) breakpoints) \<and>
    smap_ordered (m_breakpoint_list st') \<and>
    outbox (db_net st') = outbox (db_net st) @ [(Db_header, [header_buffer]), (Db_request, [dap_buffer content])]"
proof -
  let ?st1 = "st\<lparr>db_net := (db_net st)\<lparr>inbox := (inbox (db_net st))(Db_header := acks),
    received := received (db_net st) @ [(Db_header, [ack])],
    outbox := outbox (db_net st) @ [(Db_header, [header_buffer])]\<rparr>\<rparr>"
  let ?bps = "smap_insert source (j_elems (db_json env) breakpoints) (smap_erase source (m_breakpoint_list st))"
  let ?st2 = "?st1\<lparr>m_breakpoint_list := ?bps\<rparr>"
  let ?st' = "?st2\<lparr>db_net := (db_net ?st2)\<lparr>inbox := (inbox (db_net ?st2))(Db_request := replies),
    received := received (db_net ?st2) @ [(Db_request, [raw_reply])],
    outbox := outbox (db_net ?st2) @ [(Db_request, [dap_buffer content])]\<rparr>\<rparr>"
  have header: "send_recv_header header_buffer st = (Inr ack, ?st1)"
    using send_recv_run [OF assms(13)] by (simp add: send_recv_header_def)
  have "send_recv_request (dap_buffer content) ?st2 = (Inr raw_reply, ?st')"
    using send_recv_run [of ?st2 Db_request raw_reply replies "dap_buffer content"] assms(14)
    by (simp add: send_recv_request_def)
  then have "forward_message env message ?st2 = (Inr reply, ?st')"
    using assms(12,15) by (simp add: forward_message_def seq_def lift_res_def)
  then have "set_breakpoints_request env message ?st1 = (Inr reply, ?st')"
    using assms(8-10) by (simp add: set_breakpoints_request_def Let_def del: j_path.simps)
  moreover have "request_handlers env ''setBreakpoints'' = None"
    "started_handlers env ''setBreakpoints'' = Some (set_breakpoints_request env)"
    using assms(6,7) by (simp_all add: request_handlers_def started_handlers_def map_add_def)
  ultimately have "process_request_impl env header message st = (Inr reply, ?st')"
    using process_started_request [OF assms(1,3,4,5) _ _ assms(11) header] by blast
  then show ?thesis
    using smap.lookup_assign [OF assms(2)] smap.ordered_assign [OF assms(2)] by simp
qed

definition sample_set_breakpoints :: jv where
  "sample_set_breakpoints = JObj [(''command'', JStr ''setBreakpoints''),
     (''arguments'', JObj [(''source'', JObj [(''path'', JStr ''b.c'')]), (''breakpoints'', JArr [JNum 4, JNum 9])])]"

theorem set_breakpoints_replaces_witness:
  "\<exists>st'. process_request_impl
      (sample_db_env [(''m'', sample_set_breakpoints), (''h'', JObj []), (''r'', JBool True)])
      (JObj []) sample_set_breakpoints (sample_debugger ''r'') = (Inr (JBool True), st') \<and>
    map_of (m_breakpoint_list st') = [''a.c'' \<mapsto> [JNum 1], ''b.c'' \<mapsto> [JNum 4, JNum 9]] \<and>
    smap_ordered (m_breakpoint_list st') \<and>
    outbox (db_net st') = [(Db_header, [''h'']), (Db_request, [dap_buffer ''m''])]"
proof -
  let ?env = "sample_db_env [(''m'', sample_set_breakpoints), (''h'', JObj []), (''r'', JBool True)]"
  from set_breakpoints_replaces [of "sample_debugger ''r''" ?env sample_set_breakpoints "JStr ''setBreakpoints''"
      "JStr ''b.c''" "''b.c''" "JArr [JNum 4, JNum 9]" "JObj []" "''h''" "''m''" "''ACK''" "[]" "''r''" "[]" "JBool True"]
  show ?thesis
    by (simp add: sample_db_env_def sample_debugger_def sample_set_breakpoints_def make_debugger_def empty_net_def)
qed

section \<open>A part of the variables\<close>

lemma collect_from_within:
  "j_is_array J xs \<Longrightarrow> i + n \<le> length (j_elems J xs) \<Longrightarrow>
   collect_from J xs (int i) n = Inr (take n (drop i (j_elems J xs)))"
proof (induction n arbitrary: i)
  case (Suc n)
  have step: "collect_from J xs (int i + 1) n = Inr (take n (drop (Suc i) (j_elems J xs)))"
    using Suc.IH [of "Suc i"] Suc.prems by (simp add: add.commute)
  have "drop i (j_elems J xs) = j_elems J xs ! i # drop (Suc i) (j_elems J xs)"
    using Suc.prems(2) by (intro Cons_nth_drop_Suc [symmetric]) simp
  with step Suc.prems show ?case by (simp add: array_at_def)
qed simp

lemma collect_from_beyond:
  "j_is_array J xs \<Longrightarrow> length (j_elems J xs) < i + n \<Longrightarrow> 0 < n \<Longrightarrow>
   collect_from J xs (int i) n = Inl (Throws Out_of_range)"
proof (induction n arbitrary: i)
  case (Suc n)
  show ?case
  proof (cases "i < length (j_elems J xs)")
    case False
    with Suc.prems(1) show ?thesis by (simp add: array_at_def)
  next
    case True
    with Suc.prems have "collect_from J xs (int i + 1) n = Inl (Throws Out_of_range)"
      using Suc.IH [of "Suc i"] by (simp add: add.commute)
    with True Suc.prems(1) show ?thesis by (simp add: array_at_def)
  qed
qed simp

lemma to_int32_small: "0 \<le> i \<Longrightarrow> i < 2 ^ 31 \<Longrightarrow> to_int32 i = i"
  by (simp add: to_int32_def)

text \<open>
  C29. For a start and a count that are not negative, the variables of a reply are cut down to the
  \<open>count\<close> from \<open>start\<close> on, to all from \<open>start\<close> on when no count is given. A count that reaches
  beyond the last variable is an exception, and where nothing is left the list becomes null.
\<close>

theorem slice_variables_outcome:
  assumes "j_contains J reply ''body''" "j_at J reply ''body'' = Inr body"
    "j_contains J body ''variables''" "j_at J body ''variables'' = Inr old"
    "j_is_array J old" "length (j_elems J old) < 2 ^ 31"
    "j_erase J body ''variables'' = Inr body1" "j_set J reply ''body'' body1 = Inr reply1"
    "start + count < 2 ^ 31"
  shows "slice_variables J (int start) (int count) reply =
    (if count \<noteq> 0 \<and> length (j_elems J old) < start + count then Inl (Throws Out_of_range)
     else
       let part = (if count = 0 then drop start (j_elems J old) else take count (drop start (j_elems J old)))
       in j_assign2 J reply1 ''body'' ''variables'' (if part = [] then j_null J else j_array J part))"
proof -
  let ?xs = "j_elems J old"
  let ?n = "if count = 0 then length ?xs - start else count"
  have bound: "int start + int count < 2 ^ 31"
    using assms(9) by (metis of_nat_add of_nat_less_numeral_power_cancel_iff)
  have "int (length ?xs) < 2 ^ 31" using assms(6) by (metis of_nat_less_numeral_power_cancel_iff)
  then have len: "to_int32 (int (length ?xs)) = int (length ?xs)" by (intro to_int32_small) simp_all
  have slice: "slice_variables J (int start) (int count) reply =
    rbind (collect_from J old (int start) ?n) (\<lambda>part.
      j_assign2 J reply1 ''body'' ''variables'' (if part = [] then j_null J else j_array J part))"
    using assms(1-5,7,8) len bound
    by (simp add: slice_variables_def j_index2_def j_index_def int_add_def nat_minus_as_int)
  show ?thesis
  proof (cases "count \<noteq> 0 \<and> length ?xs < start + count")
    case True
    then show ?thesis using collect_from_beyond [OF assms(5), of start count] by (simp add: slice)
  next
    case False
    have "collect_from J old (int start) ?n = Inr (take ?n (drop start ?xs))"
    proof (cases "start \<le> length ?xs")
      case True
      then show ?thesis using collect_from_within [OF assms(5), of start ?n] False by auto
    qed (use False in simp)
    with False show ?thesis unfolding slice by (cases "count = 0") (auto simp: Let_def)
  qed
qed

theorem slice_variables_outcome_witness:
  "slice_variables (table_json []) (int 1) (int 2)
     (JObj [(''body'', JObj [(''variables'', JArr [JNum 4, JNum 5, JNum 6])])]) =
     Inr (JObj [(''body'', JObj [(''variables'', JArr [JNum 5, JNum 6])])]) \<and>
   slice_variables (table_json []) (int 1) (int 3)
     (JObj [(''body'', JObj [(''variables'', JArr [JNum 4, JNum 5, JNum 6])])]) = Inl (Throws Out_of_range)"
  using slice_variables_outcome [of "table_json []" "JObj [(''body'', JObj [(''variables'', JArr [JNum 4, JNum 5, JNum 6])])]"
      "JObj [(''variables'', JArr [JNum 4, JNum 5, JNum 6])]" "JArr [JNum 4, JNum 5, JNum 6]" "JObj []"
      "JObj [(''body'', JObj [])]" 1 2]
    slice_variables_outcome [of "table_json []" "JObj [(''body'', JObj [(''variables'', JArr [JNum 4, JNum 5, JNum 6])])]"
      "JObj [(''variables'', JArr [JNum 4, JNum 5, JNum 6])]" "JArr [JNum 4, JNum 5, JNum 6]" "JObj []"
      "JObj [(''body'', JObj [])]" 1 3]
  by (simp add: j_assign2_def j_index_def)

section \<open>Stopped threads\<close>

text \<open>An event message that says that all threads have stopped, and lists them.\<close>

definition lists_stopped_threads :: "'j json_api \<Rightarrow> 'j \<Rightarrow> int list \<Rightarrow> bool" where
  "lists_stopped_threads J message ids \<longleftrightarrow>
     rbind (j_path J message [''event'']) (j_get_string J) = Inr ''stopped'' \<and>
     rbind (j_path J message [''body'', ''allThreadsStopped'']) (j_get_bool J) = Inr True \<and>
     (case j_path J message [''body'', ''threadList''] of
        Inl e \<Rightarrow> False
      | Inr threads \<Rightarrow> map (j_get_int J) (j_elems J threads) = map Inr ids)"

lemma insert_threads_run:
  "map (j_get_int J) vs = map Inr ids \<Longrightarrow>
   insert_threads J vs st = (Inr (), st\<lparr>m_stopped_threads := m_stopped_threads st \<union> set ids\<rparr>)"
  by (induction vs arbitrary: st ids) (auto simp: ret_def Cons_eq_map_conv)

lemma handle_all_stopped:
  assumes "registered_event env ''stopped'' = None" "lists_stopped_threads (db_json env) message ids"
  shows "handle_event env message st =
    (Inr (), st\<lparr>m_stopped_threads := m_stopped_threads st \<union> set ids\<rparr>)"
  using assms
  by (auto simp: handle_event_def event_handlers_def stopped_event_def map_add_def Let_def insert_threads_run
      lists_stopped_threads_def split: sum.splits simp del: j_path.simps)

section \<open>Handlers of a subclass\<close>

text \<open>
  \<^verbatim>\<open>register_request_handler\<close> and \<^verbatim>\<open>register_event_handler\<close>: a later registration for a name
  replaces the earlier one.
\<close>

definition register_request_handler :: "string \<Rightarrow> 'j request_handler \<Rightarrow> bool \<Rightarrow> 'j debugger_env \<Rightarrow> 'j debugger_env" where
  "register_request_handler command handler require_started env =
     (if require_started
      then env\<lparr>registered_started := (registered_started env)(command \<mapsto> handler)\<rparr>
      else env\<lparr>registered_request := (registered_request env)(command \<mapsto> handler)\<rparr>)"

definition register_event_handler :: "string \<Rightarrow> 'j event_handler \<Rightarrow> 'j debugger_env \<Rightarrow> 'j debugger_env" where
  "register_event_handler event handler env = env\<lparr>registered_event := (registered_event env)(event \<mapsto> handler)\<rparr>"

lemma registered_handlers:
  "db_json (register_request_handler command handler b env) = db_json env"
  "request_handlers (register_request_handler command handler False env) command = Some handler"
  "started_handlers (register_request_handler command handler True env) command = Some handler"
  "request_handlers (register_request_handler command handler True env) command = request_handlers env command"
proof -
  have "debug_info_request (env\<lparr>registered_started := m\<rparr>) = debug_info_request env" for m
    by (simp add: fun_eq_iff debug_info_request_def Let_def)
  then show "request_handlers (register_request_handler command handler True env) command = request_handlers env command"
    by (simp add: register_request_handler_def request_handlers_def)
qed (simp_all add: register_request_handler_def request_handlers_def started_handlers_def)

text \<open>
  A registered handler gets the requests with its command: at once when it does not require a
  running debugger, even one that replaces a handler of the base class; when it requires one, after the
  header has been sent and acknowledged, and only while the debugger runs (else the
  reply is an empty object), unless there is a handler for the command that does not require it,
  which is preferred.
\<close>

lemma registered_handler_runs:
  assumes "j_path (db_json env) message [''command''] = Inr v" "j_get_string (db_json env) v = Inr command"
    "v \<noteq> j_string (db_json env) ''initialize''" "v \<noteq> j_string (db_json env) ''disconnect''"
  shows "process_request_impl (register_request_handler command handler False env) header message st = handler message st \<and>
    process_request_impl (register_request_handler command handler True env) header message st =
      (case request_handlers env command of
         Some h \<Rightarrow> h message st
       | None \<Rightarrow>
           if m_is_started st then
             seq (lift_res (j_dump (db_json env) strict header)) (\<lambda>header_buffer.
             seq (send_recv_header header_buffer) (\<lambda>ack. handler message)) st
           else (Inr (j_object (db_json env) []), st))"
proof -
  have run: "process_request_impl env' header message st = dispatch_request env' header message (j_object (db_json env) []) st"
    if "db_json env' = db_json env" for env'
  proof -
    have "start_on_initialize env' message st = (Inr (j_object (db_json env) []), st)" for st
      using assms(1,3) that
      by (simp add: start_on_initialize_def j_path_is_def Let_def ret_def del: j_path.simps)
    moreover have "stop_on_disconnect env' message st = (Inr (), st)" for st
      using assms(1,4) that by (simp add: stop_on_disconnect_def j_path_is_def ret_def del: j_path.simps)
    ultimately show ?thesis
      by (auto simp: process_request_impl_def seq_def ret_def split: prod.split sum.split)
  qed
  show ?thesis
    using assms(1,2)
    by (simp add: run registered_handlers dispatch_request_def Let_def ret_def del: j_path.simps split: option.split)
qed

text \<open>A handler for \<open>debugInfo\<close> that requires a running debugger is never called; one that does not replaces it.\<close>

lemma registered_event_handler_runs:
  assumes "j_path (db_json env) message [''event''] = Inr v" "j_get_string (db_json env) v = Inr event"
  shows "handle_event (register_event_handler event handler env) message = handler message"
  using assms by (simp add: handle_event_def register_event_handler_def event_handlers_def Let_def del: j_path.simps)

section \<open>Cleaned stack traces\<close>

text \<open>
  On frames that have a path, \<open>ps\<close>, the loops do what the requests promise: the first frame of the
  cell itself is removed and no other, and under Windows the paths are given with slashes.
\<close>

definition frame_path :: "jv \<Rightarrow> string \<Rightarrow> bool" where
  "frame_path f p \<longleftrightarrow> (\<exists>members source. f = JObj members \<and> map_of members ''source'' = Some (JObj source) \<and>
     map_of source ''path'' = Some (JStr p))"

lemma frame_path_read:
  "frame_path f p \<Longrightarrow> j_index2 (table_json tbl) f ''source'' ''path'' = Inr (f, JStr p)"
  by (auto simp: frame_path_def j_index2_def j_index_def)

lemma frame_path_assign:
  "frame_path f p \<Longrightarrow> \<exists>f'. j_assign2 (table_json tbl) f ''source'' ''path'' (JStr q) = Inr f' \<and> frame_path f' q"
  by (auto simp: frame_path_def j_assign2_def j_index_def update_conv')

lemma drop_string_frame_first:
  assumes "list_all2 frame_path fs ps" "k = length (takeWhile (\<lambda>p. p \<noteq> ''<string>'') ps)"
  shows "drop_string_frame (table_json tbl) fs = Inr (take k fs @ drop (Suc k) fs)"
  using assms
proof (induction arbitrary: k rule: list_all2_induct)
  case (Cons f fs p ps)
  then show ?case by (auto simp: frame_path_read)
qed simp

lemma slash_frames_paths:
  assumes "list_all2 frame_path fs ps"
  shows "\<exists>fs'. slash_frames (table_json tbl) fs = Inr fs' \<and> list_all2 frame_path fs' (map slashed ps)"
  using assms
proof (induction rule: list_all2_induct)
  case (Cons f fs p ps)
  from frame_path_assign [OF Cons(1), of tbl "slashed p"] obtain f' where
    "j_assign2 (table_json tbl) f ''source'' ''path'' (JStr (slashed p)) = Inr f'" "frame_path f' (slashed p)" by blast
  with Cons show ?case by (auto simp: frame_path_read)
qed simp

lemma slashed_no_backslash: "CHR 0x5C \<notin> set (slashed p)"
  by (auto simp: slashed_def)

end
