(* ===== verification/Stop_Protocol.thy ===== *)
theory Stop_Protocol
  imports Sockets
begin

text \<open>
  What a thread that controls others and the threads it controls promise each other, apart
  from the code that does it: an abstract protocol of a controller and its channels,
  numbered in the order in which they are stopped, and the contract of a thread that serves one of the channels.
  The theories \<open>Split_System\<close> and \<open>Client_System\<close> show that the threads of the split servers (shell,
  publisher, heartbeat) and of the client (iopub, heartbeat), in whatever order they take their turns, refine it.
\<close>

section \<open>The controller and its channels\<close>

text \<open>
  The controller serves its own messages; it may have asked the shell for something and wait for
  the reply; or it is stopping the channels, about to ask channel \<open>k\<close> or waiting for its reply.
\<close>

datatype control_pc = Serving | Requesting | Ask nat | Await nat | Finished

record channel_view =
  ch_requests :: "multipart list"
  ch_replies :: "multipart list"
  ch_alive :: bool

record protocol =
  p_pc :: control_pc
  p_chan :: "nat \<Rightarrow> channel_view"

text \<open>For each channel, in the order of stopping: what the controller sends to stop it, and what stops it.\<close>

type_synonym stop_order = "(frame \<times> (multipart \<Rightarrow> bool)) list"

definition stop_frame :: "stop_order \<Rightarrow> nat \<Rightarrow> frame" where
  "stop_frame ord k = fst (ord ! k)"

definition stops_channel :: "stop_order \<Rightarrow> nat \<Rightarrow> multipart \<Rightarrow> bool" where
  "stops_channel ord k = snd (ord ! k)"

definition stop_order_ok :: "stop_order \<Rightarrow> bool" where
  "stop_order_ok ord \<longleftrightarrow> ord \<noteq> [] \<and> (\<forall>k < length ord. stops_channel ord k [stop_frame ord k])"

definition quiet_view :: channel_view where
  "quiet_view = \<lparr>ch_requests = [], ch_replies = [], ch_alive = True\<rparr>"

definition gone_view :: channel_view where
  "gone_view = \<lparr>ch_requests = [], ch_replies = [], ch_alive = False\<rparr>"

definition initial_protocol :: protocol where
  "initial_protocol = \<lparr>p_pc = Serving, p_chan = \<lambda>k. quiet_view\<rparr>"

text \<open>A thread serves the oldest request of its channel; a request of one frame has a reply of one.\<close>

definition serves_request :: "(multipart \<Rightarrow> bool) \<Rightarrow> channel_view \<Rightarrow> channel_view \<Rightarrow> bool" where
  "serves_request is_stop c c' \<longleftrightarrow> (\<exists>m ms rs. ch_alive c \<and> ch_requests c = m # ms \<and> ch_requests c' = ms \<and>
     ch_replies c' = ch_replies c @ rs \<and> ((\<exists>w. m = [w]) \<longrightarrow> (\<exists>r. rs = [[r]])) \<and> (ch_alive c' \<longleftrightarrow> \<not> is_stop m))"

inductive protocol_step :: "stop_order \<Rightarrow> protocol \<Rightarrow> protocol \<Rightarrow> bool" for ord where
  serve: "k < length ord \<Longrightarrow> serves_request (stops_channel ord k) (p_chan p k) c \<Longrightarrow>
     protocol_step ord p (p\<lparr>p_chan := (p_chan p)(k := c)\<rparr>)"
| request: "p_pc p = Serving \<Longrightarrow> \<not> stops_channel ord 0 [w] \<Longrightarrow>
     protocol_step ord p (p\<lparr>p_pc := Requesting,
       p_chan := (p_chan p)(0 := (p_chan p 0)\<lparr>ch_requests := ch_requests (p_chan p 0) @ [[w]]\<rparr>)\<rparr>)"
| answered: "p_pc p = Requesting \<Longrightarrow> ch_replies (p_chan p 0) = r # rs \<Longrightarrow>
     protocol_step ord p (p\<lparr>p_pc := Serving, p_chan := (p_chan p)(0 := (p_chan p 0)\<lparr>ch_replies := rs\<rparr>)\<rparr>)"
| quit: "p_pc p = Serving \<Longrightarrow> protocol_step ord p (p\<lparr>p_pc := Ask 0\<rparr>)"
| ask: "p_pc p = Ask k \<Longrightarrow>
     protocol_step ord p (p\<lparr>p_pc := Await k,
       p_chan := (p_chan p)(k := (p_chan p k)\<lparr>ch_requests := ch_requests (p_chan p k) @ [[stop_frame ord k]]\<rparr>)\<rparr>)"
| advance: "p_pc p = Await k \<Longrightarrow> ch_replies (p_chan p k) = r # rs \<Longrightarrow>
     protocol_step ord p (p\<lparr>p_pc := (if Suc k < length ord then Ask (Suc k) else Finished),
       p_chan := (p_chan p)(k := (p_chan p k)\<lparr>ch_replies := rs\<rparr>)\<rparr>)"

section \<open>The invariant\<close>

text \<open>
  There is at most one request under way: waiting at a channel that is alive, or answered; a
  request to stop leaves the channel dead.
\<close>

definition under_way :: "frame \<Rightarrow> bool \<Rightarrow> channel_view \<Rightarrow> bool" where
  "under_way w stopping c \<longleftrightarrow>
     c = \<lparr>ch_requests = [[w]], ch_replies = [], ch_alive = True\<rparr> \<or>
     (\<exists>r. c = \<lparr>ch_requests = [], ch_replies = [[r]], ch_alive = \<not> stopping\<rparr>)"

fun protocol_views :: "stop_order \<Rightarrow> control_pc \<Rightarrow> nat \<Rightarrow> channel_view \<Rightarrow> bool" where
  "protocol_views ord Serving k c = (c = quiet_view)"
| "protocol_views ord Requesting k c =
     (if k = 0 then \<exists>w. \<not> stops_channel ord 0 [w] \<and> under_way w False c else c = quiet_view)"
| "protocol_views ord (Ask i) k c = (c = (if k < i then gone_view else quiet_view))"
| "protocol_views ord (Await i) k c =
     (if k < i then c = gone_view else if k = i then under_way (stop_frame ord i) True c else c = quiet_view)"
| "protocol_views ord Finished k c = (c = gone_view)"

fun valid_pc :: "stop_order \<Rightarrow> control_pc \<Rightarrow> bool" where
  "valid_pc ord (Ask k) = (k < length ord)"
| "valid_pc ord (Await k) = (k < length ord)"
| "valid_pc ord pc = True"

definition protocol_inv :: "stop_order \<Rightarrow> protocol \<Rightarrow> bool" where
  "protocol_inv ord p \<longleftrightarrow> valid_pc ord (p_pc p) \<and> (\<forall>k < length ord. protocol_views ord (p_pc p) k (p_chan p k))"

lemma initial_protocol_inv: "protocol_inv ord initial_protocol"
  by (simp add: protocol_inv_def initial_protocol_def)

lemma serves_quiet [simp]: "\<not> serves_request is_stop quiet_view c" "\<not> serves_request is_stop gone_view c"
  by (simp_all add: serves_request_def quiet_view_def gone_view_def)

lemma serves_under_way:
  assumes "serves_request is_stop c c'" "under_way w stopping c" "is_stop [w] \<longleftrightarrow> stopping"
  shows "under_way w stopping c'"
  using assms by (cases c') (auto simp: serves_request_def under_way_def)

lemma answered_under_way:
  "under_way w stopping c \<Longrightarrow> ch_replies c = r # rs \<Longrightarrow>
   c\<lparr>ch_replies := rs\<rparr> = \<lparr>ch_requests = [], ch_replies = [], ch_alive = \<not> stopping\<rparr>"
  by (cases c) (auto simp: under_way_def)

lemma asked_view: "quiet_view\<lparr>ch_requests := ch_requests quiet_view @ [[w]]\<rparr> = \<lparr>ch_requests = [[w]], ch_replies = [], ch_alive = True\<rparr>"
  by (simp add: quiet_view_def)

lemma serve_keeps_views:
  assumes "stop_order_ok ord" "k < length ord" "serves_request (stops_channel ord k) c c'" "protocol_views ord pc k c"
  shows "protocol_views ord pc k c'"
proof (cases pc)
  case Requesting
  with assms show ?thesis
    by (auto split: if_splits intro: serves_under_way)
qed (use assms in \<open>auto simp: stop_order_ok_def split: if_splits intro: serves_under_way\<close>)

lemma protocol_step_inv:
  "protocol_step ord p p' \<Longrightarrow> stop_order_ok ord \<Longrightarrow> protocol_inv ord p \<Longrightarrow> protocol_inv ord p'"
proof (induction rule: protocol_step.induct)
  case (serve k p c)
  then show ?case using serve_keeps_views [of ord k "p_chan p k" c] by (auto simp: protocol_inv_def)
next
  case (request p w)
  then show ?case by (auto simp: protocol_inv_def asked_view under_way_def)
next
  case (answered p r rs)
  then have "0 < length ord" by (simp add: stop_order_ok_def)
  with answered obtain w where "under_way w False (p_chan p 0)" by (auto simp: protocol_inv_def dest!: spec [of _ 0])
  from answered_under_way [OF this answered(2)] have "(p_chan p 0)\<lparr>ch_replies := rs\<rparr> = quiet_view"
    by (simp add: quiet_view_def)
  with answered show ?case by (auto simp: protocol_inv_def)
next
  case (quit p)
  then show ?case by (auto simp: protocol_inv_def stop_order_ok_def)
next
  case (ask p k)
  then show ?case by (auto simp: protocol_inv_def asked_view under_way_def)
next
  case (advance p k r rs)
  then have "k < length ord" "under_way (stop_frame ord k) True (p_chan p k)" by (auto simp: protocol_inv_def)
  from answered_under_way [OF this(2) advance(2)] have "(p_chan p k)\<lparr>ch_replies := rs\<rparr> = gone_view"
    by (simp add: gone_view_def)
  with advance \<open>k < length ord\<close> show ?case by (auto simp: protocol_inv_def)
qed

text \<open>What it says of the threads: they stop in order, none before the stop, all in the end.\<close>

lemma views_alive:
  "protocol_views ord Finished k c \<Longrightarrow> \<not> ch_alive c"
  "pc = Serving \<or> pc = Requesting \<Longrightarrow> protocol_views ord pc k c \<Longrightarrow> ch_alive c"
  "j < k \<Longrightarrow> protocol_views ord pc j c' \<Longrightarrow> protocol_views ord pc k c \<Longrightarrow> \<not> ch_alive c \<Longrightarrow> \<not> ch_alive c'"
  by (cases pc; auto simp: under_way_def quiet_view_def gone_view_def split: if_splits)+

lemma protocol_inv_alive:
  assumes "protocol_inv ord p"
  shows "p_pc p = Finished \<Longrightarrow> k < length ord \<Longrightarrow> \<not> ch_alive (p_chan p k)"
    and "p_pc p = Serving \<or> p_pc p = Requesting \<Longrightarrow> k < length ord \<Longrightarrow> ch_alive (p_chan p k)"
    and "j < k \<Longrightarrow> k < length ord \<Longrightarrow> \<not> ch_alive (p_chan p k) \<Longrightarrow> \<not> ch_alive (p_chan p j)"
  using assms views_alive(1) [of ord k "p_chan p k"] views_alive(2) [of "p_pc p" ord k "p_chan p k"]
    views_alive(3) [of j k ord "p_pc p" "p_chan p j" "p_chan p k"]
  by (auto simp: protocol_inv_def)

section \<open>The contract of a controlled thread\<close>

text \<open>
  One turn, as seen from the channel's socket \<open>ctl\<close>: either the thread goes on and has not
  touched it, or it has served the oldest request.
\<close>

definition thread_serves :: "(multipart \<Rightarrow> bool) \<Rightarrow> 's \<Rightarrow> multipart list \<Rightarrow> 's net \<Rightarrow> loop_status \<Rightarrow> 's net \<Rightarrow> bool" where
  "thread_serves is_stop ctl arrived n status n' \<longleftrightarrow>
     (status = Running \<and> inbox n' ctl = inbox n ctl @ arrived \<and>
        on_socket ctl (outbox n') = on_socket ctl (outbox n)) \<or>
     (\<exists>rs. on_socket ctl (outbox n') = on_socket ctl (outbox n) @ rs \<and>
        serves_request is_stop \<lparr>ch_requests = inbox n ctl @ arrived, ch_replies = [], ch_alive = True\<rparr>
          \<lparr>ch_requests = inbox n' ctl, ch_replies = rs, ch_alive = (status = Running)\<rparr>)"

text \<open>
  A thread whose turns keep this contract, when the kernel's code that it calls does what is
  asked of it; which returns from a turn in which a request waits when its state is fit for it; and which
  only leaves the request waiting while a backlog of other messages shrinks.
\<close>

locale controlled_thread =
  fixes turn :: "('s \<times> multipart) list \<Rightarrow> ('st, loop_status) prog"
    and kernel_ok :: bool
    and ctl :: 's
    and net_of :: "'st \<Rightarrow> 's net"
    and is_stop :: "multipart \<Rightarrow> bool"
    and fit :: "'st \<Rightarrow> bool"
    and backlog :: "'s net \<Rightarrow> nat"
  assumes turn_serves: "kernel_ok \<Longrightarrow> turn batch st = (Inr status, st') \<Longrightarrow>
      thread_serves is_stop ctl (on_socket ctl batch) (net_of st) status (net_of st')"
    and turn_returns: "kernel_ok \<Longrightarrow> fit st \<Longrightarrow> inbox (net_of st) ctl \<noteq> [] \<Longrightarrow>
      \<exists>status st'. turn [] st = (Inr status, st') \<and> (status = Running \<longrightarrow> fit st')"
    and turn_backlog: "kernel_ok \<Longrightarrow> turn [] st = (Inr status, st') \<Longrightarrow> inbox (net_of st) ctl \<noteq> [] \<Longrightarrow>
      inbox (net_of st') ctl = inbox (net_of st) ctl \<Longrightarrow> backlog (net_of st') < backlog (net_of st)"
begin

text \<open>
  A single request is served in the end, without anything else arriving: \<open>emb st running\<close> is
  a state of a larger system, in which the turns of the thread are steps.
\<close>

lemma eventually_served:
  assumes ok: "kernel_ok"
    and lift: "\<And>st status st'. turn [] st = (Inr status, st') \<Longrightarrow> step (emb st True) (emb st' (status = Running))"
    and stop: "is_stop [w]"
  shows "fit st \<Longrightarrow> inbox (net_of st) ctl = [[w]] \<Longrightarrow> \<exists>st'. step\<^sup>*\<^sup>* (emb st True) (emb st' False)"
proof (induction "backlog (net_of st)" arbitrary: st rule: less_induct)
  case less
  from turn_returns [OF ok less.prems(1)] less.prems(2) obtain status st1 where
    1: "turn [] st = (Inr status, st1)" "status = Running \<longrightarrow> fit st1" by auto
  note step1 = lift [OF 1(1)]
  show ?case
  proof (cases status)
    case Running
    with turn_serves [OF ok 1(1)] stop less.prems(2) have untouched: "inbox (net_of st1) ctl = [[w]]"
      by (auto simp: thread_serves_def serves_request_def)
    have "backlog (net_of st1) < backlog (net_of st)"
      using turn_backlog [OF ok 1(1)] less.prems(2) untouched by simp
    from less.hyps [OF this _ untouched] 1(2) Running obtain st' where "step\<^sup>*\<^sup>* (emb st1 True) (emb st' False)" by blast
    moreover have "step (emb st True) (emb st1 True)" using step1 Running by simp
    ultimately show ?thesis by (blast intro: converse_rtranclp_into_rtranclp)
  next
    case Stopped
    with step1 show ?thesis by (intro exI [of _ st1]) auto
  qed
qed

end

text \<open>The threads that echo what they read on the socket that controls them, and stop.\<close>

lemma answers_on_ctl:
  assumes "answers respond arrived n n'"
    "\<And>s m. on_socket ctl (respond s m) = (if s = ctl \<and> m \<noteq> [] then [m] else [])"
  obtains ms where "ms @ inbox n' ctl = inbox n ctl @ on_socket ctl arrived"
    "on_socket ctl (outbox n') = on_socket ctl (outbox n) @ filter (\<lambda>m. m \<noteq> []) ms"
proof -
  from assms(1) obtain ms where ms: "outbox n' = outbox n @ responses respond ms"
    "\<And>s. on_socket s ms @ inbox n' s = inbox n s @ on_socket s arrived"
    by (auto simp: answers_def)
  have "on_socket ctl (responses respond ms) = filter (\<lambda>m. m \<noteq> []) (on_socket ctl ms)" for ms
    by (induction ms) (auto simp: assms(2))
  with ms show ?thesis by (intro that [of "on_socket ctl ms"]) simp_all
qed

lemma echoing_thread_serves:
  assumes "answers respond batch n n'"
    "\<And>s m. on_socket ctl (respond s m) = (if s = ctl \<and> m \<noteq> [] then [m] else [])"
    "inbox n' ctl = tl (inbox n ctl @ on_socket ctl batch)"
    "status = Stopped \<longleftrightarrow> inbox n ctl @ on_socket ctl batch \<noteq> []"
  shows "thread_serves (\<lambda>m. True) ctl (on_socket ctl batch) n status n'"
proof -
  from answers_on_ctl [OF assms(1,2)] obtain ms where
    ms: "ms @ inbox n' ctl = inbox n ctl @ on_socket ctl batch"
      "on_socket ctl (outbox n') = on_socket ctl (outbox n) @ filter (\<lambda>m. m \<noteq> []) ms" by blast
  show ?thesis
  proof (cases "inbox n ctl @ on_socket ctl batch")
    case Nil
    with assms(4) have "status = Running" by (cases status) auto
    with ms assms(3) Nil show ?thesis by (simp add: thread_serves_def)
  next
    case (Cons m rest)
    with ms(1) assms(3) have "ms = [m]" by simp
    with ms Cons assms(3,4) show ?thesis by (auto simp: thread_serves_def serves_request_def)
  qed
qed

end
