(* ===== verification/Stop_Network.thy ===== *)
theory Stop_Network
  imports Stop_Protocol
begin

text \<open>
  The protocol of \<open>Stop_Protocol\<close> over a network: what the controller and its threads have sent,
  how much of it has been handed over, and what waits at each thread. The processes of the
  program are mapped to it (\<open>Split_System\<close>, \<open>Client_System\<close>), and what their controlling
  threads can rely on is proved here once.
\<close>

section \<open>The network between the controller and its channels\<close>

record wires =
  w_pc :: control_pc
  w_asked :: "nat \<Rightarrow> multipart list"
  w_delivered :: "nat \<Rightarrow> nat"
  w_inbox :: "nat \<Rightarrow> multipart list"
  w_answered :: "nat \<Rightarrow> multipart list"
  w_taken :: "nat \<Rightarrow> nat"
  w_running :: "nat \<Rightarrow> bool"

definition requests_under_way :: "wires \<Rightarrow> nat \<Rightarrow> multipart list" where
  "requests_under_way w k = drop (w_delivered w k) (w_asked w k)"

definition replies_under_way :: "wires \<Rightarrow> nat \<Rightarrow> multipart list" where
  "replies_under_way w k = drop (w_taken w k) (w_answered w k)"

definition initial_wires :: wires where
  "initial_wires = \<lparr>w_pc = Serving, w_asked = (\<lambda>k. []), w_delivered = (\<lambda>k. 0), w_inbox = (\<lambda>k. []),
     w_answered = (\<lambda>k. []), w_taken = (\<lambda>k. 0), w_running = (\<lambda>k. True)\<rparr>"

definition after_reply :: "stop_order \<Rightarrow> nat \<Rightarrow> control_pc" where
  "after_reply ord k = (if Suc k < length ord then Ask (Suc k) else Finished)"

definition hand_over :: "nat \<Rightarrow> multipart \<Rightarrow> wires \<Rightarrow> wires" where
  "hand_over k m w = w\<lparr>w_delivered := (w_delivered w)(k := Suc (w_delivered w k)),
     w_inbox := (w_inbox w)(k := w_inbox w k @ [m])\<rparr>"

definition put_request :: "nat \<Rightarrow> frame \<Rightarrow> control_pc \<Rightarrow> wires \<Rightarrow> wires" where
  "put_request k f pc w = w\<lparr>w_pc := pc, w_asked := (w_asked w)(k := w_asked w k @ [[f]])\<rparr>"

definition take_reply :: "nat \<Rightarrow> control_pc \<Rightarrow> wires \<Rightarrow> wires" where
  "take_reply k pc w = w\<lparr>w_pc := pc, w_taken := (w_taken w)(k := Suc (w_taken w k))\<rparr>"

definition after_turn :: "nat \<Rightarrow> multipart list \<Rightarrow> multipart list \<Rightarrow> bool \<Rightarrow> wires \<Rightarrow> wires" where
  "after_turn k ms answered running w = w\<lparr>w_inbox := (w_inbox w)(k := ms),
     w_answered := (w_answered w)(k := answered), w_running := (w_running w)(k := running)\<rparr>"

inductive wires_step :: "stop_order \<Rightarrow> wires \<Rightarrow> wires \<Rightarrow> bool" for ord where
  turn: "k < length ord \<Longrightarrow> w_running w k \<Longrightarrow>
     serves_request (stops_channel ord k) \<lparr>ch_requests = w_inbox w k, ch_replies = [], ch_alive = True\<rparr>
       \<lparr>ch_requests = ms, ch_replies = rs, ch_alive = running\<rparr> \<Longrightarrow>
     wires_step ord w (after_turn k ms (w_answered w k @ rs) running w)"
| deliver: "k < length ord \<Longrightarrow> requests_under_way w k = m # rest \<Longrightarrow> wires_step ord w (hand_over k m w)"
| request: "w_pc w = Serving \<Longrightarrow> \<not> stops_channel ord 0 [f] \<Longrightarrow> wires_step ord w (put_request 0 f Requesting w)"
| answered: "w_pc w = Requesting \<Longrightarrow> replies_under_way w 0 = r # rs \<Longrightarrow> wires_step ord w (take_reply 0 Serving w)"
| quit: "w_pc w = Serving \<Longrightarrow> wires_step ord w (w\<lparr>w_pc := Ask 0\<rparr>)"
| ask: "w_pc w = Ask k \<Longrightarrow> wires_step ord w (put_request k (stop_frame ord k) (Await k) w)"
| advance: "w_pc w = Await k \<Longrightarrow> replies_under_way w k = r # rs \<Longrightarrow>
     wires_step ord w (take_reply k (after_reply ord k) w)"

section \<open>Refinement of the protocol\<close>

definition wires_protocol :: "wires \<Rightarrow> protocol" where
  "wires_protocol w = \<lparr>p_pc = w_pc w, p_chan = \<lambda>k. \<lparr>ch_requests = w_inbox w k @ requests_under_way w k,
     ch_replies = replies_under_way w k, ch_alive = w_running w k\<rparr>\<rparr>"

definition wires_inv :: "stop_order \<Rightarrow> wires \<Rightarrow> bool" where
  "wires_inv ord w \<longleftrightarrow> (\<forall>k. w_delivered w k \<le> length (w_asked w k) \<and> w_taken w k \<le> length (w_answered w k)) \<and>
     protocol_inv ord (wires_protocol w)"

lemma initial_wires_inv: "wires_inv ord initial_wires"
  by (simp add: wires_inv_def initial_wires_def wires_protocol_def requests_under_way_def replies_under_way_def
      protocol_inv_def quiet_view_def)

lemma serves_request_frame:
  "serves_request is_stop \<lparr>ch_requests = a, ch_replies = [], ch_alive = True\<rparr> \<lparr>ch_requests = a', ch_replies = rs, ch_alive = b\<rparr> \<Longrightarrow>
   serves_request is_stop \<lparr>ch_requests = a @ x, ch_replies = y, ch_alive = True\<rparr> \<lparr>ch_requests = a' @ x, ch_replies = y @ rs, ch_alive = b\<rparr>"
  by (auto simp: serves_request_def)

lemma drop_Cons_length: "drop n xs = y # ys \<Longrightarrow> n < length xs \<and> drop (Suc n) xs = ys"
  by (metis drop_Suc drop_eq_Nil drop_tl list.distinct(1) list.sel(3) not_le)

lemma wires_step_simulates:
  assumes "wires_step ord w w'" "wires_inv ord w"
  shows "(wires_protocol w' = wires_protocol w \<or> protocol_step ord (wires_protocol w) (wires_protocol w')) \<and>
    (\<forall>k. w_delivered w' k \<le> length (w_asked w' k) \<and> w_taken w' k \<le> length (w_answered w' k))"
  using assms
proof (cases rule: wires_step.cases)
  case (turn k ms rs running)
  have "serves_request (stops_channel ord k) (p_chan (wires_protocol w) k) (p_chan (wires_protocol w') k)"
    using serves_request_frame [OF turn(4), of "requests_under_way w k" "replies_under_way w k"] turn(1,3) assms(2)
    by (simp add: wires_protocol_def after_turn_def requests_under_way_def replies_under_way_def wires_inv_def)
  from protocol_step.serve [OF turn(2) this]
  have "protocol_step ord (wires_protocol w) ((wires_protocol w)\<lparr>p_chan := (p_chan (wires_protocol w))
      (k := p_chan (wires_protocol w') k)\<rparr>)" .
  moreover have "(wires_protocol w)\<lparr>p_chan := (p_chan (wires_protocol w))(k := p_chan (wires_protocol w') k)\<rparr>
      = wires_protocol w'"
    using turn(1) by (simp add: wires_protocol_def after_turn_def requests_under_way_def replies_under_way_def fun_eq_iff)
  ultimately have "protocol_step ord (wires_protocol w) (wires_protocol w')" by simp
  then show ?thesis using turn(1) assms(2) by (auto simp: wires_inv_def after_turn_def intro: trans_le_add1)
next
  case (deliver k m rest)
  then have "w_delivered w k < length (w_asked w k)" "drop (Suc (w_delivered w k)) (w_asked w k) = rest"
    by (auto simp: requests_under_way_def dest: drop_Cons_length)
  with deliver assms(2) show ?thesis
    by (auto simp: wires_protocol_def hand_over_def requests_under_way_def replies_under_way_def wires_inv_def fun_eq_iff)
next
  case (request f)
  have "wires_protocol w' = (wires_protocol w)\<lparr>p_pc := Requesting, p_chan := (p_chan (wires_protocol w))
      (0 := (p_chan (wires_protocol w) 0)\<lparr>ch_requests := ch_requests (p_chan (wires_protocol w) 0) @ [[f]]\<rparr>)\<rparr>"
    using request(1) assms(2) by (auto simp: wires_protocol_def put_request_def requests_under_way_def replies_under_way_def
        wires_inv_def fun_eq_iff)
  with protocol_step.request [of "wires_protocol w" ord f] request assms(2) show ?thesis
    by (auto simp: wires_protocol_def wires_inv_def put_request_def intro: le_SucI)
next
  case (answered r rs)
  then have "w_taken w 0 < length (w_answered w 0)" "drop (Suc (w_taken w 0)) (w_answered w 0) = rs"
    by (auto simp: replies_under_way_def dest: drop_Cons_length)
  moreover from this have "wires_protocol w' = (wires_protocol w)\<lparr>p_pc := Serving, p_chan := (p_chan (wires_protocol w))
      (0 := (p_chan (wires_protocol w) 0)\<lparr>ch_replies := rs\<rparr>)\<rparr>"
    using answered(1) by (auto simp: wires_protocol_def take_reply_def requests_under_way_def replies_under_way_def fun_eq_iff)
  ultimately show ?thesis
    using protocol_step.answered [of "wires_protocol w" r rs ord] answered assms(2)
    by (auto simp: wires_protocol_def wires_inv_def take_reply_def)
next
  case quit
  have "wires_protocol w' = (wires_protocol w)\<lparr>p_pc := Ask 0\<rparr>"
    using quit(1) by (simp add: wires_protocol_def requests_under_way_def replies_under_way_def)
  with protocol_step.quit [of "wires_protocol w" ord] quit assms(2) show ?thesis
    by (auto simp: wires_protocol_def wires_inv_def)
next
  case (ask k)
  have "wires_protocol w' = (wires_protocol w)\<lparr>p_pc := Await k, p_chan := (p_chan (wires_protocol w))
      (k := (p_chan (wires_protocol w) k)\<lparr>ch_requests := ch_requests (p_chan (wires_protocol w) k) @ [[stop_frame ord k]]\<rparr>)\<rparr>"
    using ask(1) assms(2) by (auto simp: wires_protocol_def put_request_def requests_under_way_def replies_under_way_def
        wires_inv_def fun_eq_iff)
  with protocol_step.ask [of "wires_protocol w" k ord] ask assms(2) show ?thesis
    by (auto simp: wires_protocol_def wires_inv_def put_request_def intro: le_SucI)
next
  case (advance k r rs)
  then have "w_taken w k < length (w_answered w k)" "drop (Suc (w_taken w k)) (w_answered w k) = rs"
    by (auto simp: replies_under_way_def dest: drop_Cons_length)
  moreover from this have "wires_protocol w' = (wires_protocol w)\<lparr>p_pc := after_reply ord k, p_chan := (p_chan (wires_protocol w))
      (k := (p_chan (wires_protocol w) k)\<lparr>ch_replies := rs\<rparr>)\<rparr>"
    using advance(1) by (auto simp: wires_protocol_def take_reply_def requests_under_way_def replies_under_way_def fun_eq_iff)
  ultimately show ?thesis
    using protocol_step.advance [of "wires_protocol w" k r rs ord] advance assms(2)
    by (auto simp: wires_protocol_def wires_inv_def take_reply_def after_reply_def)
qed

lemma wires_step_inv:
  assumes "wires_step ord w w'" "stop_order_ok ord" "wires_inv ord w"
  shows "wires_inv ord w'"
  using wires_step_simulates [OF assms(1,3)] protocol_step_inv [of ord "wires_protocol w" "wires_protocol w'"] assms
  by (auto simp: wires_inv_def)

text \<open>A turn of a thread that keeps its contract is a step, or nothing the network sees.\<close>

lemma thread_turn_wires:
  assumes "k < length ord" "w_running w k" "thread_serves (stops_channel ord k) ctl [] n status n'"
    "inbox n ctl = w_inbox w k" "on_socket ctl (outbox n) = w_answered w k"
    "w' = after_turn k (inbox n' ctl) (on_socket ctl (outbox n')) (status = Running) w"
  shows "w' = w \<or> wires_step ord w w'"
  using assms(3) unfolding thread_serves_def
proof (elim disjE exE conjE)
  assume "status = Running" "inbox n' ctl = inbox n ctl @ []" "on_socket ctl (outbox n') = on_socket ctl (outbox n)"
  then show ?thesis using assms by (cases w) (auto simp: after_turn_def fun_upd_idem)
next
  fix rs
  assume "on_socket ctl (outbox n') = on_socket ctl (outbox n) @ rs"
    "serves_request (stops_channel ord k) \<lparr>ch_requests = inbox n ctl @ [], ch_replies = [], ch_alive = True\<rparr>
      \<lparr>ch_requests = inbox n' ctl, ch_replies = rs, ch_alive = status = Running\<rparr>"
  then show ?thesis using wires_step.turn [of k ord w "inbox n' ctl" rs "status = Running"] assms by simp
qed

text \<open>Where the controller waits, there is one request under way.\<close>

lemma await_view:
  assumes "wires_inv ord w" "w_pc w = Await k"
  shows "k < length ord" and "under_way (stop_frame ord k) True \<lparr>ch_requests = w_inbox w k @ requests_under_way w k,
    ch_replies = replies_under_way w k, ch_alive = w_running w k\<rparr>"
  using assms by (auto simp: wires_inv_def protocol_inv_def wires_protocol_def dest!: spec [of _ k])

lemma reply_single:
  assumes "wires_inv ord w" "stop_order_ok ord" "replies_under_way w k = m # rest"
    "(k = 0 \<and> w_pc w = Requesting) \<or> w_pc w = Await k"
  obtains f where "m = [f]" "k < length ord"
proof -
  have k: "k < length ord" using assms(1,2,4) by (auto simp: wires_inv_def protocol_inv_def wires_protocol_def stop_order_ok_def)
  with assms(1,4) obtain f b where "under_way f b (p_chan (wires_protocol w) k)"
    by (auto simp: wires_inv_def protocol_inv_def wires_protocol_def dest!: spec [of _ k])
  then have "\<exists>f. m = [f]" using assms(3) by (auto simp: under_way_def wires_protocol_def)
  with k that show thesis by blast
qed

lemma running_iff:
  assumes "wires_inv ord w" "j < length ord"
  shows "w_running w j \<longleftrightarrow> (case w_pc w of Serving \<Rightarrow> True | Requesting \<Rightarrow> True | Ask k \<Rightarrow> k \<le> j
    | Await k \<Rightarrow> k < j \<or> (k = j \<and> replies_under_way w k = []) | Finished \<Rightarrow> False)"
proof -
  have "protocol_views ord (w_pc w) j (p_chan (wires_protocol w) j)"
    using assms by (auto simp: wires_inv_def protocol_inv_def wires_protocol_def)
  then show ?thesis
    by (cases "w_pc w") (auto simp: wires_protocol_def quiet_view_def gone_view_def under_way_def split: if_splits)
qed

text \<open>
  The order of a process with two channels whose threads stop at any message (\<open>Default_System\<close>, \<open>Client_System\<close>):
  the message object is empty when it is sent to the second.
\<close>

definition echo_order :: stop_order where
  "echo_order = [(''stop'', \<lambda>m. True), ([], \<lambda>m. True)]"

lemma echo_order_simps [simp]:
  "length echo_order = 2" "stop_frame echo_order 0 = ''stop''" "stop_frame echo_order 1 = []"
  "stop_frame echo_order (Suc 0) = []" "stops_channel echo_order 0 = (\<lambda>m. True)"
  "stops_channel echo_order 1 = (\<lambda>m. True)" "stops_channel echo_order (Suc 0) = (\<lambda>m. True)"
  by (simp_all add: echo_order_def stop_frame_def stops_channel_def)

lemma echo_stop_order_ok: "stop_order_ok echo_order"
  by (simp add: stop_order_ok_def echo_order_def stop_frame_def stops_channel_def less_Suc_eq numeral_2_eq_2)

lemma below_2: "i < 2 \<longleftrightarrow> i = 0 \<or> i = (1 :: nat)" by auto

section \<open>What a process with controlled threads can rely on\<close>

text \<open>
  A process whose steps are steps of the network or invisible to it. In a state that is \<open>fit\<close> for it,
  the controller can ask and take replies, the network can hand over a request to stop, and the thread
  it is meant for can serve it; \<open>idle\<close> is what the process keeps of its own. \<open>ok\<close> stands for what is asked of
  code outside the process.
\<close>

locale stopping_process =
  fixes step :: "'s \<Rightarrow> 's \<Rightarrow> bool"
    and start :: 's
    and wires :: "'s \<Rightarrow> wires"
    and ord :: stop_order
    and ok :: bool
    and idle :: "'s \<Rightarrow> bool"
    and fit :: "'s \<Rightarrow> bool"
  assumes order_ok: "stop_order_ok ord"
    and start_wires: "wires start = initial_wires"
    and start_idle: "idle start"
    and step_wires: "ok \<Longrightarrow> step s s' \<Longrightarrow> idle s \<Longrightarrow> wires_inv ord (wires s) \<Longrightarrow>
      (wires s' = wires s \<or> wires_step ord (wires s) (wires s')) \<and> idle s'"
    and can_ask: "ok \<Longrightarrow> fit s \<Longrightarrow> k < length ord \<Longrightarrow> w_pc (wires s) = Ask k \<Longrightarrow>
      \<exists>s'. step s s' \<and> w_pc (wires s') = Await k \<and> fit s'"
    and can_deliver: "ok \<Longrightarrow> fit s \<Longrightarrow> k < length ord \<Longrightarrow> requests_under_way (wires s) k = [stop_frame ord k] # rest \<Longrightarrow>
      \<exists>s'. step s s' \<and> wires s' = hand_over k [stop_frame ord k] (wires s) \<and> fit s'"
    and can_serve: "ok \<Longrightarrow> fit s \<Longrightarrow> k < length ord \<Longrightarrow> w_running (wires s) k \<Longrightarrow>
      w_inbox (wires s) k = [[stop_frame ord k]] \<Longrightarrow>
      \<exists>s'. step\<^sup>*\<^sup>* s s' \<and> w_pc (wires s') = w_pc (wires s) \<and> \<not> w_running (wires s') k \<and> fit s'"
    and can_advance: "ok \<Longrightarrow> fit s \<Longrightarrow> idle s \<Longrightarrow> k < length ord \<Longrightarrow> w_pc (wires s) = Await k \<Longrightarrow>
      replies_under_way (wires s) k = [r] # rest \<Longrightarrow> \<exists>s'. step s s' \<and> w_pc (wires s') = after_reply ord k \<and> fit s'"
begin

lemma steps_inv:
  assumes "step\<^sup>*\<^sup>* s s'" ok "idle s" "wires_inv ord (wires s)"
  shows "idle s' \<and> wires_inv ord (wires s')"
  using assms(1)
proof (induction rule: rtranclp_induct)
  case (step s1 s2)
  with step_wires [OF assms(2) step(2)] order_ok show ?case by (metis wires_step_inv)
qed (use assms in simp)

lemma reachable_inv:
  assumes "step\<^sup>*\<^sup>* start s" ok
  shows "idle s \<and> wires_inv ord (wires s)"
  using steps_inv [OF assms start_idle] initial_wires_inv by (simp add: start_wires)

lemma reachable_refines:
  assumes "step\<^sup>*\<^sup>* start s" ok
  shows "(protocol_step ord)\<^sup>*\<^sup>* initial_protocol (wires_protocol (wires s)) \<and> protocol_inv ord (wires_protocol (wires s))"
  using assms(1)
proof (induction rule: rtranclp_induct)
  case base
  have "wires_protocol (wires start) = initial_protocol"
    by (simp add: start_wires wires_protocol_def initial_wires_def initial_protocol_def requests_under_way_def
        replies_under_way_def quiet_view_def)
  then show ?case by (simp add: initial_protocol_inv)
next
  case (step s1 s2)
  from reachable_inv [OF step(1) assms(2)] have inv: "idle s1" "wires_inv ord (wires s1)" by simp_all
  from step_wires [OF assms(2) step(2) inv] wires_step_simulates [of ord "wires s1" "wires s2"] inv(2) step(3)
    protocol_step_inv [of ord "wires_protocol (wires s1)" "wires_protocol (wires s2)"] order_ok
  show ?case by (auto intro: rtranclp.rtrancl_into_rtrancl)
qed

lemma await_served:
  assumes ok "idle s" "wires_inv ord (wires s)" "fit s" "w_pc (wires s) = Await k"
  shows "\<exists>s'. step\<^sup>*\<^sup>* s s' \<and> w_pc (wires s') = Await k \<and> \<not> w_running (wires s') k \<and> fit s'"
proof (cases "w_running (wires s) k")
  case True
  note view = await_view [OF assms(3,5)]
  from view(2) True have waiting: "w_inbox (wires s) k @ requests_under_way (wires s) k = [[stop_frame ord k]]"
    by (auto simp: under_way_def)
  show ?thesis
  proof (cases "requests_under_way (wires s) k")
    case Nil
    with can_serve [OF assms(1,4) view(1) True] waiting assms(5) show ?thesis by simp
  next
    case (Cons m rest)
    with waiting have m: "m = [stop_frame ord k]" "w_inbox (wires s) k = []" by (simp_all add: append_eq_Cons_conv)
    from can_deliver [OF assms(1,4) view(1) Cons [unfolded m(1)]] obtain s1 where
      s1: "step s s1" "wires s1 = hand_over k [stop_frame ord k] (wires s)" "fit s1" by blast
    have "w_running (wires s1) k" "w_inbox (wires s1) k = [[stop_frame ord k]]" "w_pc (wires s1) = Await k"
      using s1(2) True m(2) assms(5) by (simp_all add: hand_over_def)
    with can_serve [OF assms(1) s1(3) view(1)] obtain s' where
      "step\<^sup>*\<^sup>* s1 s'" "w_pc (wires s') = Await k" "\<not> w_running (wires s') k" "fit s'" by auto
    with s1(1) show ?thesis by (blast intro: converse_rtranclp_into_rtranclp)
  qed
qed (use assms in blast)

lemma await_advances:
  assumes ok "idle s" "wires_inv ord (wires s)" "fit s" "w_pc (wires s) = Await k"
  shows "\<exists>s'. step\<^sup>*\<^sup>* s s' \<and> w_pc (wires s') = after_reply ord k \<and> fit s'"
proof -
  from await_served [OF assms] obtain s1 where
    s1: "step\<^sup>*\<^sup>* s s1" "w_pc (wires s1) = Await k" "\<not> w_running (wires s1) k" "fit s1" by blast
  from steps_inv [OF s1(1) assms(1-3)] have inv: "idle s1" "wires_inv ord (wires s1)" by simp_all
  from await_view [OF inv(2) s1(2)] s1(3) obtain r where "k < length ord" "replies_under_way (wires s1) k = [r] # []"
    by (auto simp: under_way_def)
  from can_advance [OF assms(1) s1(4) inv(1) this(1) s1(2) this(2)] s1(1) show ?thesis
    by (blast intro: rtranclp.rtrancl_into_rtrancl)
qed

lemma stop_completes:
  assumes ok "idle s" "wires_inv ord (wires s)" "fit s" "w_pc (wires s) = Ask k \<or> w_pc (wires s) = Await k"
  shows "\<exists>s'. step\<^sup>*\<^sup>* s s' \<and> w_pc (wires s') = Finished \<and> (\<forall>j < length ord. \<not> w_running (wires s') j) \<and> fit s'"
  using assms(2-)
proof (induction "length ord - k" arbitrary: s k rule: less_induct)
  case less
  have k: "k < length ord" using less.prems(2,4) by (auto simp: wires_inv_def protocol_inv_def wires_protocol_def)
  obtain s1 where s1: "step\<^sup>*\<^sup>* s s1" "w_pc (wires s1) = Await k" "fit s1"
    using less.prems(3,4) can_ask [OF assms(1) less.prems(3) k] by (metis r_into_rtranclp rtranclp.rtrancl_refl)
  from steps_inv [OF s1(1) assms(1) less.prems(1,2)] have inv1: "idle s1" "wires_inv ord (wires s1)" by simp_all
  from await_advances [OF assms(1) inv1 s1(3,2)] obtain s2 where
    s2: "step\<^sup>*\<^sup>* s1 s2" "w_pc (wires s2) = after_reply ord k" "fit s2" by blast
  have s_s2: "step\<^sup>*\<^sup>* s s2" using s1(1) s2(1) by (rule rtranclp_trans)
  from steps_inv [OF s2(1) assms(1) inv1] have inv2: "idle s2" "wires_inv ord (wires s2)" by simp_all
  show ?case
  proof (cases "Suc k < length ord")
    case True
    have "length ord - Suc k < length ord - k" using k by simp
    from less.hyps [OF this inv2 s2(3)] s2(2) True s_s2 show ?thesis
      by (auto simp: after_reply_def intro: rtranclp_trans)
  next
    case False
    then have "w_pc (wires s2) = Finished" using s2(2) by (simp add: after_reply_def)
    with s_s2 s2(3) running_iff [OF inv2(2)] show ?thesis by auto
  qed
qed

end

end
