(* ===== verification/Channel_Threads.thy ===== *)
theory Channel_Threads
  imports Publisher Stop_Network
begin

text \<open>
  The two threads that every server starts, the publisher and the heartbeat, as threads that another one
  controls: interpretations of \<open>controlled_thread\<close> on their turns (\<open>Publisher\<close>), for \<open>Split_System\<close> and
  \<open>Default_System\<close>.
\<close>

section \<open>Publisher and heartbeat keep their contract\<close>

lemma echo_stop_reads:
  assumes "seq (net_recv s) (\<lambda>m. seq (net_send s m) (\<lambda>_. ret Stopped)) n = (Inr x, n')"
  shows "x = Stopped \<and> inbox n s \<noteq> [] \<and> inbox n' s = tl (inbox n s)"
  using assms by (auto simp: seq_Inr_iff prog_simps net_recv_def net_send_sends split: list.splits)

lemma heartbeat_turn_ctl:
  assumes "heartbeat_turn (Poll_arrivals batch) n = (Inr status, n')"
  shows "inbox n' Hb_controller = tl (inbox n Hb_controller @ on_socket Hb_controller batch) \<and>
    (status = Stopped \<longleftrightarrow> inbox n Hb_controller @ on_socket Hb_controller batch \<noteq> [])"
proof -
  let ?n = "arrive batch n"
  from assms obtain n1 where
    n1: "(if readable ?n Hb_controller
          then seq (net_recv Hb_controller) (\<lambda>m. seq (net_send Hb_controller m) (\<lambda>_. ret Stopped))
          else ret Running) n1 = (Inr status, n')" "inbox n1 Hb_controller = inbox ?n Hb_controller"
    by (auto simp: heartbeat_turn_def elim!: forward_phase [where respond = sends])
  then show ?thesis
    by (cases "readable ?n Hb_controller") (auto simp: readable_def prog_simps dest!: echo_stop_reads)
qed

lemma heartbeat_turn_ok: "\<exists>status n'. heartbeat_turn (Poll_arrivals batch) n = (Inr status, n')"
proof -
  let ?n = "arrive batch n"
  from forward_phase_ok [of ?n Hb_heartbeat Hb_heartbeat] obtain n1 where
      phase: "\<And>f :: unit \<Rightarrow> (heartbeat_socket net, loop_status) prog.
        seq (if readable ?n Hb_heartbeat then seq (net_recv Hb_heartbeat) (\<lambda>m. net_send Hb_heartbeat m)
             else ret ()) f ?n = f () n1"
      and n1: "\<And>t. t \<noteq> Hb_heartbeat \<Longrightarrow> inbox n1 t = inbox ?n t"
    by blast
  have "heartbeat_turn (Poll_arrivals batch) n =
      (if readable ?n Hb_controller
          then seq (net_recv Hb_controller) (\<lambda>m. seq (net_send Hb_controller m) (\<lambda>_. ret Stopped))
          else ret Running) n1"
    by (simp add: heartbeat_turn_def phase)
  with n1 [of Hb_controller] show ?thesis
    by (auto simp: readable_def seq_def net_recv_def net_send_sends prog_simps split: list.split)
qed

lemma sends_on_socket: "on_socket s' (sends s m) = (if s = s' \<and> m \<noteq> [] then [m] else [])"
  by (simp add: sends_def)

interpretation hb_thread: controlled_thread "\<lambda>batch. heartbeat_turn (Poll_arrivals batch)" True Hb_controller
    id "\<lambda>m. True" "\<lambda>n. True" "\<lambda>n. 0"
proof
  fix batch status and st st' :: "heartbeat_socket net"
  assume turn: "heartbeat_turn (Poll_arrivals batch) st = (Inr status, st')"
  from heartbeat_turn_cases [OF turn] have "answers sends batch st st'" by simp
  with heartbeat_turn_ctl [OF turn]
  show "thread_serves (\<lambda>m. True) Hb_controller (on_socket Hb_controller batch) (id st) status (id st')"
    by (auto intro!: echoing_thread_serves simp: sends_on_socket)
next
  fix status and st st' :: "heartbeat_socket net"
  assume "heartbeat_turn (Poll_arrivals []) st = (Inr status, st')" "inbox (id st) Hb_controller \<noteq> []"
    "inbox (id st') Hb_controller = inbox (id st) Hb_controller"
  then show "(0::nat) < 0" using heartbeat_turn_ctl [of "[]" st status st'] by (cases "inbox st Hb_controller") auto
qed (use heartbeat_turn_ok in auto)

lemma publisher_turn_ctl:
  assumes "publisher_turn J make_header cb (Poll_arrivals batch) n = (Inr status, n')"
  shows "inbox n' Pub_controller = tl (inbox n Pub_controller @ on_socket Pub_controller batch) \<and>
    (status = Stopped \<longleftrightarrow> inbox n Pub_controller @ on_socket Pub_controller batch \<noteq> [])"
proof -
  let ?n = "arrive batch n"
  from assms obtain n1 where
    n1: "(if readable ?n Pub_controller
          then seq (net_recv Pub_controller) (\<lambda>m. seq (net_send Pub_controller m) (\<lambda>_. ret Stopped))
          else if readable ?n Pub_publisher
          then seq (net_recv Pub_publisher) (publisher_event J make_header cb)
          else ret Running) n1 = (Inr status, n')" "inbox n1 Pub_controller = inbox ?n Pub_controller"
    by (auto simp: publisher_turn_def elim!: forward_phase [where respond = "publisher_respond J make_header cb"])
  show ?thesis
  proof (cases "readable ?n Pub_controller")
    case True
    with n1 show ?thesis by (auto simp: readable_def dest!: echo_stop_reads)
  next
    case False
    note idle = this
    have "status = Running \<and> inbox n' Pub_controller = inbox n1 Pub_controller"
    proof (cases "readable ?n Pub_publisher")
      case True
      with idle n1(1) obtain m n2 where 2: "net_recv Pub_publisher n1 = (Inr m, n2)"
          "publisher_event J make_header cb m n2 = (Inr status, n')"
        by (auto simp: seq_Inr_iff)
      from publisher_event_answers [OF this] 2(1) show ?thesis
        by (auto simp: net_recv_def split: list.splits)
    qed (use idle n1(1) in \<open>simp add: prog_simps\<close>)
    with idle n1(2) show ?thesis by (auto simp: readable_def)
  qed
qed

lemma publisher_respond_ctl:
  "on_socket Pub_controller (publisher_respond J make_header cb s m)
     = (if s = Pub_controller \<and> m \<noteq> [] then [m] else [])"
  by (cases "(J, make_header, cb, s, m)" rule: publisher_respond.cases) (auto simp: sends_def split: sum.split)

interpretation pub_thread: controlled_thread "\<lambda>batch. publisher_turn J make_header cb (Poll_arrivals batch)"
    "\<forall>tpc. \<exists>w. welcome_message J make_header cb tpc = Inr w" Pub_controller
    id "\<lambda>m. True" "\<lambda>n. True" "\<lambda>n. 0" for J make_header cb
proof
  fix batch status and st st' :: "publisher_socket net"
  assume turn: "publisher_turn J make_header cb (Poll_arrivals batch) st = (Inr status, st')"
  from publisher_turn_cases [OF turn] have "answers (publisher_respond J make_header cb) batch st st'" by simp
  with publisher_turn_ctl [OF turn]
  show "thread_serves (\<lambda>m. True) Pub_controller (on_socket Pub_controller batch) (id st) status (id st')"
    by (auto intro!: echoing_thread_serves simp: publisher_respond_ctl)
next
  fix status and st st' :: "publisher_socket net"
  assume "publisher_turn J make_header cb (Poll_arrivals []) st = (Inr status, st')" "inbox (id st) Pub_controller \<noteq> []"
    "inbox (id st') Pub_controller = inbox (id st) Pub_controller"
  then show "(0::nat) < 0"
    using publisher_turn_ctl [of J make_header cb "[]" st status st'] by (cases "inbox st Pub_controller") auto
next
  fix st :: "publisher_socket net"
  assume "\<forall>tpc. \<exists>w. welcome_message J make_header cb tpc = Inr w"
  then show "\<exists>status st'. publisher_turn J make_header cb (Poll_arrivals []) st = (Inr status, st') \<and> (status = Running \<longrightarrow> True)"
    using publisher_turn_ok [of J make_header cb "Poll_arrivals []" st] by auto
qed

end
