(* ===== verification/Fair_Runs.thy ===== *)
theory Fair_Runs
  imports Stop_Network
begin

text \<open>
  Runs of a system under a fair scheduler. \<open>Stop_Network\<close> shows that a stop can be completed; here it is shown when it
  is, and a construction is given for fair runs in which it is not. The processes of the program are mapped to it in
  \<open>Fair_Stop\<close>.
\<close>

section \<open>Fair runs\<close>

text \<open>
  Who takes a step: the controller, the network on the way to one of the threads it controls, one of these threads, or
  code of the program outside them all.
\<close>

datatype actor = Controller | Network nat | Channel nat | Caller

text \<open>
  A run goes on for ever; a system that has come to its end stays where it is. It is (weakly) fair if an actor that
  could act from some moment on does so again: no thread and no connection is suspended for ever.
\<close>

definition fair_run :: "(actor \<Rightarrow> 's \<Rightarrow> 's \<Rightarrow> bool) \<Rightarrow> (nat \<Rightarrow> 's) \<Rightarrow> bool" where
  "fair_run act f \<longleftrightarrow> (\<forall>i. f (Suc i) = f i \<or> (\<exists>a. act a (f i) (f (Suc i)))) \<and>
     (\<forall>a i. (\<forall>j\<ge>i. \<exists>s'. act a (f j) s') \<longrightarrow> (\<exists>j\<ge>i. act a (f j) (f (Suc j))))"

lemma fair_run_step: "fair_run act f \<Longrightarrow> f (Suc i) = f i \<or> (\<exists>a. act a (f i) (f (Suc i)))"
  by (simp add: fair_run_def)

lemma fair_run_acts: "fair_run act f \<Longrightarrow> \<forall>j\<ge>i. \<exists>s'. act a (f j) s' \<Longrightarrow> \<exists>j\<ge>i. act a (f j) (f (Suc j))"
  unfolding fair_run_def by blast

lemma fair_run_always:
  assumes "fair_run act f" "P (f i)" "\<And>a s s'. P s \<Longrightarrow> act a s s' \<Longrightarrow> P s'" "i \<le> j"
  shows "P (f j)"
  using assms(4)
proof (induction rule: dec_induct)
  case (step n)
  with fair_run_step [OF assms(1), of n] assms(3) show ?case by metis
qed (rule assms(2))

text \<open>An actor that can act until it does, while everyone else leaves it as it is, leads to what it achieves.\<close>

lemma fair_leads_to:
  assumes run: "fair_run act f" "P (f i)"
    and keeps: "\<And>b s s'. P s \<Longrightarrow> act b s s' \<Longrightarrow> P s' \<or> Q s'"
    and enabled: "\<And>s. P s \<Longrightarrow> \<exists>s'. act a s s'"
    and helps: "\<And>s s'. P s \<Longrightarrow> act a s s' \<Longrightarrow> Q s'"
  shows "\<exists>j\<ge>i. Q (f j)"
proof (rule ccontr)
  assume never: "\<not> (\<exists>j\<ge>i. Q (f j))"
  have P: "P (f j)" if "i \<le> j" for j
    using that
  proof (induction rule: dec_induct)
    case (step n)
    with keeps [OF step.IH] fair_run_step [OF run(1), of n] never show ?case by (metis le_SucI)
  qed (rule run(2))
  with enabled have "\<forall>j\<ge>i. \<exists>s'. act a (f j) s'" by blast
  from fair_run_acts [OF run(1) this] obtain j where "i \<le> j" "act a (f j) (f (Suc j))" by blast
  with helps [OF P] never show False by (metis le_SucI)
qed

text \<open>An execution that ends where nobody can act any more is a fair run.\<close>

lemma execution_fair_run:
  assumes "(\<lambda>s s'. \<exists>a. act a s s')\<^sup>*\<^sup>* s t" "\<And>a s'. \<not> act a t s'"
  obtains f n where "fair_run act f" "f 0 = s" "f n = t"
proof -
  obtain n where "((\<lambda>s s'. \<exists>a. act a s s') ^^ n) s t" using rtranclp_imp_relpowp [OF assms(1)] by blast
  then obtain g where g: "g 0 = s" "g n = t" "\<And>i. i < n \<Longrightarrow> \<exists>a. act a (g i) (g (Suc i))"
    unfolding relpowp_fun_conv by blast
  let ?f = "\<lambda>i. g (min i n)"
  have "fair_run act ?f"
    unfolding fair_run_def
  proof (intro conjI allI impI)
    fix i show "?f (Suc i) = ?f i \<or> (\<exists>a. act a (?f i) (?f (Suc i)))"
      using g(3) [of i] by (cases "i < n") (simp_all add: min_def)
  next
    fix a i assume "\<forall>j\<ge>i. \<exists>s'. act a (?f j) s'"
    then have "\<exists>s'. act a (?f (max i n)) s'" by (metis max.cobounded1)
    with assms(2) g(2) show "\<exists>j\<ge>i. act a (?f j) (?f (Suc j))" by simp
  qed
  with g(1,2) that [of ?f n] show thesis by simp
qed

text \<open>What goes before a fair run does not matter.\<close>

lemma fair_run_prepend:
  assumes "fair_run act f" "act a s (f 0)"
  shows "fair_run act (case_nat s f)"
  unfolding fair_run_def
proof (intro conjI allI impI)
  fix i show "case_nat s f (Suc i) = case_nat s f i \<or> (\<exists>a. act a (case_nat s f i) (case_nat s f (Suc i)))"
    using fair_run_step [OF assms(1)] assms(2) by (cases i) auto
next
  fix b i assume enabled: "\<forall>j\<ge>i. \<exists>s'. act b (case_nat s f j) s'"
  have "\<exists>s'. act b (f j) s'" if "i \<le> j" for j
    using enabled [rule_format, of "Suc j"] that by simp
  with fair_run_acts [OF assms(1)] obtain j where "i \<le> j" "act b (f j) (f (Suc j))" by blast
  then show "\<exists>j\<ge>i. act b (case_nat s f j) (case_nat s f (Suc j))" by (intro exI [of _ "Suc j"]) simp
qed

text \<open>
  If in every state with \<open>J\<close> each of several actors can act and come to a state with \<open>J\<close> again, and nobody else can
  act, then there is a fair run with \<open>J\<close> throughout, in which they take turns.
\<close>

lemma turns_fair_run:
  assumes "J s" "actors \<noteq> []"
    and turn: "\<And>s a. J s \<Longrightarrow> a \<in> set actors \<Longrightarrow> \<exists>s'. act a s s' \<and> J s'"
    and others: "\<And>s a s'. J s \<Longrightarrow> a \<notin> set actors \<Longrightarrow> \<not> act a s s'"
  shows "\<exists>f. fair_run act f \<and> f 0 = s \<and> (\<forall>i. J (f i)) \<and> (\<forall>a \<in> set actors. \<forall>i. \<exists>j\<ge>i. act a (f j) (f (Suc j)))"
proof -
  let ?n = "length actors"
  let ?actor = "\<lambda>i. actors ! (i mod ?n)"
  have member: "?actor i \<in> set actors" for i using assms(2) by simp
  have "\<exists>f. \<forall>i. (J (f i) \<and> (i = 0 \<longrightarrow> f i = s)) \<and> act (?actor i) (f i) (f (Suc i))"
  proof (rule dependent_nat_choice)
    show "\<exists>s'. J s' \<and> ((0::nat) = 0 \<longrightarrow> s' = s)" using assms(1) by blast
  next
    fix x and i :: nat assume "J x \<and> (i = 0 \<longrightarrow> x = s)"
    with turn [OF _ member [of i]] show "\<exists>y. (J y \<and> (Suc i = 0 \<longrightarrow> y = s)) \<and> act (?actor i) x y" by blast
  qed
  then obtain f where f: "f 0 = s" "\<And>i. J (f i)" "\<And>i. act (?actor i) (f i) (f (Suc i))" by blast
  have again: "\<exists>j\<ge>i. act a (f j) (f (Suc j))" if "a \<in> set actors" for a i
  proof -
    from that obtain k where "k < ?n" "a = actors ! k" by (auto simp: in_set_conv_nth)
    moreover from this have "i \<le> i * ?n + k" "(i * ?n + k) mod ?n = k" by (cases ?n, simp_all)+
    ultimately show ?thesis using f(3) [of "i * ?n + k"] by (metis)
  qed
  have "fair_run act f"
    unfolding fair_run_def
  proof (intro conjI allI impI)
    fix a i assume "\<forall>j\<ge>i. \<exists>s'. act a (f j) s'"
    then have "\<exists>s'. act a (f i) s'" by blast
    with others [OF f(2)] again show "\<exists>j\<ge>i. act a (f j) (f (Suc j))" by metis
  qed (use f(3) in blast)
  with f(1,2) again show ?thesis by blast
qed

section \<open>A stop makes progress at every step the network sees\<close>

definition stopping :: "wires \<Rightarrow> bool" where
  "stopping w \<longleftrightarrow> (\<exists>k. w_pc w = Ask k \<or> w_pc w = Await k)"

text \<open>Who has to act next, and how many actions are left at most.\<close>

definition next_actor :: "wires \<Rightarrow> actor" where
  "next_actor w = (case w_pc w of Await k \<Rightarrow> if requests_under_way w k \<noteq> [] then Network k
     else if w_inbox w k \<noteq> [] then Channel k else Controller | _ \<Rightarrow> Controller)"

definition stop_rank :: "stop_order \<Rightarrow> wires \<Rightarrow> nat" where
  "stop_rank ord w = (case w_pc w of Ask k \<Rightarrow> 4 * (length ord - k)
     | Await k \<Rightarrow> 4 * (length ord - k) - (if requests_under_way w k \<noteq> [] then 1 else if w_inbox w k \<noteq> [] then 2 else 3)
     | _ \<Rightarrow> 0)"

lemma wires_views:
  assumes "wires_inv ord w" "j < length ord"
  shows "protocol_views ord (w_pc w) j \<lparr>ch_requests = w_inbox w j @ requests_under_way w j,
    ch_replies = replies_under_way w j, ch_alive = w_running w j\<rparr>"
  using assms by (auto simp: wires_inv_def protocol_inv_def wires_protocol_def)

text \<open>While the channels are being stopped, something waits on one channel only.\<close>

lemma stopping_elsewhere:
  assumes "wires_inv ord w" "j < length ord" "w_inbox w j @ requests_under_way w j \<noteq> []" "stopping w"
  shows "w_pc w = Await j" "w_running w j" "w_inbox w j @ requests_under_way w j = [[stop_frame ord j]]"
  using wires_views [OF assms(1,2)] assms(3,4)
  by (auto simp: stopping_def quiet_view_def gone_view_def under_way_def split: if_splits)

lemma wires_step_rank:
  assumes step: "wires_step ord w w'" and inv: "wires_inv ord w" and ord: "stop_order_ok ord" and stops: "stopping w"
  shows "stop_rank ord w' < stop_rank ord w \<and> (stopping w' \<or> w_pc w' = Finished)"
  using step
proof (cases rule: wires_step.cases)
  case (turn k ms rs running)
  have waits: "w_inbox w k \<noteq> []" using turn(4) by (auto simp: serves_request_def)
  with stopping_elsewhere [OF inv turn(2)] stops have w: "w_pc w = Await k" "w_inbox w k = [[stop_frame ord k]]"
      "requests_under_way w k = []" by (auto simp: append_eq_Cons_conv)
  then have "ms = []" using turn(4) by (auto simp: serves_request_def)
  with turn(1,2) w show ?thesis by (simp add: stop_rank_def stopping_def after_turn_def requests_under_way_def)
next
  case (deliver k m rest)
  with stopping_elsewhere [OF inv deliver(2)] stops have w: "w_pc w = Await k" "w_inbox w k = []" "rest = []"
    by (auto simp: append_eq_Cons_conv)
  then have "requests_under_way (hand_over k m w) k = []"
    using drop_Cons_length [OF deliver(3) [unfolded requests_under_way_def]] by (simp add: requests_under_way_def hand_over_def)
  with deliver w show ?thesis by (simp add: stop_rank_def stopping_def hand_over_def)
next
  case (ask k)
  have "k < length ord" using ask(2) inv by (simp add: wires_inv_def protocol_inv_def wires_protocol_def)
  with ask show ?thesis
    by (auto simp: stop_rank_def stopping_def put_request_def)
next
  case (advance k r rs)
  note view = await_view [OF inv advance(2)]
  then have "w_inbox w k = []" "requests_under_way w k = []" using advance(3) by (auto simp: under_way_def)
  with advance view(1) show ?thesis
    by (auto simp: stop_rank_def stopping_def take_reply_def after_reply_def)
qed (use stops in \<open>auto simp: stopping_def\<close>)

lemma after_reply_not_Await [simp]: "after_reply ord k \<noteq> Await j" "Await j \<noteq> after_reply ord k"
  by (simp_all add: after_reply_def)

text \<open>After the stop nothing happens on the channels.\<close>

lemma finished_no_wires_step:
  assumes "wires_inv ord w" "w_pc w = Finished"
  shows "\<not> wires_step ord w w'"
proof
  assume "wires_step ord w w'"
  then show False
    using assms wires_views [OF assms(1)]
    by (cases rule: wires_step.cases) (auto simp: gone_view_def serves_request_def)
qed

section \<open>Processes that stop under every fair scheduler\<close>

text \<open>
  A process in which everyone who has to act while the channels are being stopped is able to, and makes progress with
  it: the controller goes on, the network hands something over, and a thread that finds a request to stop stops.
\<close>

locale fairly_stopping = stopping_process +
  fixes act :: "actor \<Rightarrow> 'a \<Rightarrow> 'a \<Rightarrow> bool"
  assumes step_act: "step s s' \<longleftrightarrow> (\<exists>a. act a s s')"
    and controller_asks: "ok \<Longrightarrow> idle s \<Longrightarrow> w_pc (wires s) = Ask k \<Longrightarrow> \<exists>s'. act Controller s s'"
    and controller_advances: "ok \<Longrightarrow> idle s \<Longrightarrow> w_pc (wires s) = Await k \<Longrightarrow> replies_under_way (wires s) k = [[r]] \<Longrightarrow>
      \<exists>s'. act Controller s s'"
    and controller_moves: "ok \<Longrightarrow> act Controller s s' \<Longrightarrow> stopping (wires s) \<Longrightarrow> w_pc (wires s') \<noteq> w_pc (wires s)"
    and network_delivers: "ok \<Longrightarrow> idle s \<Longrightarrow> k < length ord \<Longrightarrow> requests_under_way (wires s) k = m # rest \<Longrightarrow>
      \<exists>s'. act (Network k) s s'"
    and network_moves: "ok \<Longrightarrow> act (Network k) s s' \<Longrightarrow> w_delivered (wires s') k \<noteq> w_delivered (wires s) k"
    and channel_serves: "ok \<Longrightarrow> idle s \<Longrightarrow> k < length ord \<Longrightarrow> w_running (wires s) k \<Longrightarrow>
      w_inbox (wires s) k = [[stop_frame ord k]] \<Longrightarrow> \<exists>s'. act (Channel k) s s'"
    and channel_moves: "ok \<Longrightarrow> idle s \<Longrightarrow> act (Channel k) s s' \<Longrightarrow> w_inbox (wires s) k = [[stop_frame ord k]] \<Longrightarrow>
      \<not> w_running (wires s') k"
begin

lemma next_acts:
  assumes ok "idle s" "wires_inv ord (wires s)" "stopping (wires s)"
  shows "(\<exists>s'. act (next_actor (wires s)) s s') \<and> (\<forall>s'. act (next_actor (wires s)) s s' \<longrightarrow> wires s' \<noteq> wires s)"
proof (cases "w_pc (wires s)")
  case (Ask k)
  with controller_asks [OF assms(1,2) Ask] controller_moves [OF assms(1) _ assms(4)] show ?thesis
    by (fastforce simp: next_actor_def)
next
  case (Await k)
  note view = await_view [OF assms(3) Await]
  consider (under_way) m rest where "requests_under_way (wires s) k = m # rest"
    | (waits) "requests_under_way (wires s) k = []" "w_inbox (wires s) k = [[stop_frame ord k]]" "w_running (wires s) k"
    | (answered) r where "requests_under_way (wires s) k = []" "w_inbox (wires s) k = []" "replies_under_way (wires s) k = [[r]]"
    using view(2) by (cases "requests_under_way (wires s) k") (auto simp: under_way_def)
  then show ?thesis
  proof cases
    case under_way
    with network_delivers [OF assms(1,2) view(1)] network_moves [OF assms(1), of k] Await show ?thesis
      by (fastforce simp: next_actor_def)
  next
    case waits
    with channel_serves [OF assms(1,2) view(1)] channel_moves [OF assms(1,2), of k] Await show ?thesis
      by (fastforce simp: next_actor_def)
  next
    case answered
    with controller_advances [OF assms(1,2) Await] controller_moves [OF assms(1) _ assms(4)] Await show ?thesis
      by (fastforce simp: next_actor_def)
  qed
qed (use assms(4) in \<open>auto simp: stopping_def\<close>)

lemma act_inv:
  assumes ok "idle s \<and> wires_inv ord (wires s)" "act a s s'"
  shows "(wires s' = wires s \<or> wires_step ord (wires s) (wires s')) \<and> idle s' \<and> wires_inv ord (wires s')"
proof -
  have "step s s'" using assms(3) step_act by blast
  with step_wires [of s s'] steps_inv [of s s'] assms(1,2) show ?thesis by auto
qed

lemma fair_stop_progress:
  assumes ok "fair_run act f" "idle (f i) \<and> wires_inv ord (wires (f i))" "stopping (wires (f i))"
  shows "\<exists>j\<ge>i. stop_rank ord (wires (f j)) < stop_rank ord (wires (f i)) \<and>
    (stopping (wires (f j)) \<or> w_pc (wires (f j)) = Finished) \<and> idle (f j) \<and> wires_inv ord (wires (f j))"
proof (rule fair_leads_to [OF assms(2), where P = "\<lambda>s. wires s = wires (f i) \<and> idle s" and a = "next_actor (wires (f i))"])
  fix b s s' assume P: "wires s = wires (f i) \<and> idle s" and act: "act b s s'"
  then have inv: "idle s \<and> wires_inv ord (wires s)" using assms(3) by simp
  note act_inv = act_inv [OF assms(1) inv act]
  from act_inv wires_step_rank [of ord "wires s" "wires s'"] inv order_ok P assms(4)
  show "(wires s' = wires (f i) \<and> idle s') \<or> (stop_rank ord (wires s') < stop_rank ord (wires (f i)) \<and>
    (stopping (wires s') \<or> w_pc (wires s') = Finished) \<and> idle s' \<and> wires_inv ord (wires s'))" by auto
next
  fix s assume "wires s = wires (f i) \<and> idle s"
  with next_acts [OF assms(1), of s] assms(3,4) show "\<exists>s'. act (next_actor (wires (f i))) s s'" by simp
next
  fix s s' assume P: "wires s = wires (f i) \<and> idle s" and act: "act (next_actor (wires (f i))) s s'"
  then have inv: "idle s \<and> wires_inv ord (wires s)" using assms(3) by simp
  have "wires s' \<noteq> wires s" using next_acts [OF assms(1), of s] P act inv assms(4) by auto
  with act_inv [OF assms(1) inv act] wires_step_rank [of ord "wires s" "wires s'"] inv order_ok P assms(4)
  show "stop_rank ord (wires s') < stop_rank ord (wires (f i)) \<and>
    (stopping (wires s') \<or> w_pc (wires s') = Finished) \<and> idle s' \<and> wires_inv ord (wires s')" by auto
qed (use assms(3) in simp)

lemma fair_stop_finishes:
  assumes ok "fair_run act f"
  shows "idle (f i) \<and> wires_inv ord (wires (f i)) \<Longrightarrow> stopping (wires (f i)) \<Longrightarrow>
    \<exists>n\<ge>i. w_pc (wires (f n)) = Finished \<and> idle (f n) \<and> wires_inv ord (wires (f n))"
proof (induction "stop_rank ord (wires (f i))" arbitrary: i rule: less_induct)
  case less
  from fair_stop_progress [OF assms less.prems] obtain j where j: "i \<le> j"
    "stop_rank ord (wires (f j)) < stop_rank ord (wires (f i))" "stopping (wires (f j)) \<or> w_pc (wires (f j)) = Finished"
    "idle (f j) \<and> wires_inv ord (wires (f j))" by blast
  with less.hyps [OF j(2,4)] show ?case by (meson le_trans)
qed

text \<open>From some moment on the controller has finished and none of its threads runs.\<close>

lemma fair_stop:
  assumes ok "fair_run act f" "step\<^sup>*\<^sup>* start (f 0)" "stopping (wires (f i))"
  shows "\<exists>n\<ge>i. \<forall>m\<ge>n. w_pc (wires (f m)) = Finished \<and> (\<forall>j < length ord. \<not> w_running (wires (f m)) j)"
proof -
  have inv: "idle (f j) \<and> wires_inv ord (wires (f j))" for j
  proof (rule fair_run_always [OF assms(2), where i = 0])
    show "idle (f 0) \<and> wires_inv ord (wires (f 0))" by (rule reachable_inv [OF assms(3,1)])
  qed (use act_inv [OF assms(1)] in blast, simp)
  from fair_stop_finishes [OF assms(1,2) inv [of i] assms(4)] obtain n where n: "i \<le> n" "w_pc (wires (f n)) = Finished" by blast
  have "(idle (f m) \<and> wires_inv ord (wires (f m))) \<and> w_pc (wires (f m)) = Finished" if "n \<le> m" for m
  proof (rule fair_run_always [OF assms(2) _ _ that])
    fix a s s' assume "(idle s \<and> wires_inv ord (wires s)) \<and> w_pc (wires s) = Finished" "act a s s'"
    with act_inv [OF assms(1), of s a s'] finished_no_wires_step [of ord "wires s"]
    show "(idle s' \<and> wires_inv ord (wires s')) \<and> w_pc (wires s') = Finished" by auto
  qed (use inv n in simp)
  with running_iff have "w_pc (wires (f m)) = Finished \<and> (\<forall>j < length ord. \<not> w_running (wires (f m)) j)" if "n \<le> m" for m
    using that by fastforce
  with n(1) show ?thesis by blast
qed

text \<open>Such runs exist: the stop can be completed, and then nobody acts.\<close>

lemma stop_fair_run:
  assumes ok "step\<^sup>*\<^sup>* start s" "fit s" "stopping (wires s)"
    and rest: "\<And>t a t'. idle t \<Longrightarrow> wires_inv ord (wires t) \<Longrightarrow> w_pc (wires t) = Finished \<Longrightarrow> \<not> act a t t'"
  obtains f where "fair_run act f" "f 0 = s"
proof -
  note inv = reachable_inv [OF assms(2,1)]
  from stop_completes [OF assms(1) _ _ assms(3)] inv assms(4) obtain t where t: "step\<^sup>*\<^sup>* s t" "w_pc (wires t) = Finished"
    unfolding stopping_def by blast
  have "step = (\<lambda>s s'. \<exists>a. act a s s')" using step_act by (simp add: fun_eq_iff)
  with t(1) have "(\<lambda>s s'. \<exists>a. act a s s')\<^sup>*\<^sup>* s t" by simp
  moreover have "\<not> act a t t'" for a t'
    using rest [of t a t'] steps_inv [OF t(1) assms(1)] inv t(2) by blast
  ultimately show thesis using execution_fair_run [of act s t] that by metis
qed

end

end
