(* ===== verification/Split_System.thy ===== *)
theory Split_System
  imports Server_Split Channel_Threads Fair_Runs
begin

text \<open>
  The threads of a split server together: the control thread, the shell thread, the
  publisher and the heartbeat, taking turns in any order. What a thread sends on an internal
  socket is under way until the network hands it to the thread at the other end. The turns are
  those of the single threads (\<open>Server_Split\<close>, \<open>Publisher\<close>); messages from outside, and
  what the kernel publishes, arrive as they like. The turns of the shell thread are a parameter with a contract
  (\<open>split_shell_runner\<close>): the default runner fulfils it, and so does every runner that serves the two channels in some fair
  order through the methods of its base class. State of such a runner's own is not modelled.
\<close>

section \<open>Shell threads that keep their contract\<close>

text \<open>
  A shell runner that polls the descriptors the server gives it by itself, chooses one of the channels that
  have a message, and serves it through its methods as the default runner does. The default runner chooses the
  shell when it can.
\<close>

definition polled_turn :: "(bool \<Rightarrow> bool \<Rightarrow> channel option) \<Rightarrow> 'j split_env \<Rightarrow> (shell_socket \<times> multipart) list
    \<Rightarrow> ('j split_server, loop_status) prog" where
  "polled_turn pick env batch =
     (let r = xshell_runner (runner_api env) in
      seq (on_shell (modify (arrive batch))) (\<lambda>_.
      seq (gets (\<lambda>st. readable (sp_shell st))) (\<lambda>revents.
      default_shell_serve r (pick (revents (sr_get_shell_fd r)) (revents (sr_get_shell_controller_fd r))))))"

definition fair_choice :: "(bool \<Rightarrow> bool \<Rightarrow> channel option) \<Rightarrow> bool" where
  "fair_choice pick \<longleftrightarrow> (\<forall>shell controller.
     (pick shell controller = Some SHELL \<longrightarrow> shell) \<and> (pick shell controller = Some CONTROL \<longrightarrow> controller) \<and>
     (controller \<longrightarrow> pick shell controller \<noteq> None))"

lemma shell_first_fair: "fair_choice shell_first"
  unfolding fair_choice_def by (intro allI, case_tac shell; case_tac controller) simp_all

lemma polled_turn_serves_chosen:
  "n = arrive batch (sp_shell st) \<Longrightarrow> polled_turn pick env batch st =
     shell_serve env (pick (inbox n Sh_shell \<noteq> []) (inbox n Sh_controller \<noteq> [])) (st\<lparr>sp_shell := n\<rparr>)"
  by (simp add: polled_turn_def seq_def on_shell_eval prog_simps readable_def xshell_runner_def runner_api_def split_impl_def Let_def)

lemma shell_turn_polled: "shell_turn env (Poll_arrivals batch) = polled_turn shell_first env batch"
  by (simp add: fun_eq_iff shell_turn_arrivals [OF refl] polled_turn_serves_chosen [OF refl])

text \<open>What a turn that returns has done.\<close>

lemma polled_turn_result:
  assumes ok: "shell_listeners env f" "\<And>msg st r st'. shell_listener env msg st = (r, st') \<Longrightarrow> sp_messenger st' = sp_messenger st"
    and choice: "fair_choice pick" and n: "n = arrive batch (sp_shell st)"
    and turn: "polled_turn pick env batch st = (Inr status, st')"
  obtains
    (shell) m ms where "inbox n Sh_shell = m # ms" "status = Running" "inbox (sp_shell st') = (inbox n)(Sh_shell := ms)"
      "on_socket Sh_controller (outbox (sp_shell st')) = on_socket Sh_controller (outbox n)" "sp_messenger st' = sp_messenger st"
  | (controller) m ms r where "inbox n Sh_controller = m # ms" "(status = Running) = (hd m \<noteq> ''stop'')"
      "inbox (sp_shell st') = (inbox n)(Sh_controller := ms)" "outbox (sp_shell st') = outbox n @ [(Sh_controller, [r])]"
      "sp_messenger st' = sp_messenger st"
  | (idle) "inbox n Sh_controller = []" "status = Running" "st' = st\<lparr>sp_shell := n\<rparr>"
proof -
  let ?st = "st\<lparr>sp_shell := n\<rparr>" and ?chan = "pick (inbox n Sh_shell \<noteq> []) (inbox n Sh_controller \<noteq> [])"
  have serve: "shell_serve env ?chan ?st = (Inr status, st')" using turn by (simp add: polled_turn_serves_chosen [OF n])
  consider "?chan = Some SHELL" | "?chan = Some CONTROL" | "?chan = None"
    by (cases ?chan) (auto intro: channel.exhaust)
  then show thesis
  proof cases
    case 1
    with choice obtain m ms where m: "inbox n Sh_shell = m # ms"
      unfolding fair_choice_def by (metis neq_Nil_conv)
    let ?st1 = "?st\<lparr>sp_shell := read_from Sh_shell n\<rparr>"
    have rd: "inbox (read_from Sh_shell n) = (inbox n)(Sh_shell := ms)" "outbox (read_from Sh_shell n) = outbox n"
      using m by (simp_all add: read_from_def)
    from serve 1 shell_serve_shell_eq [of ?st m ms env] m consider
        "status = Running" "st' = ?st1"
      | msg where "status = Running" "shell_listener env msg (?st1\<lparr>sp_notified := sp_notified st @ [(SHELL, msg)]\<rparr>) = (Inr (), st')"
      by (auto simp: seq_Inr_iff prog_simps notify_shell_listener_def split: option.splits)
    then show thesis
    proof cases
      case 1
      with rd show thesis by (intro shell [OF m]) simp_all
    next
      case (2 msg)
      let ?st2 = "?st1\<lparr>sp_notified := sp_notified st @ [(SHELL, msg)]\<rparr>"
      from ok(1) obtain st2 where "shell_listener env msg ?st2 = (Inr (), st2)"
        "inbox (sp_shell st2) = inbox (sp_shell ?st2)"
        "on_socket Sh_controller (outbox (sp_shell st2)) = on_socket Sh_controller (outbox (sp_shell ?st2))"
        unfolding shell_listeners_def by blast
      with 2 rd ok(2) [OF 2(2)] show thesis by (intro shell [OF m]) simp_all
    qed
  next
    case 2
    with choice obtain m ms where m: "inbox n Sh_controller = m # ms"
      unfolding fair_choice_def by (metis neq_Nil_conv)
    have rd: "inbox (read_from Sh_controller n) = (inbox n)(Sh_controller := ms)"
      "outbox (read_from Sh_controller n) = outbox n" using m by (simp_all add: read_from_def)
    have internal: "internal_listener env j s = (Inr (f j), s)" for j s
      using ok(1) by (simp add: shell_listeners_def)
    from serve 2 shell_serve_controller_eq [of ?st m ms env] m obtain r where
      "(status = Running) = (hd m \<noteq> ''stop'')" "sp_messenger st' = sp_messenger st"
      "sp_shell st' = (read_from Sh_controller n)\<lparr>outbox := outbox n @ [(Sh_controller, [r])]\<rparr>"
      using rd by (cases m) (auto simp: seq_Inr_iff prog_simps send_shell_controller_def on_shell_eval
          net_send_def notify_internal_listener_def internal split: if_splits)
    with rd show thesis by (intro controller [OF m]) simp_all
  next
    case 3
    with choice have "inbox n Sh_controller = []" unfolding fair_choice_def by metis
    with 3 serve show thesis by (intro idle) (simp_all add: shell_serve_idle)
  qed
qed

lemma polled_turn_returns:
  assumes "shell_listeners env f" "fair_choice pick" "inbox_ok env f (arrive batch (sp_shell st))"
  shows "\<exists>status st'. polled_turn pick env batch st = (Inr status, st') \<and> inbox_ok env f (sp_shell st')"
proof -
  define n where n: "n = arrive batch (sp_shell st)"
  let ?st = "st\<lparr>sp_shell := n\<rparr>" and ?chan = "pick (inbox n Sh_shell \<noteq> []) (inbox n Sh_controller \<noteq> [])"
  have n_ok: "inbox_ok env f n" using assms(3) by (simp add: n)
  note turn = polled_turn_serves_chosen [OF n, of pick env]
  consider "?chan = Some SHELL" | "?chan = Some CONTROL" | "?chan = None"
    by (cases ?chan) (auto intro: channel.exhaust)
  then show ?thesis
  proof cases
    case 1
    with assms(2) obtain m ms where m: "inbox n Sh_shell = m # ms"
      unfolding fair_choice_def by (metis neq_Nil_conv)
    then have "shell_message_ok env f (Sh_shell, m)" using n_ok by (simp add: inbox_ok_def)
    from shell_serve_shell [of ?st m ms, OF _ assms(1) this] m 1 turn inbox_ok_tail [OF n_ok m] show ?thesis by auto
  next
    case 2
    with assms(2) obtain m ms where m: "inbox n Sh_controller = m # ms"
      unfolding fair_choice_def by (metis neq_Nil_conv)
    then have "shell_message_ok env f (Sh_controller, m)" using n_ok by (simp add: inbox_ok_def)
    from shell_serve_controller [of ?st m ms, OF _ assms(1) this] m 2 turn show ?thesis
      using inbox_ok_tail [OF n_ok m] by (auto simp: read_from_def)
  next
    case 3
    with turn n_ok show ?thesis by (simp add: shell_serve_idle)
  qed
qed

section \<open>The system\<close>

text \<open>
  The channels in the order of their stop, with what the messenger sends to each: the message
  object, which is empty after it has been sent to the shell. The shell stops at the text
  \<^verbatim>\<open>stop\<close>, the others at any message.
\<close>

definition split_order :: stop_order where
  "split_order = [(''stop'', \<lambda>m. hd m = ''stop''), ([], \<lambda>m. True), ([], \<lambda>m. True)]"

lemma split_order_simps [simp]:
  "length split_order = 3" "stop_frame split_order 0 = ''stop''" "stop_frame split_order 1 = []"
  "stop_frame split_order (Suc 0) = []" "stop_frame split_order 2 = []"
  "stops_channel split_order 0 = (\<lambda>m. hd m = ''stop'')" "stops_channel split_order 1 = (\<lambda>m. True)"
  "stops_channel split_order (Suc 0) = (\<lambda>m. True)" "stops_channel split_order 2 = (\<lambda>m. True)"
  by (simp_all add: split_order_def stop_frame_def stops_channel_def)

lemma split_stop_order_ok: "stop_order_ok split_order"
  by (simp add: stop_order_ok_def split_order_def stop_frame_def stops_channel_def less_Suc_eq numeral_3_eq_3)

lemma below_3: "i < 3 \<longleftrightarrow> i = 0 \<or> i = 1 \<or> i = (2 :: nat)" by auto

text \<open>
  The state of the four threads: which of the controlled ones still run, where the control
  thread is, and how many of the requests and of the replies on each internal channel the
  network has handed over.
\<close>

record 'j split_system =
  sy_server :: "'j split_server"
  sy_publisher :: "publisher_socket net"
  sy_heartbeat :: "heartbeat_socket net"
  sy_running :: "nat \<Rightarrow> bool"
  sy_pc :: control_pc
  sy_delivered :: "nat \<Rightarrow> nat"
  sy_taken :: "nat \<Rightarrow> nat"

definition split_wires :: "'j split_system \<Rightarrow> wires" where
  "split_wires s = \<lparr>w_pc = sy_pc s,
     w_asked = (\<lambda>k. if k < 3 then on_socket (messenger_channel k) (outbox (sp_messenger (sy_server s))) else []),
     w_delivered = sy_delivered s,
     w_inbox = (\<lambda>k. if k = 0 then inbox (sp_shell (sy_server s)) Sh_controller
       else if k = 1 then inbox (sy_publisher s) Pub_controller
       else if k = 2 then inbox (sy_heartbeat s) Hb_controller else []),
     w_answered = (\<lambda>k. if k = 0 then on_socket Sh_controller (outbox (sp_shell (sy_server s)))
       else if k = 1 then on_socket Pub_controller (outbox (sy_publisher s))
       else if k = 2 then on_socket Hb_controller (outbox (sy_heartbeat s)) else []),
     w_taken = sy_taken s, w_running = sy_running s\<rparr>"

text \<open>Handing a request to the thread of channel \<open>k\<close>, and a reply to the messenger.\<close>

definition hand_request :: "nat \<Rightarrow> multipart \<Rightarrow> 'j split_system \<Rightarrow> 'j split_system" where
  "hand_request k m s =
     (if k = 0 then s\<lparr>sy_server := (sy_server s)\<lparr>sp_shell := arrive [(Sh_controller, m)] (sp_shell (sy_server s))\<rparr>\<rparr>
      else if k = 1 then s\<lparr>sy_publisher := arrive [(Pub_controller, m)] (sy_publisher s)\<rparr>
      else s\<lparr>sy_heartbeat := arrive [(Hb_controller, m)] (sy_heartbeat s)\<rparr>)"

definition hand_reply :: "nat \<Rightarrow> multipart \<Rightarrow> ('j split_server, unit) prog" where
  "hand_reply k m = on_messenger (modify (arrive [(messenger_channel k, m)]))"

text \<open>The callback the server gives to its publisher.\<close>

definition split_publisher_cb :: "'j split_env \<Rightarrow> ('j xpub_message \<Rightarrow> multipart res) option" where
  "split_publisher_cb env = Some (\<lambda>msg. serialize_iopub (env_json env) msg (p_auth env) (m_error_handler env))"

text \<open>
  The steps, for a shell runner whose turns are \<open>turn\<close>: a turn of one of the threads on messages from elsewhere, the network handing over a
  request, and the control thread: a turn of its loop, a request of the kernel to the shell and its
  reply, and, after the loop, the exchanges of \<open>messenger_stop_channels\<close> one by one. Each step names the actor that takes
  it: the control thread is the \<open>Controller\<close>, the shell channel 0, the publisher channel 1 and the heartbeat channel 2.
\<close>

inductive runner_act :: "((shell_socket \<times> multipart) list \<Rightarrow> ('j split_server, loop_status) prog)
    \<Rightarrow> 'j split_env \<Rightarrow> (string \<Rightarrow> string \<Rightarrow> string \<Rightarrow> 'j) \<Rightarrow> actor \<Rightarrow> 'j split_system \<Rightarrow> 'j split_system \<Rightarrow> bool"
  for turn env make_header where
  shell: "sy_running s 0 \<Longrightarrow> on_socket Sh_controller batch = [] \<Longrightarrow>
     turn batch (sy_server s) = (Inr status, srv) \<Longrightarrow>
     runner_act turn env make_header (Channel 0) s
       (s\<lparr>sy_server := srv, sy_running := (sy_running s)(0 := (status = Running))\<rparr>)"
| publisher: "sy_running s 1 \<Longrightarrow> on_socket Pub_controller batch = [] \<Longrightarrow>
     publisher_turn (env_json env) make_header (split_publisher_cb env) (Poll_arrivals batch) (sy_publisher s)
       = (Inr status, n) \<Longrightarrow>
     runner_act turn env make_header (Channel 1) s
       (s\<lparr>sy_publisher := n, sy_running := (sy_running s)(1 := (status = Running))\<rparr>)"
| heartbeat: "sy_running s 2 \<Longrightarrow> on_socket Hb_controller batch = [] \<Longrightarrow>
     heartbeat_turn (Poll_arrivals batch) (sy_heartbeat s) = (Inr status, n) \<Longrightarrow>
     runner_act turn env make_header (Channel 2) s
       (s\<lparr>sy_heartbeat := n, sy_running := (sy_running s)(2 := (status = Running))\<rparr>)"
| deliver: "k < 3 \<Longrightarrow> requests_under_way (split_wires s) k = m # rest \<Longrightarrow>
     runner_act turn env make_header (Network k) s
       ((hand_request k m s)\<lparr>sy_delivered := (sy_delivered s)(k := Suc (sy_delivered s k))\<rparr>)"
| control: "sy_pc s = Serving \<Longrightarrow> control_turn env (Recv_message m) (sy_server s) = (Inr status, srv) \<Longrightarrow>
     runner_act turn env make_header Controller s
       (s\<lparr>sy_server := srv, sy_pc := (if status = Running then Serving else Ask 0)\<rparr>)"
| request: "sy_pc s = Serving \<Longrightarrow> j_dump (env_json env) strict j = Inr w \<Longrightarrow>
     on_messenger (net_send Ms_shell_controller [w]) (sy_server s) = (Inr (), srv) \<Longrightarrow>
     runner_act turn env make_header Controller s (s\<lparr>sy_server := srv, sy_pc := Requesting\<rparr>)"
| answered: "sy_pc s = Requesting \<Longrightarrow> replies_under_way (split_wires s) 0 = m # rest \<Longrightarrow>
     seq (hand_reply 0 m) (\<lambda>_. on_messenger (net_recv Ms_shell_controller)) (sy_server s) = (Inr reply, srv) \<Longrightarrow>
     runner_act turn env make_header Controller s
       (s\<lparr>sy_server := srv, sy_pc := Serving, sy_taken := (sy_taken s)(0 := Suc (sy_taken s 0))\<rparr>)"
| ask: "sy_pc s = Ask k \<Longrightarrow>
     on_messenger (net_send (messenger_channel k) [stop_frame split_order k]) (sy_server s) = (Inr (), srv) \<Longrightarrow>
     runner_act turn env make_header Controller s (s\<lparr>sy_server := srv, sy_pc := Await k\<rparr>)"
| advance: "sy_pc s = Await k \<Longrightarrow> replies_under_way (split_wires s) k = m # rest \<Longrightarrow>
     seq (hand_reply k m) (\<lambda>_. on_messenger (net_recv_frame (messenger_channel k))) (sy_server s) = (Inr response, srv) \<Longrightarrow>
     runner_act turn env make_header Controller s
       (s\<lparr>sy_server := srv, sy_pc := after_reply split_order k,
          sy_taken := (sy_taken s)(k := Suc (sy_taken s k))\<rparr>)"

definition runner_step :: "((shell_socket \<times> multipart) list \<Rightarrow> ('j split_server, loop_status) prog) \<Rightarrow> 'j split_env \<Rightarrow> (string \<Rightarrow> string \<Rightarrow> string \<Rightarrow> 'j) \<Rightarrow> 'j split_system \<Rightarrow> 'j split_system \<Rightarrow> bool" where
  "runner_step turn env make_header s s' \<longleftrightarrow> (\<exists>a. runner_act turn env make_header a s s')"

lemma runner_stepI: "runner_act turn env make_header a s s' \<Longrightarrow> runner_step turn env make_header s s'"
  by (auto simp: runner_step_def)

lemmas runner_step_shell = runner_act.shell [THEN runner_stepI]
lemmas runner_step_publisher = runner_act.publisher [THEN runner_stepI]
lemmas runner_step_heartbeat = runner_act.heartbeat [THEN runner_stepI]
lemmas runner_step_deliver = runner_act.deliver [THEN runner_stepI]
lemmas runner_step_control = runner_act.control [THEN runner_stepI]
lemmas runner_step_request = runner_act.request [THEN runner_stepI]
lemmas runner_step_answered = runner_act.answered [THEN runner_stepI]
lemmas runner_step_ask = runner_act.ask [THEN runner_stepI]
lemmas runner_step_advance = runner_act.advance [THEN runner_stepI]

abbreviation system_step :: "'j split_env \<Rightarrow> (string \<Rightarrow> string \<Rightarrow> string \<Rightarrow> 'j) \<Rightarrow> 'j split_system \<Rightarrow> 'j split_system \<Rightarrow> bool" where
  "system_step env \<equiv> runner_step (\<lambda>batch. shell_turn env (Poll_arrivals batch)) env"

definition initial_system :: "'j split_system" where
  "initial_system = \<lparr>sy_server = \<lparr>sp_shell = empty_net, sp_control = empty_net, sp_messenger = empty_net,
       runner_request_stop = False, sp_notified = []\<rparr>,
     sy_publisher = empty_net, sy_heartbeat = empty_net, sy_running = (\<lambda>k. True), sy_pc = Serving,
     sy_delivered = (\<lambda>k. 0), sy_taken = (\<lambda>k. 0)\<rparr>"

definition reachable_system :: "'j split_env \<Rightarrow> (string \<Rightarrow> string \<Rightarrow> string \<Rightarrow> 'j) \<Rightarrow> 'j split_system \<Rightarrow> bool" where
  "reachable_system env make_header = (system_step env make_header)\<^sup>*\<^sup>* initial_system"

text \<open>
  What is asked of the kernel: the listeners of one thread leave the sockets of the other alone, the
  welcome message of the publisher can be built and serialised, and no JSON value is dumped as the bare
  word that stops the shell. \<open>control_side_ok\<close> is the part that does not concern the shell.
\<close>

definition control_side_ok :: "'j split_env \<Rightarrow> (string \<Rightarrow> string \<Rightarrow> string \<Rightarrow> 'j) \<Rightarrow> bool" where
  "control_side_ok env make_header \<longleftrightarrow>
     (\<forall>msg st r st'. control_listener env msg st = (r, st') \<longrightarrow>
        sp_shell st' = sp_shell st \<and> sp_messenger st' = sp_messenger st) \<and>
     (\<forall>tpc. \<exists>w. welcome_message (env_json env) make_header (split_publisher_cb env) tpc = Inr w) \<and>
     (\<forall>j. j_dump (env_json env) strict j \<noteq> Inr ''stop'')"

definition split_kernel_ok :: "'j split_env \<Rightarrow> ('j \<Rightarrow> 'j) \<Rightarrow> (string \<Rightarrow> string \<Rightarrow> string \<Rightarrow> 'j) \<Rightarrow> bool" where
  "split_kernel_ok env f make_header \<longleftrightarrow> shell_listeners env f \<and>
     (\<forall>msg st r st'. shell_listener env msg st = (r, st') \<longrightarrow> sp_messenger st' = sp_messenger st) \<and>
     control_side_ok env make_header"

section \<open>Steps of the threads are steps of the network\<close>

lemma control_turn_frame:
  assumes "control_side_ok env make_header" "control_turn env (Recv_message m) st = (Inr status, st')"
  shows "sp_shell st' = sp_shell st \<and> sp_messenger st' = sp_messenger st"
proof -
  from assms(2) obtain msg st1 st2 where
    "read_control env (Recv_message m) st = (Inr msg, st1)"
    "(case msg of Some m \<Rightarrow> notify_control_listener env m | None \<Rightarrow> ret ()) st1 = (Inr (), st2)" "st' = st2"
    by (auto simp: control_turn_resolved seq_Inr_iff prog_simps)
  moreover from this(1) have "sp_shell st1 = sp_shell st \<and> sp_messenger st1 = sp_messenger st"
    by (auto simp: read_control_def seq_Inr_iff prog_simps on_control_eval)
  moreover from assms(1) have listener: "control_listener env m s = (r, s') \<Longrightarrow>
      sp_shell s' = sp_shell s \<and> sp_messenger s' = sp_messenger s" for m r s s'
    by (simp add: control_side_ok_def)
  have "sp_shell st2 = sp_shell st1 \<and> sp_messenger st2 = sp_messenger st1"
  proof (cases msg)
    case (Some m)
    with calculation(2) have
      "control_listener env m (st1\<lparr>sp_notified := sp_notified st1 @ [(CONTROL, m)]\<rparr>) = (Inr (), st2)"
      by (simp add: notify_control_listener_def)
    from listener [OF this] show ?thesis by simp
  qed (use calculation(2) in \<open>simp add: prog_simps\<close>)
  ultimately show ?thesis by simp
qed

text \<open>The steps of the control thread, on the messenger's end of the network.\<close>

lemma messenger_send_run:
  "on_messenger (net_send c [w]) st = (Inr (), st\<lparr>sp_messenger :=
     (sp_messenger st)\<lparr>outbox := outbox (sp_messenger st) @ [(c, [w])]\<rparr>\<rparr>)"
  by (simp add: on_messenger_eval net_send_def)

lemma messenger_reply_run:
  assumes "\<And>c. inbox (sp_messenger st) c = []"
  shows "seq (hand_reply k [f]) (\<lambda>_. on_messenger (net_recv (messenger_channel k))) st
      = (Inr [f], st\<lparr>sp_messenger := (sp_messenger st)\<lparr>received := received (sp_messenger st) @ [(messenger_channel k, [f])]\<rparr>\<rparr>)"
    and "seq (hand_reply k [f]) (\<lambda>_. on_messenger (net_recv_frame (messenger_channel k))) st
      = (Inr f, st\<lparr>sp_messenger := (sp_messenger st)\<lparr>received := received (sp_messenger st) @ [(messenger_channel k, [f])]\<rparr>\<rparr>)"
proof -
  have "(\<lambda>s. inbox (sp_messenger st) s @ on_socket s [(c, [f])])(c := []) = inbox (sp_messenger st)" for c
    using assms by (auto simp: fun_eq_iff)
  then show
    "seq (hand_reply k [f]) (\<lambda>_. on_messenger (net_recv (messenger_channel k))) st
      = (Inr [f], st\<lparr>sp_messenger := (sp_messenger st)\<lparr>received := received (sp_messenger st) @ [(messenger_channel k, [f])]\<rparr>\<rparr>)"
    "seq (hand_reply k [f]) (\<lambda>_. on_messenger (net_recv_frame (messenger_channel k))) st
      = (Inr f, st\<lparr>sp_messenger := (sp_messenger st)\<lparr>received := received (sp_messenger st) @ [(messenger_channel k, [f])]\<rparr>\<rparr>)"
    using assms by (simp_all add: hand_reply_def seq_def on_messenger_eval modify_def net_recv_def
        net_recv_frame_def arrive_def fun_upd_def)
qed

text \<open>What each kind of step does to the network.\<close>

lemma messenger_channel_inj: "j < 3 \<Longrightarrow> k < 3 \<Longrightarrow> messenger_channel j = messenger_channel k \<longleftrightarrow> j = k"
  by (auto simp: numeral_3_eq_3 less_Suc_eq)

lemma split_wires_simps [simp]:
  "w_pc (split_wires s) = sy_pc s" "w_delivered (split_wires s) = sy_delivered s" "w_taken (split_wires s) = sy_taken s"
  "w_running (split_wires s) = sy_running s" "w_inbox (split_wires s) 0 = inbox (sp_shell (sy_server s)) Sh_controller"
  "w_inbox (split_wires s) (Suc 0) = inbox (sy_publisher s) Pub_controller"
  "w_inbox (split_wires s) 2 = inbox (sy_heartbeat s) Hb_controller"
  "w_answered (split_wires s) 0 = on_socket Sh_controller (outbox (sp_shell (sy_server s)))"
  "w_answered (split_wires s) (Suc 0) = on_socket Pub_controller (outbox (sy_publisher s))"
  "w_answered (split_wires s) 2 = on_socket Hb_controller (outbox (sy_heartbeat s))"
  by (simp_all add: split_wires_def)

lemma send_request_wires:
  assumes "k < 3"
  shows "split_wires (s\<lparr>sy_server := (sy_server s)\<lparr>sp_messenger := (sp_messenger (sy_server s))
      \<lparr>outbox := outbox (sp_messenger (sy_server s)) @ [(messenger_channel k, [w])]\<rparr>\<rparr>, sy_pc := pc\<rparr>)
    = put_request k w pc (split_wires s)"
  using messenger_channel_inj [OF assms] assms by (auto simp: split_wires_def put_request_def fun_eq_iff)

lemma take_reply_wires:
  "split_wires (s\<lparr>sy_server := (sy_server s)\<lparr>sp_messenger := (sp_messenger (sy_server s))\<lparr>received := r\<rparr>\<rparr>, sy_pc := pc,
     sy_taken := (sy_taken s)(k := Suc (sy_taken s k))\<rparr>) = take_reply k pc (split_wires s)"
  by (auto simp: split_wires_def take_reply_def fun_eq_iff)

lemma hand_request_wires:
  assumes "k < 3"
  shows "split_wires ((hand_request k m s)\<lparr>sy_delivered := (sy_delivered s)(k := Suc (sy_delivered s k))\<rparr>)
    = hand_over k m (split_wires s)"
  using assms by (auto simp: split_wires_def hand_request_def hand_over_def below_3 fun_eq_iff)

definition messenger_idle :: "'j split_system \<Rightarrow> bool" where
  "messenger_idle s \<longleftrightarrow> (\<forall>c. inbox (sp_messenger (sy_server s)) c = [])"

lemma hand_request_messenger [simp]: "sp_messenger (sy_server (hand_request k m s)) = sp_messenger (sy_server s)"
  by (simp add: hand_request_def)

section \<open>A shell runner\<close>

definition runner_fit :: "('j split_server \<Rightarrow> bool) \<Rightarrow> 'j split_system \<Rightarrow> bool" where
  "runner_fit fit s \<longleftrightarrow> (sy_running s 0 \<longrightarrow> fit (sy_server s))"

text \<open>
  What the shell's thread promises when the runner that is registered is \<open>turn\<close>, one of the repository's or one of
  a kernel's own: it keeps the contract of a controlled thread, leaves the messenger's sockets alone, and is still
  able to stop when it is asked to.
\<close>

locale split_shell_runner = controlled_thread turn kernel_ok Sh_controller sp_shell "\<lambda>m. hd m = ''stop''" fit backlog
  for turn :: "(shell_socket \<times> multipart) list \<Rightarrow> ('j split_server, loop_status) prog" and kernel_ok :: bool
    and fit :: "'j split_server \<Rightarrow> bool" and backlog :: "shell_socket net \<Rightarrow> nat" +
  fixes env :: "'j split_env" and make_header :: "string \<Rightarrow> string \<Rightarrow> string \<Rightarrow> 'j"
  assumes control_side: "kernel_ok \<Longrightarrow> control_side_ok env make_header"
    and turn_messenger: "kernel_ok \<Longrightarrow> turn batch st = (Inr status, st') \<Longrightarrow> sp_messenger st' = sp_messenger st"
    and fit_asked: "fit st \<Longrightarrow> fit (st\<lparr>sp_shell := arrive [(Sh_controller, [''stop''])] (sp_shell st)\<rparr>)"
    and fit_messenger: "fit st \<Longrightarrow> fit (st\<lparr>sp_messenger := n\<rparr>)"
begin

lemma split_step_wires:
  assumes ok: kernel_ok and step: "runner_step turn env make_header s s'"
    and idle: "messenger_idle s" and inv: "wires_inv split_order (split_wires s)"
  shows "(split_wires s' = split_wires s \<or> wires_step split_order (split_wires s) (split_wires s')) \<and> messenger_idle s'"
proof -
  have greets: "\<forall>tpc. \<exists>w. welcome_message (env_json env) make_header (split_publisher_cb env) tpc = Inr w"
    using control_side [OF ok] by (simp add: control_side_ok_def)
  have empty: "\<And>c. inbox (sp_messenger (sy_server s)) c = []" using idle by (simp add: messenger_idle_def)
  note single = reply_single [OF inv split_stop_order_ok]
  from step obtain a where "runner_act turn env make_header a s s'" by (auto simp: runner_step_def)
  then show ?thesis
  proof (cases rule: runner_act.cases)
    case (shell batch status srv)
    note serves = turn_serves [OF ok shell(5)]
    have "sp_messenger srv = sp_messenger (sy_server s)" using turn_messenger [OF ok shell(5)] .
    moreover from this have "split_wires s' = after_turn 0 (inbox (sp_shell srv) Sh_controller)
        (on_socket Sh_controller (outbox (sp_shell srv))) (status = Running) (split_wires s)"
      by (auto simp: shell(2) split_wires_def after_turn_def fun_eq_iff)
    ultimately show ?thesis
      using thread_turn_wires [of 0 split_order "split_wires s" Sh_controller "sp_shell (sy_server s)" status "sp_shell srv"]
        serves shell(2-4) idle by (simp add: messenger_idle_def)
  next
    case (publisher batch status n)
    note serves = pub_thread.turn_serves [OF greets publisher(5)]
    have "split_wires s' = after_turn 1 (inbox n Pub_controller)
        (on_socket Pub_controller (outbox n)) (status = Running) (split_wires s)"
      by (auto simp: publisher(2) split_wires_def after_turn_def fun_eq_iff)
    then show ?thesis
      using thread_turn_wires [of 1 split_order "split_wires s" Pub_controller "sy_publisher s" status n]
        serves publisher(2-4) idle by (simp add: messenger_idle_def)
  next
    case (heartbeat batch status n)
    note serves = hb_thread.turn_serves [OF TrueI heartbeat(5)]
    have "split_wires s' = after_turn 2 (inbox n Hb_controller)
        (on_socket Hb_controller (outbox n)) (status = Running) (split_wires s)"
      by (auto simp: heartbeat(2) split_wires_def after_turn_def fun_eq_iff)
    then show ?thesis
      using thread_turn_wires [of 2 split_order "split_wires s" Hb_controller "sy_heartbeat s" status n]
        serves heartbeat(2-4) idle by (simp add: messenger_idle_def)
  next
    case (deliver k m rest)
    with wires_step.deliver [of k split_order "split_wires s" m rest] idle show ?thesis
      by (simp add: hand_request_wires messenger_idle_def)
  next
    case (control m status srv)
    have "sp_shell srv = sp_shell (sy_server s)" "sp_messenger srv = sp_messenger (sy_server s)"
      using control_turn_frame [OF control_side [OF ok] control(4)] by simp_all
    then have "split_wires s' = (if status = Running then split_wires s else (split_wires s)\<lparr>w_pc := Ask 0\<rparr>)"
      "messenger_idle s'"
      using control(2,3) idle by (auto simp: split_wires_def messenger_idle_def fun_eq_iff)
    with wires_step.quit [of "split_wires s" split_order] control(3) show ?thesis by simp
  next
    case (request j w srv)
    have "w \<noteq> ''stop''" using control_side [OF ok] request(4) by (auto simp: control_side_ok_def)
    moreover have "split_wires s' = put_request 0 w Requesting (split_wires s)" "messenger_idle s'"
      using request(2,5) idle send_request_wires [where k = 0 and s = s and w = w and pc = Requesting] messenger_send_run [of Ms_shell_controller w "sy_server s"]
      by (auto simp: messenger_idle_def)
    ultimately show ?thesis using wires_step.request [of "split_wires s" split_order w] request(3) by simp
  next
    case (answered m rest reply srv)
    obtain r where m: "m = [r]" using single [OF answered(4)] answered(3) by auto
    have "split_wires s' = take_reply 0 Serving (split_wires s)" "messenger_idle s'"
      using answered(2,5) idle messenger_reply_run(1) [OF empty, of 0 r] by (auto simp: m take_reply_wires messenger_idle_def)
    then show ?thesis using wires_step.answered [of "split_wires s" m rest split_order] answered(3,4) by simp
  next
    case (ask k srv)
    have k: "k < 3" using inv ask(3) by (simp add: wires_inv_def protocol_inv_def wires_protocol_def)
    have "split_wires s' = put_request k (stop_frame split_order k) (Await k) (split_wires s)" "messenger_idle s'"
      using ask(2,4) idle by (auto simp: messenger_send_run send_request_wires [OF k] messenger_idle_def)
    then show ?thesis using wires_step.ask [of "split_wires s" k split_order] ask(3) by simp
  next
    case (advance k m rest response srv)
    obtain r where m: "m = [r]" using single [OF advance(4)] advance(3) by auto
    have "split_wires s' = take_reply k (after_reply split_order k) (split_wires s)" "messenger_idle s'"
      using advance(2,5) idle messenger_reply_run(2) [OF empty, of k r] by (auto simp: m take_reply_wires messenger_idle_def)
    then show ?thesis using wires_step.advance [of "split_wires s" k m rest split_order] advance(3,4) by simp
  qed
qed

lemma hand_request_fit: "runner_fit fit s \<Longrightarrow> k < 3 \<Longrightarrow> runner_fit fit (hand_request k [stop_frame split_order k] s)"
  using fit_asked by (auto simp: runner_fit_def hand_request_def)

text \<open>The thread of channel \<open>k\<close> serves the request to stop.\<close>

lemma stop_request_served:
  assumes ok: kernel_ok and "k < 3" "sy_running s k"
    "w_inbox (split_wires s) k = [[stop_frame split_order k]]" "runner_fit fit s"
  shows "\<exists>s'. (runner_step turn env make_header)\<^sup>*\<^sup>* s s' \<and> sy_pc s' = sy_pc s \<and> \<not> sy_running s' k \<and> runner_fit fit s'"
proof -
  have greets: "\<forall>tpc. \<exists>w. welcome_message (env_json env) make_header (split_publisher_cb env) tpc = Inr w"
    using control_side [OF ok] by (simp add: control_side_ok_def)
  from assms(2) consider "k = 0" | "k = 1" | "k = 2" by linarith
  then show ?thesis
  proof cases
    case 1
    define emb where "emb srv r = s\<lparr>sy_server := srv, sy_running := (sy_running s)(0 := r)\<rparr>" for srv r
    have "emb (sy_server s) True = s" using assms(3) 1 by (simp add: emb_def fun_upd_idem)
    moreover have "runner_step turn env make_header (emb srv True) (emb srv' (status = Running))"
      if "turn [] srv = (Inr status, srv')" for srv status srv'
      using runner_step_shell [of "emb srv True" "[]" turn status srv' env make_header] that by (simp add: emb_def)
    note eventually_served [where emb = emb and step = "runner_step turn env make_header" and st = "sy_server s"
        and w = "''stop''", OF ok this]
    ultimately obtain srv where "(runner_step turn env make_header)\<^sup>*\<^sup>* s (emb srv False)"
      using assms(3-5) 1 by (auto simp: runner_fit_def)
    then show ?thesis using 1 by (intro exI [of _ "emb srv False"]) (simp add: emb_def runner_fit_def)
  next
    case 2
    define emb where "emb n r = s\<lparr>sy_publisher := n, sy_running := (sy_running s)(1 := r)\<rparr>" for n r
    have "emb (sy_publisher s) True = s" using assms(3) 2 by (simp add: emb_def fun_upd_idem)
    moreover have "runner_step turn env make_header (emb n True) (emb n' (status = Running))"
      if "publisher_turn (env_json env) make_header (split_publisher_cb env) (Poll_arrivals []) n = (Inr status, n')"
      for n status n'
      using runner_step_publisher [of "emb n True" "[]" env make_header status n' turn] that by (simp add: emb_def)
    note pub_thread.eventually_served [where emb = emb and step = "runner_step turn env make_header" and st = "sy_publisher s"
        and w = "[]", OF greets this]
    ultimately obtain n where "(runner_step turn env make_header)\<^sup>*\<^sup>* s (emb n False)"
      using assms(4) 2 by auto
    then show ?thesis using 2 assms(5) by (intro exI [of _ "emb n False"]) (simp add: emb_def runner_fit_def)
  next
    case 3
    define emb where "emb n r = s\<lparr>sy_heartbeat := n, sy_running := (sy_running s)(2 := r)\<rparr>" for n r
    have "emb (sy_heartbeat s) True = s" using assms(3) 3 by (simp add: emb_def fun_upd_idem)
    moreover have "runner_step turn env make_header (emb n True) (emb n' (status = Running))"
      if "heartbeat_turn (Poll_arrivals []) n = (Inr status, n')" for n status n'
      using runner_step_heartbeat [of "emb n True" "[]" status n' turn env make_header] that by (simp add: emb_def)
    note hb_thread.eventually_served [where emb = emb and step = "runner_step turn env make_header" and st = "sy_heartbeat s"
        and w = "[]", OF TrueI this]
    ultimately obtain n where "(runner_step turn env make_header)\<^sup>*\<^sup>* s (emb n False)"
      using assms(4) 3 by auto
    then show ?thesis using 3 assms(5) by (intro exI [of _ "emb n False"]) (simp add: emb_def runner_fit_def)
  qed
qed

lemma split_asks:
  assumes "runner_fit fit s" "sy_pc s = Ask k"
  shows "\<exists>s'. runner_step turn env make_header s s' \<and> sy_pc s' = Await k \<and> runner_fit fit s'"
  using runner_step_ask [OF assms(2) messenger_send_run, of turn env make_header] assms(1)
  by (intro exI conjI) (assumption | simp add: runner_fit_def fit_messenger)+

lemma split_delivers:
  assumes "runner_fit fit s" "k < 3" "requests_under_way (split_wires s) k = [stop_frame split_order k] # rest"
  shows "\<exists>s'. runner_step turn env make_header s s' \<and> split_wires s' = hand_over k [stop_frame split_order k] (split_wires s) \<and>
    runner_fit fit s'"
  using runner_step_deliver [OF assms(2,3), of turn env make_header] hand_request_wires [OF assms(2)]
    hand_request_fit [OF assms(1,2)]
  by (intro exI conjI) (assumption | simp add: runner_fit_def fit_messenger)+

lemma split_advances:
  assumes "runner_fit fit s" "messenger_idle s" "sy_pc s = Await k" "replies_under_way (split_wires s) k = [r] # rest"
  shows "\<exists>s'. runner_step turn env make_header s s' \<and> sy_pc s' = after_reply split_order k \<and> runner_fit fit s'"
proof -
  have "\<And>c. inbox (sp_messenger (sy_server s)) c = []" using assms(2) by (simp add: messenger_idle_def)
  from runner_step_advance [OF assms(3,4) messenger_reply_run(2) [OF this], of turn env make_header] assms(1) show ?thesis
    by (intro exI conjI) (assumption | simp add: runner_fit_def fit_messenger)+
qed

end

sublocale split_shell_runner \<subseteq> split: stopping_process "runner_step turn env make_header" initial_system split_wires
    split_order kernel_ok messenger_idle "runner_fit fit"
proof unfold_locales
  show "split_wires initial_system = initial_wires"
    by (auto simp: split_wires_def initial_system_def initial_wires_def empty_net_def)
  show "messenger_idle initial_system" by (simp add: messenger_idle_def initial_system_def empty_net_def)
qed (use split_step_wires split_asks split_delivers stop_request_served split_advances split_stop_order_ok in \<open>simp_all\<close>)

context split_shell_runner
begin

text \<open>What holds of every such server.\<close>

lemma runner_reachable:
  assumes kernel_ok "(runner_step turn env make_header)\<^sup>*\<^sup>* initial_system s"
  shows "(protocol_step split_order)\<^sup>*\<^sup>* initial_protocol (wires_protocol (split_wires s))"
    "messenger_idle s" "wires_inv split_order (split_wires s)"
  using split.reachable_refines [OF assms(2,1)] split.reachable_inv [OF assms(2,1)] by simp_all

lemma runner_stop_completes:
  assumes kernel_ok "(runner_step turn env make_header)\<^sup>*\<^sup>* initial_system s" "sy_pc s = Ask k \<or> sy_pc s = Await k" "runner_fit fit s"
  shows "\<exists>s'. (runner_step turn env make_header)\<^sup>*\<^sup>* s s' \<and> sy_pc s' = Finished \<and> (\<forall>j < 3. \<not> sy_running s' j)"
  using split.stop_completes [OF assms(1) runner_reachable(2,3) [OF assms(1,2)] assms(4)] assms(3) by auto

end

section \<open>The default runner\<close>

text \<open>The shell can stop once it has read all the shell messages that wait.\<close>

lemma stop_frame_fit: "shell_message_ok env f (Sh_controller, [''stop''])"
  by (simp add: shell_message_ok.simps internal_reply_def)

abbreviation shell_fit :: "'j split_env \<Rightarrow> ('j \<Rightarrow> 'j) \<Rightarrow> 'j split_system \<Rightarrow> bool" where
  "shell_fit env f \<equiv> runner_fit (\<lambda>st. inbox_ok env f (sp_shell st))"

lemma polled_runner:
  assumes choice: "fair_choice pick"
  shows "split_shell_runner (polled_turn pick env) (split_kernel_ok env f make_header)
    (\<lambda>st. inbox_ok env f (sp_shell st)) (\<lambda>n. length (inbox n Sh_shell)) env make_header"
proof
  fix batch status and st st' :: "'a split_server"
  assume kernel: "split_kernel_ok env f make_header"
  then have ok: "shell_listeners env f" "\<And>msg st r st'. shell_listener env msg st = (r, st') \<Longrightarrow> sp_messenger st' = sp_messenger st"
    by (simp_all add: split_kernel_ok_def)
  {
    assume "inbox_ok env f (sp_shell st)"
    then have "inbox_ok env f (arrive [] (sp_shell st))" by (simp add: inbox_ok_def)
    from polled_turn_returns [OF ok(1) choice this]
    show "\<exists>status st'. polled_turn pick env [] st = (Inr status, st') \<and> (status = Running \<longrightarrow> inbox_ok env f (sp_shell st'))"
      by auto
  next
    assume turn: "polled_turn pick env batch st = (Inr status, st')"
    show "thread_serves (\<lambda>m. hd m = ''stop'') Sh_controller (on_socket Sh_controller batch) (sp_shell st) status (sp_shell st')"
      by (rule polled_turn_result [OF ok choice refl turn]) (auto simp: thread_serves_def serves_request_def)
    show "sp_messenger st' = sp_messenger st"
      by (rule polled_turn_result [OF ok choice refl turn]) simp_all
  next
    assume turn: "polled_turn pick env [] st = (Inr status, st')" and "inbox (sp_shell st) Sh_controller \<noteq> []"
      "inbox (sp_shell st') Sh_controller = inbox (sp_shell st) Sh_controller"
    then show "length (inbox (sp_shell st') Sh_shell) < length (inbox (sp_shell st) Sh_shell)"
      by (cases rule: polled_turn_result [OF ok choice refl turn]) auto
  }
  show "control_side_ok env make_header" using kernel by (simp add: split_kernel_ok_def)
next
  fix st :: "'a split_server"
  assume "inbox_ok env f (sp_shell st)"
  then show "inbox_ok env f (sp_shell (st\<lparr>sp_shell := arrive [(Sh_controller, [''stop''])] (sp_shell st)\<rparr>))"
    using stop_frame_fit by (auto simp: inbox_ok_def)
qed simp

interpretation default_runner: split_shell_runner "\<lambda>batch. shell_turn env (Poll_arrivals batch)"
    "split_kernel_ok env f make_header" "\<lambda>st. inbox_ok env f (sp_shell st)" "\<lambda>n. length (inbox n Sh_shell)" env make_header
  for env f make_header
  unfolding shell_turn_polled by (rule polled_runner [OF shell_first_fair])

text \<open>
  The exchanges of the system are those of the messenger's code, and a request of the control
  thread that of \<open>send_to_shell_impl\<close>: run without interruption they are the same programs.
\<close>

lemma messenger_exchanges:
  "on_messenger (stop_exchange (messenger_channel k) (stop_frame split_order k) [(messenger_channel k, m)]) =
     seq (on_messenger (net_send (messenger_channel k) [stop_frame split_order k])) (\<lambda>_.
     seq (seq (hand_reply k m) (\<lambda>_. on_messenger (net_recv_frame (messenger_channel k)))) (\<lambda>_. ret []))"
  by (simp add: fun_eq_iff stop_exchange_def hand_reply_def seq_def on_messenger_eval modify_def prog_simps
      net_send_def split: prod.split sum.split)

lemma messenger_stops_by_exchanges:
  "messenger_stop_channels arriving =
     seq (stop_exchange (messenger_channel 0) (stop_frame split_order 0) (arriving 0)) (\<lambda>_.
     seq (stop_exchange (messenger_channel 1) (stop_frame split_order 1) (arriving 1)) (\<lambda>_.
     seq (stop_exchange (messenger_channel 2) (stop_frame split_order 2) (arriving 2)) (\<lambda>_. ret ())))"
  by (simp only: split_order_simps, simp add: fun_eq_iff messenger_stop_channels_def stop_exchange_def seq_def prog_simps numeral_2_eq_2
      split: prod.split sum.split)

section \<open>Properties\<close>

definition sample_split_env :: "jv split_env" where
  "sample_split_env = quiet_split_env\<lparr>env_json := sample_json\<lparr>j_dump := \<lambda>eh v. Inr (jv_print v)\<rparr>\<rparr>"

lemma sample_split_kernel_ok: "split_kernel_ok sample_split_env id (\<lambda>msg_type user session. JStr msg_type)"
proof -
  have "shell_listeners sample_split_env id"
    by (simp add: shell_listeners_def sample_split_env_def quiet_split_env_def prog_simps)
  then show ?thesis
    by (auto simp: split_kernel_ok_def control_side_ok_def sample_split_env_def quiet_split_env_def prog_simps runner_stop_impl_def
        jv_print_not_stop welcome_message_def split_publisher_cb_def create_xpub_message_def sample_json_def
        make_xpub_message_def serialize_iopub_def serialize_message_base_def no_xauthentication_eq)
qed

lemma split_finished:
  assumes "split_kernel_ok env f make_header" "reachable_system env make_header s" "sy_pc s = Finished" "k < 3"
  shows "\<not> sy_running s k"
  using default_runner.split.reachable_inv [OF assms(2) [unfolded reachable_system_def] assms(1)] assms(3,4)
    running_iff [of split_order "split_wires s" k] by simp

text \<open>A stop is requested: a control message arrives and its listener asks for it.\<close>

lemma stop_requested:
  "\<exists>s. (runner_step turn sample_split_env (\<lambda>msg_type user session. JStr msg_type))\<^sup>*\<^sup>* initial_system s \<and> sy_pc s = Ask 0 \<and>
    shell_fit sample_split_env id s"
proof -
  let ?m = "[''id'', DELIMITER, ''s'', ''H'', ''{}'', ''{}'', ''{}'']"
  let ?msg = "make_xmessage [''id''] \<lparr>m_header = JObj [(''msg_type'', JStr ''status'')], m_parent_header = JObj [],
          m_metadata = JObj [], m_content = JObj [], m_buffers = []\<rparr>"
  have m: "deserialize (env_json sample_split_env) ?m (p_auth sample_split_env) = Inr ?msg"
    using deserialize_found [of "[''id'']" "[''s'', ''H'', ''{}'', ''{}'', ''{}'']" "env_json sample_split_env" no_xauthentication]
    by (simp add: deserialize_message_base_parts no_xauthentication_eq sample_json_def DELIMITER_def
        sample_split_env_def quiet_split_env_def)
  have "\<exists>srv. control_turn sample_split_env (Recv_message ?m) (sy_server initial_system) = (Inr Stopped, srv) \<and>
      sp_shell srv = empty_net"
    using m by (simp add: control_turn_resolved read_control_def seq_def prog_simps on_control_eval net_recv_def
        notify_control_listener_def initial_system_def split_deserialize_def try_catch_def arrive_def empty_net_def
        sample_split_env_def quiet_split_env_def runner_stop_impl_def)
  then obtain srv where "control_turn sample_split_env (Recv_message ?m) (sy_server initial_system) = (Inr Stopped, srv)"
    "sp_shell srv = empty_net" by blast
  note runner_step_control [OF _ this(1), where turn = turn and make_header = "\<lambda>msg_type user session. JStr msg_type"] this(2)
  then show ?thesis
    by (intro exI [of _ "initial_system\<lparr>sy_server := srv, sy_pc := Ask 0\<rparr>"])
      (auto simp: initial_system_def runner_fit_def inbox_ok_def empty_net_def)
qed

lemma stop_requested_reachable:
  "\<exists>s. reachable_system sample_split_env (\<lambda>msg_type user session. JStr msg_type) s \<and> sy_pc s = Ask 0 \<and>
    shell_fit sample_split_env id s"
  unfolding reachable_system_def by (rule stop_requested)

text \<open>
  C14. However the turns of the control thread, the shell, the publisher and the heartbeat of a
  split server interleave, and whatever messages arrive in between, the internal channels
  follow the protocol of \<open>Stop_Protocol\<close>: every step of the threads is a step of the protocol or
  none that it sees. So each request the control thread sends is read by the thread it was
  meant for and answered by one reply before the next is sent.
\<close>

theorem split_system_refines:
  assumes "split_kernel_ok env f make_header" "reachable_system env make_header s"
  shows "(protocol_step split_order)\<^sup>*\<^sup>* initial_protocol (wires_protocol (split_wires s)) \<and>
    protocol_inv split_order (wires_protocol (split_wires s))"
  using default_runner.split.reachable_refines assms unfolding reachable_system_def by blast

theorem split_system_refines_witness:
  "\<exists>s. sy_pc s = Ask 0 \<and> reachable_system sample_split_env (\<lambda>msg_type user session. JStr msg_type) s \<and>
    (protocol_step split_order)\<^sup>*\<^sup>* initial_protocol (wires_protocol (split_wires s))"
  using split_system_refines [OF sample_split_kernel_ok] stop_requested_reachable by blast



end
