(* ===== verification/Construction.thy ===== *)
theory Construction
  imports Server_Split Client Handshake
begin

text \<open>
  The construction of whole processes out of their parts: the constructors of
  \<^verbatim>\<open>xserver_zmq_impl\<close>, \<^verbatim>\<open>xserver_zmq_split_impl\<close> and \<^verbatim>\<open>xclient_zmq_impl\<close>, with the
  ZeroMQ types of the sockets, what the sockets are bound and connected to, and the registration
  of a kernel at the end of its server's construction.
\<close>

section \<open>Types of sockets\<close>

datatype socket_type = Router | Dealer | Req | Rep | Pub | Sub | Xpub

text \<open>Which types may be connected, according to the reference of ZeroMQ.\<close>

fun compatible :: "socket_type \<Rightarrow> socket_type \<Rightarrow> bool" where
  "compatible Req t = (t = Rep \<or> t = Router)"
| "compatible Rep t = (t = Req \<or> t = Dealer)"
| "compatible Dealer t = (t = Rep \<or> t = Router \<or> t = Dealer)"
| "compatible Router t = (t = Req \<or> t = Dealer \<or> t = Router)"
| "compatible Pub t = (t = Sub)"
| "compatible Xpub t = (t = Sub)"
| "compatible Sub t = (t = Pub \<or> t = Xpub)"

text \<open>The types the constructors give to their sockets.\<close>

fun publisher_type :: "publisher_socket \<Rightarrow> socket_type" where
  "publisher_type Pub_publisher = Xpub"
| "publisher_type Pub_listener = Sub"
| "publisher_type Pub_controller = Rep"

fun heartbeat_type :: "heartbeat_socket \<Rightarrow> socket_type" where
  "heartbeat_type Hb_heartbeat = Router"
| "heartbeat_type Hb_controller = Rep"

fun server_type :: "server_socket \<Rightarrow> socket_type" where
  "server_type Sv_shell = Router"
| "server_type Sv_controller = Router"
| "server_type Sv_stdin = Router"
| "server_type Sv_publisher_pub = Pub"
| "server_type Sv_publisher_controller = Req"
| "server_type Sv_heartbeat_controller = Req"

fun shell_type :: "shell_socket \<Rightarrow> socket_type" where
  "shell_type Sh_shell = Router"
| "shell_type Sh_stdin = Router"
| "shell_type Sh_publisher_pub = Pub"
| "shell_type Sh_controller = Rep"

fun control_type :: "control_socket \<Rightarrow> socket_type" where
  "control_type Ct_control = Router"
| "control_type Ct_publisher_pub = Pub"

definition messenger_type :: "messenger_socket \<Rightarrow> socket_type" where
  "messenger_type s = Req"

definition dealer_type :: "client_socket \<Rightarrow> socket_type" where
  "dealer_type s = Dealer"

fun iopub_type :: "iopub_socket \<Rightarrow> socket_type" where
  "iopub_type Io_iopub = Sub"
| "iopub_type Io_controller = Rep"

fun heartbeat_client_type :: "heartbeat_client_socket \<Rightarrow> socket_type" where
  "heartbeat_client_type Hc_heartbeat = Req"
| "heartbeat_client_type Hc_controller = Rep"

definition client_messenger_type :: "client_messenger_socket \<Rightarrow> socket_type" where
  "client_messenger_type s = Req"

definition handshake_type :: "handshake_socket \<Rightarrow> socket_type" where
  "handshake_type s = Dealer"

definition handshake_client_type :: "handshake_socket \<Rightarrow> socket_type" where
  "handshake_client_type s = Router"

section \<open>The constructors\<close>

text \<open>A part of a process sets up its own sockets.\<close>

definition part :: "('s \<Rightarrow> 't) \<Rightarrow> ('s wiring, 'a) prog \<Rightarrow> ('t wiring, 'a) prog" where
  "part f p w = (let (r, v) = p [] in (r, w @ map (\<lambda>(s, c). (f s, c)) v))"

datatype default_part = Default_own server_socket | Default_publisher publisher_socket
  | Default_heartbeat heartbeat_socket

fun default_part_type :: "default_part \<Rightarrow> socket_type" where
  "default_part_type (Default_own s) = server_type s"
| "default_part_type (Default_publisher s) = publisher_type s"
| "default_part_type (Default_heartbeat s) = heartbeat_type s"

definition default_wiring :: "bind_result \<Rightarrow> (default_part \<Rightarrow> nat \<Rightarrow> int) \<Rightarrow> xkernel_configuration
    \<Rightarrow> (default_part wiring, unit) prog" where
  "default_wiring bind draw kernel_config =
     seq (part Default_publisher (xpublisher_new bind (draw (Default_publisher Pub_publisher)) kernel_config)) (\<lambda>_.
     seq (part Default_heartbeat (xheartbeat_new bind (draw (Default_heartbeat Hb_heartbeat)) kernel_config)) (\<lambda>_.
     part Default_own (xserver_zmq_impl_new bind (\<lambda>s. draw (Default_own s)) kernel_config)))"

datatype split_part = Split_control control_socket | Split_messenger messenger_socket
  | Split_heartbeat heartbeat_socket | Split_publisher publisher_socket | Split_shell shell_socket

fun split_part_type :: "split_part \<Rightarrow> socket_type" where
  "split_part_type (Split_control s) = control_type s"
| "split_part_type (Split_messenger s) = messenger_type s"
| "split_part_type (Split_heartbeat s) = heartbeat_type s"
| "split_part_type (Split_publisher s) = publisher_type s"
| "split_part_type (Split_shell s) = shell_type s"

definition split_wiring :: "bind_result \<Rightarrow> (split_part \<Rightarrow> nat \<Rightarrow> int) \<Rightarrow> xkernel_configuration
    \<Rightarrow> (split_part wiring, unit) prog" where
  "split_wiring bind draw kernel_config =
     seq (part Split_control (xcontrol_new bind (\<lambda>s. draw (Split_control s)) kernel_config)) (\<lambda>_.
     seq (part Split_heartbeat (xheartbeat_new bind (draw (Split_heartbeat Hb_heartbeat)) kernel_config)) (\<lambda>_.
     seq (part Split_publisher (xpublisher_new bind (draw (Split_publisher Pub_publisher)) kernel_config)) (\<lambda>_.
     seq (part Split_shell (xshell_new bind (\<lambda>s. draw (Split_shell s)) kernel_config)) (\<lambda>_.
     part Split_messenger messenger_connect))))"

datatype client_part = Client_channel client_socket | Client_iopub iopub_socket
  | Client_heartbeat heartbeat_client_socket | Client_messenger client_messenger_socket

fun client_part_type :: "client_part \<Rightarrow> socket_type" where
  "client_part_type (Client_channel s) = dealer_type s"
| "client_part_type (Client_iopub s) = iopub_type s"
| "client_part_type (Client_heartbeat s) = heartbeat_client_type s"
| "client_part_type (Client_messenger s) = client_messenger_type s"

definition client_wiring :: "bind_result \<Rightarrow> xkernel_configuration \<Rightarrow> (client_part wiring, unit) prog" where
  "client_wiring bind config =
     seq (part Client_channel (xdealer_channel_new Cl_shell (m_transport config) (m_ip config) (m_shell_port config))) (\<lambda>_.
     seq (part Client_channel (xdealer_channel_new Cl_control (m_transport config) (m_ip config) (m_control_port config))) (\<lambda>_.
     seq (part Client_iopub (xiopub_client_new bind config)) (\<lambda>_.
     part Client_heartbeat (xheartbeat_client_new bind config))))"

text \<open>\<^verbatim>\<open>xclient_zmq_impl::connect\<close>, called after the construction.\<close>

definition client_connect :: "(client_part wiring, unit) prog" where
  "client_connect = part Client_messenger client_messenger_connect"

text \<open>
  The state of a server under construction, and the constructors: the authentication object,
  the parts in the order of the members, and, when the kernel has to register, its registration
  with the ports that the sockets were bound to.
\<close>

record 's construction =
  cn_wiring :: "'s wiring"
  cn_handshake :: handshake

definition on_cn_wiring :: "('s wiring, 'a) prog \<Rightarrow> ('s construction, 'a) prog" where
  "on_cn_wiring = zoom cn_wiring (\<lambda>w st. st\<lparr>cn_wiring := w\<rparr>)"

definition on_handshake :: "(handshake, 'a) prog \<Rightarrow> ('s construction, 'a) prog" where
  "on_handshake = zoom cn_handshake (\<lambda>h st. st\<lparr>cn_handshake := h\<rparr>)"

definition new_construction :: "'s construction" where
  "new_construction = \<lparr>cn_wiring = [], cn_handshake = fresh_handshake\<rparr>"

definition construct_server :: "'j json_api \<Rightarrow> 'c mac_api \<Rightarrow> (bytes \<Rightarrow> string) \<Rightarrow> ('s wiring, unit) prog
    \<Rightarrow> ('s wiring \<Rightarrow> xkernel_configuration \<Rightarrow> xkernel_configuration res) \<Rightarrow> xconfiguration
    \<Rightarrow> xkernel_configuration \<Rightarrow> error_handler \<Rightarrow> (handshake_socket \<times> multipart) list
    \<Rightarrow> ('s construction, xauthentication) prog" where
  "construct_server J M hex_string parts update initial_config kernel_config eh replies =
     seq (lift_res (make_xauthentication M hex_string (m_signature_scheme kernel_config) (c_key kernel_config))) (\<lambda>auth.
     seq (on_cn_wiring parts) (\<lambda>_.
     seq (case initial_config of
            Kernel_config _ \<Rightarrow> ret ()
          | Registration_config regis \<Rightarrow>
              seq (gets (\<lambda>st. update (cn_wiring st) kernel_config)) (\<lambda>updated.
              seq (lift_res updated) (\<lambda>kernel_config.
              on_handshake (send_connection_info J regis kernel_config auth eh replies)))) (\<lambda>_.
     ret auth)))"

definition split_update :: "split_part wiring \<Rightarrow> xkernel_configuration \<Rightarrow> xkernel_configuration res" where
  "split_update w = split_update_config (\<lambda>s. query_end_point w (Split_shell s))
     (query_end_point w (Split_control Ct_control)) (query_end_point w (Split_publisher Pub_publisher))
     (query_end_point w (Split_heartbeat Hb_heartbeat))"

definition default_update :: "default_part wiring \<Rightarrow> xkernel_configuration \<Rightarrow> xkernel_configuration res" where
  "default_update w = update_config (\<lambda>s. query_end_point w (Default_own s))
     (query_end_point w (Default_publisher Pub_publisher)) (query_end_point w (Default_heartbeat Hb_heartbeat))"

definition construct_split_server where
  "construct_split_server J M hex_string bind draw initial_config kernel_config =
     construct_server J M hex_string (split_wiring bind draw kernel_config) split_update initial_config kernel_config"

definition construct_default_server where
  "construct_default_server J M hex_string bind draw initial_config kernel_config =
     construct_server J M hex_string (default_wiring bind draw kernel_config) default_update initial_config kernel_config"

section \<open>What a constructor that returns has done\<close>

lemma sock_call_Inr: "sock_call s c w = (r, w') \<longleftrightarrow> r = Inr () \<and> w' = w @ [(s, c)]"
  by (auto simp: sock_call_def modify_def)

lemma sock_bind_Inr: "sock_bind bind s e w = (Inr x, w') \<longleftrightarrow> bind e = None \<and> w' = w @ [(s, Bind e)]"
  by (auto simp: sock_bind_def sock_call_Inr prog_simps split: option.split)

text \<open>The calls by which a socket is bound to its port, or to the first free one drawn.\<close>

definition chosen_port :: "bind_result \<Rightarrow> (nat \<Rightarrow> int) \<Rightarrow> string \<Rightarrow> string \<Rightarrow> string \<Rightarrow> string option" where
  "chosen_port bind draw transport ip port =
     (if port \<noteq> [] then Some port
      else map_option (\<lambda>i. int_to_string (draw i)) (first_free bind draw transport ip 100))"

definition binding :: "'s \<Rightarrow> string \<Rightarrow> string \<Rightarrow> string option \<Rightarrow> 's wiring" where
  "binding s transport ip port = (case port of
      Some p \<Rightarrow> [(s, Bind (get_end_point transport ip p))] | None \<Rightarrow> [])"

lemma init_socket_Inr:
  "init_socket bind draw s transport ip port w = (Inr x, w') \<longleftrightarrow>
     (port \<noteq> [] \<longrightarrow> bind (get_end_point transport ip port) = None) \<and>
     w' = w @ (s, Set_option (Linger get_socket_linger)) # binding s transport ip (chosen_port bind draw transport ip port)"
  by (auto simp: init_socket_def seq_Inr_iff sock_set_def sock_call_Inr sock_bind_Inr chosen_port_def binding_def
      find_free_port_impl_eq prog_simps port_end_point_def split: option.splits)

lemma init_socket_at_Inr:
  "init_socket_at bind s e w = (Inr x, w') \<longleftrightarrow>
     bind e = None \<and> w' = w @ [(s, Set_option (Linger get_socket_linger)), (s, Bind e)]"
  by (auto simp: init_socket_at_def seq_Inr_iff sock_set_def sock_call_Inr sock_bind_Inr)

lemma part_Inr: "part f p w = (Inr x, w') \<longleftrightarrow> (\<exists>v. p [] = (Inr x, v) \<and> w' = w @ map (\<lambda>(s, c). (f s, c)) v)"
  by (auto simp: part_def Let_def split: prod.split)

text \<open>What matters for the connections: the calls that do not set options.\<close>

fun is_end :: "'s \<times> sock_call \<Rightarrow> bool" where
  "is_end (s, Set_option opt) = False"
| "is_end (s, c) = True"

definition ends :: "'s wiring \<Rightarrow> 's wiring" where "ends w = filter is_end w"

lemma ends_simps [simp]:
  "ends [] = []" "ends ((s, Set_option opt) # w) = ends w" "ends ((s, Bind e) # w) = (s, Bind e) # ends w"
  "ends ((s, Connect e) # w) = (s, Connect e) # ends w" "ends (v @ w) = ends v @ ends w"
  by (simp_all add: ends_def)

lemma ends_binding [simp]: "ends (binding s transport ip port) = binding s transport ip port"
  by (simp add: binding_def split: option.split)

lemma is_end_part [simp]: "is_end (f s, c) = is_end (s, c)"
  by (cases c) simp_all

lemma ends_part [simp]: "ends (map (\<lambda>(s, c). (f s, c)) w) = map (\<lambda>(s, c). (f s, c)) (ends w)"
  by (induction w) (auto simp: ends_def)

lemma ends_mem: "(s, Bind e) \<in> set w \<longleftrightarrow> (s, Bind e) \<in> set (ends w)"
  "(s, Connect e) \<in> set w \<longleftrightarrow> (s, Connect e) \<in> set (ends w)"
  by (simp_all add: ends_def)

lemma set_curve_Inr:
  "set_curve_encryption s k k' w = (Inr x, w') \<longleftrightarrow>
     w' = w @ [(s, Set_option (Curve_publickey k)), (s, Set_option (Curve_secretkey k')), (s, Set_option (Curve_server 1))]"
  by (auto simp: set_curve_encryption_def seq_Inr_iff sock_set_def sock_call_Inr)

lemmas wiring_Inr = seq_Inr_iff sock_set_def sock_connect_def sock_call_Inr sock_bind_Inr init_socket_Inr
  init_socket_at_Inr part_Inr set_curve_Inr

lemma xpublisher_ends:
  assumes "xpublisher_new bind draw config [] = (Inr (), w)"
  shows "ends w = binding Pub_publisher (m_transport config) (m_ip config)
       (chosen_port bind draw (m_transport config) (m_ip config) (m_iopub_port config)) @
     [(Pub_listener, Bind get_publisher_end_point), (Pub_controller, Bind (get_controller_end_point ''publisher''))]"
  using assms by (auto simp: xpublisher_new_def wiring_Inr prog_simps split: if_splits)

lemma xheartbeat_ends:
  assumes "xheartbeat_new bind draw config [] = (Inr (), w)"
  shows "ends w = binding Hb_heartbeat (m_transport config) (m_ip config)
       (chosen_port bind draw (m_transport config) (m_ip config) (m_hb_port config)) @
     [(Hb_controller, Bind (get_controller_end_point ''heartbeat''))]"
  using assms by (auto simp: xheartbeat_new_def wiring_Inr prog_simps split: if_splits)

lemma xcontrol_ends:
  assumes "xcontrol_new bind draw config [] = (Inr (), w)"
  shows "ends w = binding Ct_control (m_transport config) (m_ip config)
       (chosen_port bind (draw Ct_control) (m_transport config) (m_ip config) (m_control_port config)) @
     [(Ct_publisher_pub, Connect get_publisher_end_point)]"
  using assms by (auto simp: xcontrol_new_def wiring_Inr prog_simps split: if_splits)

lemma xshell_ends:
  assumes "xshell_new bind draw config [] = (Inr (), w)"
  shows "ends w = binding Sh_shell (m_transport config) (m_ip config)
       (chosen_port bind (draw Sh_shell) (m_transport config) (m_ip config) (m_shell_port config)) @
     binding Sh_stdin (m_transport config) (m_ip config)
       (chosen_port bind (draw Sh_stdin) (m_transport config) (m_ip config) (m_stdin_port config)) @
     [(Sh_publisher_pub, Connect get_publisher_end_point), (Sh_controller, Bind (get_controller_end_point ''shell''))]"
  using assms by (auto simp: xshell_new_def wiring_Inr prog_simps split: if_splits)

lemma xserver_zmq_impl_ends:
  assumes "xserver_zmq_impl_new bind draw config [] = (Inr (), w)"
  shows "ends w = binding Sv_shell (m_transport config) (m_ip config)
       (chosen_port bind (draw Sv_shell) (m_transport config) (m_ip config) (m_shell_port config)) @
     binding Sv_controller (m_transport config) (m_ip config)
       (chosen_port bind (draw Sv_controller) (m_transport config) (m_ip config) (m_control_port config)) @
     binding Sv_stdin (m_transport config) (m_ip config)
       (chosen_port bind (draw Sv_stdin) (m_transport config) (m_ip config) (m_stdin_port config)) @
     [(Sv_publisher_pub, Connect get_publisher_end_point),
      (Sv_publisher_controller, Connect (get_controller_end_point ''publisher'')),
      (Sv_heartbeat_controller, Connect (get_controller_end_point ''heartbeat''))]"
  using assms by (auto simp: xserver_zmq_impl_new_def Let_def wiring_Inr prog_simps split: if_splits)

lemma messenger_ends:
  assumes "messenger_connect [] = (Inr (), w)"
  shows "ends w = [(Ms_shell_controller, Connect (get_controller_end_point ''shell'')),
      (Ms_publisher_controller, Connect (get_controller_end_point ''publisher'')),
      (Ms_heartbeat_controller, Connect (get_controller_end_point ''heartbeat''))]"
  using assms by (auto simp: messenger_connect_def wiring_Inr)

lemma client_parts_ends:
  "xdealer_channel_new s transport ip port [] = (Inr (), w) \<Longrightarrow> ends w = [(s, Connect (get_end_point transport ip port))]"
  "xiopub_client_new bind config [] = (Inr (), w1) \<Longrightarrow> ends w1 =
     [(Io_iopub, Connect (get_end_point (m_transport config) (m_ip config) (m_iopub_port config))),
      (Io_controller, Bind (get_controller_end_point ''iopub''))]"
  "xheartbeat_client_new bind config [] = (Inr (), w2) \<Longrightarrow> ends w2 =
     [(Hc_heartbeat, Connect (get_end_point (m_transport config) (m_ip config) (m_hb_port config))),
      (Hc_controller, Bind (get_controller_end_point ''heartbeat''))]"
  "client_messenger_connect [] = (Inr (), w3) \<Longrightarrow> ends w3 =
     [(Cm_iopub_controller, Connect (get_controller_end_point ''iopub'')),
      (Cm_heartbeat_controller, Connect (get_controller_end_point ''heartbeat''))]"
  by (auto simp: xdealer_channel_new_def xiopub_client_new_def xheartbeat_client_new_def client_messenger_connect_def
      Let_def wiring_Inr)

text \<open>The connections of the whole processes.\<close>

definition bound_port :: "bind_result \<Rightarrow> (nat \<Rightarrow> int) \<Rightarrow> xkernel_configuration \<Rightarrow> 's \<Rightarrow> string \<Rightarrow> 's wiring" where
  "bound_port bind draw config s port = binding s (m_transport config) (m_ip config)
     (chosen_port bind draw (m_transport config) (m_ip config) port)"

lemma map_binding [simp]: "map (\<lambda>(s, c). (f s, c)) (binding s transport ip port) = binding (f s) transport ip port"
  by (simp add: binding_def split: option.split)

lemma split_ends:
  assumes "split_wiring bind draw config [] = (Inr (), w)"
  shows "ends w =
    bound_port bind (draw (Split_control Ct_control)) config (Split_control Ct_control) (m_control_port config) @
    [(Split_control Ct_publisher_pub, Connect get_publisher_end_point)] @
    bound_port bind (draw (Split_heartbeat Hb_heartbeat)) config (Split_heartbeat Hb_heartbeat) (m_hb_port config) @
    [(Split_heartbeat Hb_controller, Bind (get_controller_end_point ''heartbeat''))] @
    bound_port bind (draw (Split_publisher Pub_publisher)) config (Split_publisher Pub_publisher) (m_iopub_port config) @
    [(Split_publisher Pub_listener, Bind get_publisher_end_point),
     (Split_publisher Pub_controller, Bind (get_controller_end_point ''publisher''))] @
    bound_port bind (draw (Split_shell Sh_shell)) config (Split_shell Sh_shell) (m_shell_port config) @
    bound_port bind (draw (Split_shell Sh_stdin)) config (Split_shell Sh_stdin) (m_stdin_port config) @
    [(Split_shell Sh_publisher_pub, Connect get_publisher_end_point),
     (Split_shell Sh_controller, Bind (get_controller_end_point ''shell'')),
     (Split_messenger Ms_shell_controller, Connect (get_controller_end_point ''shell'')),
     (Split_messenger Ms_publisher_controller, Connect (get_controller_end_point ''publisher'')),
     (Split_messenger Ms_heartbeat_controller, Connect (get_controller_end_point ''heartbeat''))]"
  using assms by (auto simp: split_wiring_def seq_Inr_iff part_Inr xcontrol_ends xheartbeat_ends xpublisher_ends
      xshell_ends messenger_ends bound_port_def)

lemma default_ends:
  assumes "default_wiring bind draw config [] = (Inr (), w)"
  shows "ends w =
    bound_port bind (draw (Default_publisher Pub_publisher)) config (Default_publisher Pub_publisher) (m_iopub_port config) @
    [(Default_publisher Pub_listener, Bind get_publisher_end_point),
     (Default_publisher Pub_controller, Bind (get_controller_end_point ''publisher''))] @
    bound_port bind (draw (Default_heartbeat Hb_heartbeat)) config (Default_heartbeat Hb_heartbeat) (m_hb_port config) @
    [(Default_heartbeat Hb_controller, Bind (get_controller_end_point ''heartbeat''))] @
    bound_port bind (draw (Default_own Sv_shell)) config (Default_own Sv_shell) (m_shell_port config) @
    bound_port bind (draw (Default_own Sv_controller)) config (Default_own Sv_controller) (m_control_port config) @
    bound_port bind (draw (Default_own Sv_stdin)) config (Default_own Sv_stdin) (m_stdin_port config) @
    [(Default_own Sv_publisher_pub, Connect get_publisher_end_point),
     (Default_own Sv_publisher_controller, Connect (get_controller_end_point ''publisher'')),
     (Default_own Sv_heartbeat_controller, Connect (get_controller_end_point ''heartbeat''))]"
  using assms by (auto simp: default_wiring_def seq_Inr_iff part_Inr xheartbeat_ends xpublisher_ends
      xserver_zmq_impl_ends bound_port_def)

lemma client_ends:
  assumes "seq (client_wiring bind config) (\<lambda>_. client_connect) [] = (Inr (), w)"
  shows "ends w =
    [(Client_channel Cl_shell, Connect (get_end_point (m_transport config) (m_ip config) (m_shell_port config))),
     (Client_channel Cl_control, Connect (get_end_point (m_transport config) (m_ip config) (m_control_port config))),
     (Client_iopub Io_iopub, Connect (get_end_point (m_transport config) (m_ip config) (m_iopub_port config))),
     (Client_iopub Io_controller, Bind (get_controller_end_point ''iopub'')),
     (Client_heartbeat Hc_heartbeat, Connect (get_end_point (m_transport config) (m_ip config) (m_hb_port config))),
     (Client_heartbeat Hc_controller, Bind (get_controller_end_point ''heartbeat'')),
     (Client_messenger Cm_iopub_controller, Connect (get_controller_end_point ''iopub'')),
     (Client_messenger Cm_heartbeat_controller, Connect (get_controller_end_point ''heartbeat''))]"
  using assms by (auto simp: client_wiring_def client_connect_def seq_Inr_iff part_Inr client_parts_ends)

section \<open>Every connection has its counterpart\<close>

text \<open>
  A process is well wired when each of its connections to an internal end point meets exactly
  one bound socket, of a compatible type.
\<close>

definition internal_end_point :: "string \<Rightarrow> bool" where
  "internal_end_point e \<longleftrightarrow> e = get_publisher_end_point \<or>
     e \<in> get_controller_end_point ` {''shell'', ''publisher'', ''heartbeat'', ''iopub''}"

definition binders :: "'s wiring \<Rightarrow> string \<Rightarrow> 's list" where
  "binders w e = map fst (filter (\<lambda>(s, c). c = Bind e) w)"

definition well_wired :: "('s \<Rightarrow> socket_type) \<Rightarrow> 's wiring \<Rightarrow> bool" where
  "well_wired ty w \<longleftrightarrow> (\<forall>s e. (s, Connect e) \<in> set w \<longrightarrow> internal_end_point e \<longrightarrow>
     (\<exists>t. binders w e = [t] \<and> compatible (ty s) (ty t)))"

lemma binders_ends: "binders w e = binders (ends w) e"
  by (induction w) (auto simp: binders_def ends_def elim: is_end.elims)

lemma internal_simps [simp]:
  "internal_end_point get_publisher_end_point" "internal_end_point (get_controller_end_point ''shell'')"
  "internal_end_point (get_controller_end_point ''publisher'')"
  "internal_end_point (get_controller_end_point ''heartbeat'')" "internal_end_point (get_controller_end_point ''iopub'')"
  by (simp_all add: internal_end_point_def)

lemma get_end_point_external [simp]: "\<not> internal_end_point (get_end_point transport ip port)"
proof (cases "transport = ''tcp''")
  case True
  then show ?thesis
    by (auto simp: internal_end_point_def get_end_point_def get_publisher_end_point_def get_controller_end_point_def)
next
  case False
  then have "CHR ''-'' \<in> set (get_end_point transport ip port)" by (simp add: get_end_point_def)
  moreover have "internal_end_point e \<Longrightarrow> CHR ''-'' \<notin> set e" for e
    by (auto simp: internal_end_point_def get_publisher_end_point_def get_controller_end_point_def)
  ultimately show ?thesis by blast
qed

lemma external_not_internal [simp]: "internal_end_point e \<Longrightarrow> get_end_point transport ip port \<noteq> e"
  using get_end_point_external by blast

lemma binders_simps [simp]:
  "binders [] e = []" "binders ((s, Bind e') # w) e = (if e' = e then s # binders w e else binders w e)"
  "binders ((s, Connect e') # w) e = binders w e" "binders (v @ w) e = binders v e @ binders w e"
  by (simp_all add: binders_def)

lemma binders_bound_port [simp]: "internal_end_point e \<Longrightarrow> binders (bound_port bind draw config s port) e = []"
  by (auto simp: bound_port_def binding_def split: option.split)

lemma internal_distinct [simp]:
  "get_controller_end_point c = get_controller_end_point c' \<longleftrightarrow> c = c'"
  "get_publisher_end_point \<noteq> get_controller_end_point c" "get_controller_end_point c \<noteq> get_publisher_end_point"
  by (auto simp: get_publisher_end_point_def get_controller_end_point_def)

lemma well_wiredI:
  assumes "\<And>s e. (s, Connect e) \<in> set (ends w) \<Longrightarrow> internal_end_point e \<Longrightarrow>
    \<exists>t. binders (ends w) e = [t] \<and> compatible (ty s) (ty t)"
  shows "well_wired ty w"
  unfolding well_wired_def binders_ends [of w] ends_mem(2) [of _ _ w] using assms by blast

lemma bound_port_no_connect [simp]: "(s, Connect e) \<notin> set (bound_port bind draw config t port)"
  by (auto simp: bound_port_def binding_def split: option.split)

lemma split_well_wired:
  assumes "split_wiring bind draw config [] = (Inr (), w)"
  shows "well_wired split_part_type w"
  by (rule well_wiredI) (auto simp: split_ends [OF assms] messenger_type_def)

lemma default_well_wired:
  assumes "default_wiring bind draw config [] = (Inr (), w)"
  shows "well_wired default_part_type w"
  by (rule well_wiredI) (auto simp: default_ends [OF assms])

lemma client_well_wired:
  assumes "seq (client_wiring bind config) (\<lambda>_. client_connect) [] = (Inr (), w)"
  shows "well_wired client_part_type w"
  by (rule well_wiredI) (auto simp: client_ends [OF assms] client_messenger_type_def)

text \<open>
  C21. Each process is wired up consistently: once a split server, a single-threaded server or a
  connected client has been constructed, whatever its configuration, every socket that connects
  to an internal end point meets exactly one bound socket there, and the ZeroMQ types of the
  two may be connected. So no thread is ever asked to stop over a connection that leads nowhere.
\<close>

theorem processes_well_wired:
  "(\<forall>w. split_wiring bind draw config [] = (Inr (), w) \<longrightarrow> well_wired split_part_type w) \<and>
   (\<forall>w. default_wiring bind draw' config [] = (Inr (), w) \<longrightarrow> well_wired default_part_type w) \<and>
   (\<forall>w. seq (client_wiring bind config) (\<lambda>_. client_connect) [] = (Inr (), w) \<longrightarrow> well_wired client_part_type w)"
  using split_well_wired default_well_wired client_well_wired by blast

section \<open>A registered kernel can be reached\<close>

lemma bound_to_simps [simp]:
  "bound_to [] s = []" "bound_to ((t, Bind e) # w) s = (if t = s then e # bound_to w s else bound_to w s)"
  "bound_to ((t, Connect e) # w) s = bound_to w s" "bound_to (v @ w) s = bound_to v s @ bound_to w s"
  by (simp_all add: bound_to_def)

lemma bound_to_ends: "bound_to w s = bound_to (ends w) s"
proof (induction w)
  case (Cons x w)
  then show ?case by (cases x rule: is_end.cases) (auto simp: bound_to_def ends_def)
qed simp

lemma bound_to_bound_port [simp]:
  "bound_to (bound_port bind draw config t port) s =
     (if t = s then (case chosen_port bind draw (m_transport config) (m_ip config) port of
        Some p \<Rightarrow> [get_end_point (m_transport config) (m_ip config) p] | None \<Rightarrow> []) else [])"
  by (simp add: bound_port_def binding_def split: option.split)

lemma int_to_string_no_colon: "CHR '':'' \<notin> set (int_to_string n)"
  using not_digit_in_to_string [of "CHR '':''"] by (auto simp: int_to_string_def is_digit_def)

lemma chosen_port_no_colon:
  "CHR '':'' \<notin> set port \<Longrightarrow> chosen_port bind draw transport ip port = Some p \<Longrightarrow> CHR '':'' \<notin> set p"
  by (auto simp: chosen_port_def int_to_string_no_colon split: if_splits)

lemma tcp_port_read:
  assumes "get_socket_port (query_end_point w s) = Inr q" "last_end_point w s = get_end_point ''tcp'' ip p"
    "CHR '':'' \<notin> set p"
  shows "q = p"
proof -
  have ep: "get_end_point ''tcp'' ip p = (''tcp://'' @ ip) @ CHR '':'' # p" by (simp add: get_end_point_def)
  have "length ((''tcp://'' @ ip) @ CHR '':'' # p) < 32"
    using assms(1) by (auto simp: get_socket_port_def query_end_point_def assms(2) ep Let_def split: if_splits)
  from port_after_last_colon [OF _ assms(3) this, of "query_end_point w s"] query_reports [of w s]
  show ?thesis using assms(1,2) by (simp add: ep)
qed

lemma zoom_Inr: "zoom get put p st = (Inr x, st') \<longleftrightarrow> (\<exists>s. p (get st) = (Inr x, s) \<and> st' = put s st)"
  by (auto simp: zoom_def split: prod.splits)

lemma construct_server_registers:
  assumes "make_xauthentication M hex_string (m_signature_scheme config) (c_key config) = Inr auth"
    "parts [] = (Inr (), w)" "update w config = Inr config'"
    "send_connection_info J regis config' auth eh replies fresh_handshake = (Inr (), h)"
  shows "construct_server J M hex_string parts update (Registration_config regis) config eh replies new_construction
    = (Inr auth, \<lparr>cn_wiring = w, cn_handshake = h\<rparr>)"
  using assms by (simp add: construct_server_def seq_def on_cn_wiring_def on_handshake_def zoom_def prog_simps new_construction_def)

text \<open>The sockets a client can reach, with the ports they are configured with, and who reaches them.\<close>

definition external_ports :: "xkernel_configuration \<Rightarrow> (split_part \<times> string) list" where
  "external_ports config = [(Split_control Ct_control, m_control_port config),
     (Split_shell Sh_shell, m_shell_port config), (Split_shell Sh_stdin, m_stdin_port config),
     (Split_publisher Pub_publisher, m_iopub_port config), (Split_heartbeat Hb_heartbeat, m_hb_port config)]"

definition channel_peers :: "(client_part \<times> split_part) list" where
  "channel_peers = [(Client_channel Cl_shell, Split_shell Sh_shell), (Client_channel Cl_control, Split_control Ct_control),
     (Client_iopub Io_iopub, Split_publisher Pub_publisher), (Client_heartbeat Hc_heartbeat, Split_heartbeat Hb_heartbeat)]"

lemma split_update_ports:
  assumes "split_update w config = Inr config'"
  shows "(s, q) \<in> set (external_ports config') \<Longrightarrow> get_socket_port (query_end_point w s) = Inr q"
    and "m_transport config' = m_transport config \<and> m_ip config' = m_ip config"
  using assms by (auto simp: split_update_def split_update_config_def rbind_Inr_iff external_ports_def)

lemma external_socket_bound:
  assumes "split_wiring bind draw config [] = (Inr (), w)" "(s, port) \<in> set (external_ports config)"
    "chosen_port bind (draw s) (m_transport config) (m_ip config) port = Some p"
  shows "last_end_point w s = get_end_point (m_transport config) (m_ip config) p"
    and "(s, Bind (get_end_point (m_transport config) (m_ip config) p)) \<in> set w"
proof -
  note E = split_ends [OF assms(1)]
  have "bound_to (ends w) s = [get_end_point (m_transport config) (m_ip config) p]"
    using assms(2,3) by (auto simp: E external_ports_def)
  then show "last_end_point w s = get_end_point (m_transport config) (m_ip config) p"
    by (simp add: last_end_point_def bound_to_ends [of w])
  show "(s, Bind (get_end_point (m_transport config) (m_ip config) p)) \<in> set w"
    unfolding ends_mem(1) [of _ _ w] E using assms(2,3) by (auto simp: external_ports_def bound_port_def binding_def)
qed

lemma external_ports_same: "(s, q) \<in> set (external_ports config') \<Longrightarrow> \<exists>port. (s, port) \<in> set (external_ports config)"
  by (auto simp: external_ports_def)

lemma reported_port_bound:
  assumes "split_wiring bind draw config [] = (Inr (), w)" "split_update w config = Inr config'"
    "m_transport config = ''tcp''" "(s, q) \<in> set (external_ports config')"
    "\<forall>(s, port) \<in> set (external_ports config). CHR '':'' \<notin> set port \<and> chosen_port bind (draw s) ''tcp'' (m_ip config) port \<noteq> None"
  shows "(s, Bind (get_end_point ''tcp'' (m_ip config) q)) \<in> set w"
proof -
  obtain port where port: "(s, port) \<in> set (external_ports config)" using external_ports_same [OF assms(4)] by blast
  then obtain p where p: "chosen_port bind (draw s) ''tcp'' (m_ip config) port = Some p" "CHR '':'' \<notin> set port"
    using assms(5) by fastforce
  have "q = p"
    using tcp_port_read [OF split_update_ports(1) [OF assms(2,4)], of "m_ip config" p] chosen_port_no_colon [OF p(2,1)]
      external_socket_bound(1) [OF assms(1) port, of p] p(1) by (simp add: assms(3))
  with external_socket_bound(2) [OF assms(1) port, of p] p(1) show ?thesis by (simp add: assms(3))
qed

text \<open>The client connects each of its channels to the end point the kernel's socket is bound to.\<close>

definition reaches :: "client_part wiring \<Rightarrow> split_part wiring \<Rightarrow> client_part \<Rightarrow> split_part \<Rightarrow> bool" where
  "reaches w v s t \<longleftrightarrow> (\<exists>e. (s, Connect e) \<in> set w \<and> (t, Bind e) \<in> set v \<and> compatible (client_part_type s) (split_part_type t))"

lemma reported_ports_reached:
  assumes "split_wiring bind draw config [] = (Inr (), v)" "split_update v config = Inr ports"
    "m_transport config = ''tcp''"
    "\<forall>(s, port) \<in> set (external_ports config). CHR '':'' \<notin> set port \<and> chosen_port bind (draw s) ''tcp'' (m_ip config) port \<noteq> None"
    "m_transport initial = ''tcp''" "m_ip initial = m_ip config"
    "client_wiring bind' (reported_configuration initial key ports) [] = (Inr (), w)" "(s, t) \<in> set channel_peers"
  shows "reaches w v s t"
proof -
  note bound = reported_port_bound [OF assms(1-3) _ assms(4)]
  have "seq (client_wiring bind' (reported_configuration initial key ports)) (\<lambda>_. ret ()) [] = (Inr (), w)"
    using assms(7) by (simp add: seq_def ret_def)
  then have E: "ends w =
    [(Client_channel Cl_shell, Connect (get_end_point ''tcp'' (m_ip config) (m_shell_port ports))),
     (Client_channel Cl_control, Connect (get_end_point ''tcp'' (m_ip config) (m_control_port ports))),
     (Client_iopub Io_iopub, Connect (get_end_point ''tcp'' (m_ip config) (m_iopub_port ports))),
     (Client_iopub Io_controller, Bind (get_controller_end_point ''iopub'')),
     (Client_heartbeat Hc_heartbeat, Connect (get_end_point ''tcp'' (m_ip config) (m_hb_port ports))),
     (Client_heartbeat Hc_controller, Bind (get_controller_end_point ''heartbeat''))]"
    by (auto simp: client_wiring_def seq_Inr_iff part_Inr client_parts_ends reported_configuration_def assms(5,6) prog_simps)
  show ?thesis
    unfolding reaches_def ends_mem(2) [of _ _ w] E using assms(8) bound
    by (auto simp: channel_peers_def external_ports_def dealer_type_def)
qed

text \<open>The client's registration socket is bound to the port it reports.\<close>

lemma registration_port_bound:
  assumes "xhandshake_client_zmq_impl_new M hex_string bind draw regis fresh_handshake = (Inr hc, st)"
    "get_registration_port st = Inr q" "r_transport regis = ''tcp''"
    "CHR '':'' \<notin> set (m_registration_port regis)"
    "chosen_port bind draw ''tcp'' (m_registration_ip regis) (m_registration_port regis) = Some p"
  shows "(Hs_socket, Bind (get_end_point ''tcp'' (m_registration_ip regis) q)) \<in> set (hs_wiring st)"
    and "inbox (hs_net st) Hs_socket = []" "outbox (hs_net st) = []" "hx_key hc = r_key regis"
proof -
  let ?e = "get_end_point ''tcp'' (m_registration_ip regis) p"
  have w: "hs_wiring st = [(Hs_socket, Set_option (Linger get_socket_linger)), (Hs_socket, Bind ?e)]"
    and st: "inbox (hs_net st) Hs_socket = []" "outbox (hs_net st) = []" "hx_key hc = r_key regis"
    using assms(1,3,5) by (auto simp: xhandshake_client_zmq_impl_new_def seq_Inr_iff on_hs_wiring_def zoom_Inr
        init_socket_Inr fresh_handshake_def empty_net_def binding_def prog_simps)
  have "q = p"
    using tcp_port_read [of "hs_wiring st" Hs_socket q "m_registration_ip regis" p] assms(2)
      chosen_port_no_colon [OF assms(4,5)] by (simp add: get_registration_port_def last_end_point_def bound_to_def w)
  with w show "(Hs_socket, Bind (get_end_point ''tcp'' (m_registration_ip regis) q)) \<in> set (hs_wiring st)" by simp
  show "inbox (hs_net st) Hs_socket = []" "outbox (hs_net st) = []" "hx_key hc = r_key regis" using st by auto
qed

text \<open>The constructor of the servers themselves: the configuration of the kernel from the one given.\<close>

definition xserver_zmq_split_new where
  "xserver_zmq_split_new J M hex_string bind draw initial config eh =
     construct_split_server J M hex_string bind draw config (get_kernel_configuration initial config) eh"

definition xserver_zmq_new where
  "xserver_zmq_new J M hex_string bind draw initial config eh =
     construct_default_server J M hex_string bind draw config (get_kernel_configuration initial config) eh"


fun sample_draw :: "split_part \<Rightarrow> nat \<Rightarrow> int" where
  "sample_draw (Split_control s) i = 50001"
| "sample_draw (Split_shell Sh_shell) i = 50002"
| "sample_draw (Split_shell s) i = 50003"
| "sample_draw (Split_publisher s) i = 50004"
| "sample_draw s i = 50005"

definition sample_config :: xkernel_configuration where
  "sample_config = get_kernel_configuration blank_configuration (Registration_config sample_registration)"

lemma sample_config_selects [simp]:
  "m_transport sample_config = ''tcp''" "m_ip sample_config = ''127.0.0.1''" "m_curve_public_key sample_config = []"
  "m_control_port sample_config = []" "m_shell_port sample_config = []" "m_stdin_port sample_config = []"
  "m_iopub_port sample_config = []" "m_hb_port sample_config = []"
  "m_signature_scheme sample_config = ''hmac-sha256''" "c_key sample_config = ''k''"
  by (simp_all add: sample_config_def blank_configuration_def sample_registration_def)

lemma first_free_all: "0 < n \<Longrightarrow> first_free (\<lambda>e. None) draw transport ip n = Some 0"
  by (simp add: first_free_def upt_conv_Cons)

lemma sample_draws: "int_to_string 50001 = ''50001''" "int_to_string 50002 = ''50002''" "int_to_string 50003 = ''50003''"
  "int_to_string 50004 = ''50004''" "int_to_string 50005 = ''50005''"
  by (simp_all add: int_to_string_def to_string.simps [of n for n])

lemma sample_chosen:
  "chosen_port (\<lambda>e. None) draw transport ip [] = Some (int_to_string (draw 0))"
  by (simp add: chosen_port_def first_free_all)

lemma sample_split_wiring: "\<exists>w. split_wiring (\<lambda>e. None) sample_draw sample_config [] = (Inr (), w)"
  by (simp add: split_wiring_def part_def xcontrol_new_def xheartbeat_new_def xpublisher_new_def xshell_new_def
      messenger_connect_def seq_def prog_simps init_socket_def init_socket_at_def sock_set_def sock_connect_def
      sock_bind_def sock_call_def find_free_port_impl_eq first_free_all)

lemma sample_ports_read:
  assumes "split_wiring (\<lambda>e. None) sample_draw sample_config [] = (Inr (), w)"
  obtains ports where "split_update w sample_config = Inr ports"
    "connection_info info_json sample_registration ports = connection_info info_json sample_registration sample_ports"
proof -
  have read: "get_socket_port (query_end_point w s) = Inr (int_to_string (sample_draw s 0))"
    if "(s, port) \<in> set (external_ports sample_config)" for s port
  proof -
    have p: "int_to_string (sample_draw s 0) \<in> {''50001'', ''50002'', ''50003'', ''50004'', ''50005''}" "port = []"
      using that by (auto simp: external_ports_def sample_draws)
    have "last_end_point w s = get_end_point ''tcp'' ''127.0.0.1'' (int_to_string (sample_draw s 0))"
      using external_socket_bound(1) [OF assms that] p(2) by (simp add: sample_chosen)
    then have "reports_end_point (query_end_point w s)
        (''tcp://127.0.0.1'' @ CHR '':'' # int_to_string (sample_draw s 0))"
      using query_reports [of w s] by (simp add: get_end_point_def)
    from port_after_last_colon [OF this] p(1) show ?thesis by auto
  qed
  show thesis
    by (rule that [of "sample_config\<lparr>m_control_port := ''50001'', m_shell_port := ''50002'',
          m_stdin_port := ''50003'', m_iopub_port := ''50004'', m_hb_port := ''50005''\<rparr>"])
      (use read in \<open>simp_all add: split_update_def split_update_config_def external_ports_def sample_draws
         connection_info_def sample_ports_def\<close>)
qed

definition unregistered :: xregistration_configuration where
  "unregistered = sample_registration\<lparr>m_registration_port := []\<rparr>"

lemma sample_registration_client:
  obtains hc st where "xhandshake_client_zmq_impl_new echo_mac id (\<lambda>e. None) (\<lambda>i. 4000) unregistered fresh_handshake = (Inr hc, st)"
    "get_registration_port st = Inr ''4000''"
proof -
  let ?w = "[(Hs_socket, Set_option (Linger get_socket_linger)), (Hs_socket, Bind (get_end_point ''tcp'' ''127.0.0.1'' ''4000''))]"
  have drawn: "int_to_string 4000 = ''4000''" by (simp add: int_to_string_def to_string.simps [of n for n])
  have new: "xhandshake_client_zmq_impl_new echo_mac id (\<lambda>e. None) (\<lambda>i. 4000) unregistered fresh_handshake
      = (Inr \<lparr>hx_key = ''k'', hx_auth = sample_auth\<rparr>, fresh_handshake\<lparr>hs_wiring := ?w\<rparr>)"
    using make_sample_auth by (simp add: xhandshake_client_zmq_impl_new_def unregistered_def sample_registration_def handshake_eval fresh_handshake_def
        init_socket_def sock_set_def sock_call_def sock_bind_def find_free_port_impl_eq first_free_all port_end_point_def drawn)
  have "reports_end_point (query_end_point ?w Hs_socket) (''tcp://127.0.0.1'' @ CHR '':'' # ''4000'')"
    using query_reports [of ?w Hs_socket] by (simp add: last_end_point_def bound_to_def get_end_point_def)
  from port_after_last_colon [OF this]
  have "get_registration_port (fresh_handshake\<lparr>hs_wiring := ?w\<rparr>) = Inr ''4000''" by (simp add: get_registration_port_def)
  with new show thesis by (rule that)
qed


theorem processes_well_wired_witness:
  "\<exists>w. split_wiring (\<lambda>e. None) sample_draw sample_config [] = (Inr (), w) \<and> well_wired split_part_type w"
  using sample_split_wiring processes_well_wired [of "\<lambda>e. None" sample_draw sample_config] by blast

end
