(* ===== verification/Client_System.thy ===== *)
theory Client_System
  imports Client Messengers Fair_Runs
begin

text \<open>
  The threads of a client together: the thread of the program, which stops the channels, the thread that
  collects published messages and the heartbeat thread, taking turns in any order. The turns
  are those of \<open>Client\<close>; messages of the kernel arrive as they like.
\<close>

section \<open>The controlled threads keep their contract\<close>

lemma iopub_turn_result:
  assumes "iopub_turn J auth (Poll_arrivals batch) st = (Inr status, st')" and n: "n = arrive batch (io_net st)"
  obtains
    (goes_on) "status = Running" "inbox (io_net st') = (inbox n)(Io_iopub := tl (inbox n Io_iopub))"
      "outbox (io_net st') = outbox n" "inbox n Io_controller \<noteq> [] \<Longrightarrow> inbox n Io_iopub \<noteq> []"
  | (stops) m ms where "status = Stopped" "inbox n Io_controller = m # ms" "inbox (io_net st') Io_controller = ms"
      "outbox (io_net st') = outbox n @ sends Io_controller m"
proof (cases "inbox n Io_iopub")
  case Nil
  then have "inbox n = (inbox n)(Io_iopub := tl (inbox n Io_iopub))" by auto
  with Nil assms(1) show thesis
    by (cases "inbox n Io_controller")
      (auto intro: goes_on stops simp: iopub_turn_eq [OF n] readable_def seq_def on_io_eval net_recv_def
        net_send_sends try_catch_def prog_simps)
next
  case (Cons w ws)
  with assms(1) show thesis
    by (cases "inbox n Io_controller"; cases "deserialize_iopub J w auth")
      (auto intro: goes_on stops simp: iopub_turn_eq [OF n] readable_def seq_def on_io_eval net_recv_def
        net_send_sends try_catch_def prog_simps split: fault.splits)
qed

lemma iopub_turn_serves:
  assumes "iopub_turn J auth (Poll_arrivals batch) st = (Inr status, st')"
  shows "thread_serves (\<lambda>m. True) Io_controller (on_socket Io_controller batch) (io_net st) status (io_net st')"
  using assms
  by (cases rule: iopub_turn_result [OF assms refl])
    (auto simp: thread_serves_def serves_request_def sends_def)

interpretation io_thread: controlled_thread "\<lambda>batch. iopub_turn J auth (Poll_arrivals batch)" True Io_controller io_net
    "\<lambda>m. True" "\<lambda>st. \<forall>m \<in> set (inbox (io_net st) Io_iopub). iopub_readable J auth m"
    "\<lambda>n. length (inbox n Io_iopub)" for J auth
proof
  fix st :: "'a iopub_client"
  assume "\<forall>m \<in> set (inbox (io_net st) Io_iopub). iopub_readable J auth m"
  with iopub_turn_ok [of "[]" st J auth] show "\<exists>status st'. iopub_turn J auth (Poll_arrivals []) st = (Inr status, st') \<and>
      (status = Running \<longrightarrow> (\<forall>m \<in> set (inbox (io_net st') Io_iopub). iopub_readable J auth m))" by auto
next
  fix status and st st' :: "'a iopub_client"
  assume "iopub_turn J auth (Poll_arrivals []) st = (Inr status, st')" and waits: "inbox (io_net st) Io_controller \<noteq> []"
    "inbox (io_net st') Io_controller = inbox (io_net st) Io_controller"
  then show "length (inbox (io_net st') Io_iopub) < length (inbox (io_net st) Io_iopub)"
    by (cases rule: iopub_turn_result [OF _ refl]) auto
qed (use iopub_turn_serves in auto)

text \<open>A turn of the heartbeat thread: it fails at once while an answer is awaited; otherwise it asks and looks.\<close>

lemma heartbeat_turn_awaiting:
  "hb_awaiting st \<Longrightarrow> heartbeat_client_turn limit poll st = (Inl (Throws (Zmq_error EFSM)), st)"
  by (simp add: heartbeat_client_turn_def send_heartbeat_message_def seq_def prog_simps)

lemma heartbeat_client_turn_asks:
  assumes "\<not> hb_awaiting st" "\<not> hc_request_stop st" and n: "n = arrive batch (hc_net st)"
  shows "\<exists>st'. heartbeat_client_turn limit (Poll_arrivals batch) st =
      (Inr (if inbox n Hc_controller = [] then Running else Stopped), st') \<and>
    hb_awaiting st' = (inbox n Hc_heartbeat = []) \<and> hc_request_stop st' = (inbox n Hc_controller \<noteq> []) \<and>
    inbox (hc_net st') Hc_controller = tl (inbox n Hc_controller) \<and>
    on_socket Hc_controller (outbox (hc_net st')) = on_socket Hc_controller (outbox n) @
      (case inbox n Hc_controller of [] \<Rightarrow> [] | m # ms \<Rightarrow> on_socket Hc_controller (sends Hc_controller m))"
  using assms
  by (cases "inbox n Hc_heartbeat"; cases "inbox n Hc_controller")
    (auto simp: heartbeat_client_turn_def send_heartbeat_message_def seq_def on_hc_eval net_send_def prog_simps
      wait_for_answer_arrivals Let_def)

lemma heartbeat_client_turn_serves:
  assumes "heartbeat_client_turn limit (Poll_arrivals batch) st = (Inr status, st')" "\<not> hc_request_stop st"
  shows "thread_serves (\<lambda>m. True) Hc_controller (on_socket Hc_controller batch) (hc_net st) status (hc_net st')"
proof (cases "hb_awaiting st")
  case False
  from heartbeat_client_turn_asks [OF False assms(2) refl, of limit batch] assms(1) show ?thesis
    by (cases "inbox (hc_net st) Hc_controller @ on_socket Hc_controller batch")
      (auto simp: thread_serves_def serves_request_def sends_def)
qed (use assms in \<open>simp add: heartbeat_turn_awaiting\<close>)

section \<open>The system\<close>

fun client_messenger_channel :: "nat \<Rightarrow> client_messenger_socket" where
  "client_messenger_channel 0 = Cm_iopub_controller"
| "client_messenger_channel (Suc n) = Cm_heartbeat_controller"

text \<open>An exception that leaves the function of a thread terminates the whole program.\<close>

record 'j client_system =
  cy_iopub :: "'j iopub_client"
  cy_heartbeat :: heartbeat_client
  cy_messenger :: "client_messenger_socket net"
  cy_running :: "nat \<Rightarrow> bool"
  cy_pc :: control_pc
  cy_delivered :: "nat \<Rightarrow> nat"
  cy_taken :: "nat \<Rightarrow> nat"
  cy_terminated :: bool

definition client_wires :: "'j client_system \<Rightarrow> wires" where
  "client_wires s = \<lparr>w_pc = cy_pc s,
     w_asked = (\<lambda>k. if k < 2 then on_socket (client_messenger_channel k) (outbox (cy_messenger s)) else []),
     w_delivered = cy_delivered s,
     w_inbox = (\<lambda>k. if k = 0 then inbox (io_net (cy_iopub s)) Io_controller
       else if k = 1 then inbox (hc_net (cy_heartbeat s)) Hc_controller else []),
     w_answered = (\<lambda>k. if k = 0 then on_socket Io_controller (outbox (io_net (cy_iopub s)))
       else if k = 1 then on_socket Hc_controller (outbox (hc_net (cy_heartbeat s))) else []),
     w_taken = cy_taken s, w_running = cy_running s\<rparr>"

definition client_hand_request :: "nat \<Rightarrow> multipart \<Rightarrow> 'j client_system \<Rightarrow> 'j client_system" where
  "client_hand_request k m s =
     (if k = 0 then s\<lparr>cy_iopub := (cy_iopub s)\<lparr>io_net := arrive [(Io_controller, m)] (io_net (cy_iopub s))\<rparr>\<rparr>
      else s\<lparr>cy_heartbeat := (cy_heartbeat s)\<lparr>hc_net := arrive [(Hc_controller, m)] (hc_net (cy_heartbeat s))\<rparr>\<rparr>)"

text \<open>
  The steps: a turn of either thread, an exception that leaves the heartbeat thread, the network handing
  over a request, and the thread of the program: it takes a published message from the
  queue, or it stops the channels, by the exchanges of \<open>client_messenger_stop_channels\<close> one by one. Each step names
  the actor that takes it.
\<close>

inductive client_act :: "'j json_api \<Rightarrow> xauthentication \<Rightarrow> actor \<Rightarrow> 'j client_system \<Rightarrow> 'j client_system \<Rightarrow> bool"
  for J auth where
  iopub: "\<not> cy_terminated s \<Longrightarrow> cy_running s 0 \<Longrightarrow> on_socket Io_controller batch = [] \<Longrightarrow>
     iopub_turn J auth (Poll_arrivals batch) (cy_iopub s) = (Inr status, st) \<Longrightarrow>
     client_act J auth (Channel 0) s (s\<lparr>cy_iopub := st, cy_running := (cy_running s)(0 := (status = Running))\<rparr>)"
| heartbeat: "\<not> cy_terminated s \<Longrightarrow> cy_running s 1 \<Longrightarrow> on_socket Hc_controller batch = [] \<Longrightarrow>
     heartbeat_client_turn max_retry (Poll_arrivals batch) (cy_heartbeat s) = (Inr status, hc) \<Longrightarrow>
     client_act J auth (Channel 1) s (s\<lparr>cy_heartbeat := hc, cy_running := (cy_running s)(1 := (status = Running))\<rparr>)"
| escape: "\<not> cy_terminated s \<Longrightarrow> cy_running s 1 \<Longrightarrow> on_socket Hc_controller batch = [] \<Longrightarrow>
     heartbeat_client_turn max_retry (Poll_arrivals batch) (cy_heartbeat s) = (Inl (Throws e), hc) \<Longrightarrow>
     client_act J auth (Channel 1) s (s\<lparr>cy_terminated := True\<rparr>)"
| deliver: "\<not> cy_terminated s \<Longrightarrow> k < 2 \<Longrightarrow> requests_under_way (client_wires s) k = m # rest \<Longrightarrow>
     client_act J auth (Network k) s ((client_hand_request k m s)\<lparr>cy_delivered := (cy_delivered s)(k := Suc (cy_delivered s k))\<rparr>)"
| pop: "\<not> cy_terminated s \<Longrightarrow> pop_iopub_message (cy_iopub s) = (Inr popped, st) \<Longrightarrow> client_act J auth Caller s (s\<lparr>cy_iopub := st\<rparr>)"
| quit: "\<not> cy_terminated s \<Longrightarrow> cy_pc s = Serving \<Longrightarrow> client_act J auth Controller s (s\<lparr>cy_pc := Ask 0\<rparr>)"
| ask: "\<not> cy_terminated s \<Longrightarrow> cy_pc s = Ask k \<Longrightarrow>
     net_send (client_messenger_channel k) [stop_frame echo_order k] (cy_messenger s) = (Inr (), n) \<Longrightarrow>
     client_act J auth Controller s (s\<lparr>cy_messenger := n, cy_pc := Await k\<rparr>)"
| advance: "\<not> cy_terminated s \<Longrightarrow> cy_pc s = Await k \<Longrightarrow> replies_under_way (client_wires s) k = m # rest \<Longrightarrow>
     seq (modify (arrive [(client_messenger_channel k, m)])) (\<lambda>_. net_recv_frame (client_messenger_channel k)) (cy_messenger s)
       = (Inr response, n) \<Longrightarrow>
     client_act J auth Controller s (s\<lparr>cy_messenger := n, cy_pc := after_reply echo_order k,
       cy_taken := (cy_taken s)(k := Suc (cy_taken s k))\<rparr>)"

definition client_step :: "'j json_api \<Rightarrow> xauthentication \<Rightarrow> 'j client_system \<Rightarrow> 'j client_system \<Rightarrow> bool" where
  "client_step J auth s s' \<longleftrightarrow> (\<exists>a. client_act J auth a s s')"

lemma client_stepI: "client_act J auth a s s' \<Longrightarrow> client_step J auth s s'"
  by (auto simp: client_step_def)

lemmas client_step_iopub = client_act.iopub [THEN client_stepI]
lemmas client_step_heartbeat = client_act.heartbeat [THEN client_stepI]
lemmas client_step_escape = client_act.escape [THEN client_stepI]
lemmas client_step_deliver = client_act.deliver [THEN client_stepI]
lemmas client_step_pop = client_act.pop [THEN client_stepI]
lemmas client_step_quit = client_act.quit [THEN client_stepI]
lemmas client_step_ask = client_act.ask [THEN client_stepI]
lemmas client_step_advance = client_act.advance [THEN client_stepI]

definition initial_client :: "'j client_system" where
  "initial_client = \<lparr>cy_iopub = \<lparr>io_net = empty_net, m_message_queue = []\<rparr>,
     cy_heartbeat = \<lparr>hc_net = empty_net, hb_awaiting = False, hc_request_stop = False, retry_count = 0, status_listener = False,
       kernel_status = []\<rparr>,
     cy_messenger = empty_net, cy_running = (\<lambda>k. True), cy_pc = Serving, cy_delivered = (\<lambda>k. 0), cy_taken = (\<lambda>k. 0),
     cy_terminated = False\<rparr>"

definition reachable_client :: "'j json_api \<Rightarrow> xauthentication \<Rightarrow> 'j client_system \<Rightarrow> bool" where
  "reachable_client J auth = (client_step J auth)\<^sup>*\<^sup>* initial_client"

section \<open>Steps of the threads are steps of the network\<close>

lemma client_wires_simps [simp]:
  "w_pc (client_wires s) = cy_pc s" "w_delivered (client_wires s) = cy_delivered s" "w_taken (client_wires s) = cy_taken s"
  "w_running (client_wires s) = cy_running s" "w_inbox (client_wires s) 0 = inbox (io_net (cy_iopub s)) Io_controller"
  "w_inbox (client_wires s) (Suc 0) = inbox (hc_net (cy_heartbeat s)) Hc_controller"
  "w_answered (client_wires s) 0 = on_socket Io_controller (outbox (io_net (cy_iopub s)))"
  "w_answered (client_wires s) (Suc 0) = on_socket Hc_controller (outbox (hc_net (cy_heartbeat s)))"
  by (simp_all add: client_wires_def)

text \<open>The heartbeat thread runs until it is asked to stop.\<close>

definition client_idle :: "'j client_system \<Rightarrow> bool" where
  "client_idle s \<longleftrightarrow> (\<forall>c. inbox (cy_messenger s) c = []) \<and> (cy_running s 1 \<longrightarrow> \<not> hc_request_stop (cy_heartbeat s))"

lemma client_messenger_send:
  "net_send c [w] n = (Inr (), n\<lparr>outbox := outbox n @ [(c, [w])]\<rparr>)"
  by (simp add: net_send_def)

lemma client_messenger_reply:
  assumes "\<And>c. inbox n c = []"
  shows "seq (modify (arrive [(c, [f])])) (\<lambda>_. net_recv_frame c) n = (Inr f, n\<lparr>received := received n @ [(c, [f])]\<rparr>)"
proof -
  have "(\<lambda>s. inbox n s @ on_socket s [(c, [f])])(c := []) = inbox n" using assms by (auto simp: fun_eq_iff)
  then show ?thesis using assms by (simp add: seq_def modify_def net_recv_frame_def arrive_def fun_upd_def)
qed

lemma client_put_wires:
  assumes "k < 2"
  shows "client_wires (s\<lparr>cy_messenger := (cy_messenger s)\<lparr>outbox := outbox (cy_messenger s) @ [(client_messenger_channel k, [w])]\<rparr>,
      cy_pc := pc\<rparr>) = put_request k w pc (client_wires s)"
  using assms by (auto simp: client_wires_def put_request_def fun_eq_iff below_2)

lemma client_take_wires:
  "client_wires (s\<lparr>cy_messenger := (cy_messenger s)\<lparr>received := r\<rparr>, cy_pc := pc,
     cy_taken := (cy_taken s)(k := Suc (cy_taken s k))\<rparr>) = take_reply k pc (client_wires s)"
  by (auto simp: client_wires_def take_reply_def fun_eq_iff)

lemma client_hand_wires:
  assumes "k < 2"
  shows "client_wires ((client_hand_request k m s)\<lparr>cy_delivered := (cy_delivered s)(k := Suc (cy_delivered s k))\<rparr>)
    = hand_over k m (client_wires s)"
  using assms by (auto simp: client_wires_def client_hand_request_def hand_over_def below_2 fun_eq_iff)

lemma client_step_wires:
  assumes step: "client_step J auth s s'" and idle: "client_idle s" and inv: "wires_inv echo_order (client_wires s)"
  shows "(client_wires s' = client_wires s \<or> wires_step echo_order (client_wires s) (client_wires s')) \<and> client_idle s'"
proof -
  have empty: "\<And>c. inbox (cy_messenger s) c = []" and live: "cy_running s 1 \<Longrightarrow> \<not> hc_request_stop (cy_heartbeat s)"
    using idle by (simp_all add: client_idle_def)
  note single = reply_single [OF inv echo_stop_order_ok]
  from step obtain a where "client_act J auth a s s'" by (auto simp: client_step_def)
  then show ?thesis
  proof (cases rule: client_act.cases)
    case (iopub batch status st)
    have "client_wires s' = after_turn 0 (inbox (io_net st) Io_controller) (on_socket Io_controller (outbox (io_net st)))
        (status = Running) (client_wires s)"
      by (auto simp: iopub(2) client_wires_def after_turn_def fun_eq_iff)
    then show ?thesis
      using thread_turn_wires [of 0 echo_order "client_wires s" Io_controller "io_net (cy_iopub s)" status "io_net st"]
        io_thread.turn_serves [OF TrueI iopub(6)] iopub(2-5) idle by (simp add: client_idle_def)
  next
    case (heartbeat batch status hc)
    note live = live [OF heartbeat(4)]
    have "client_wires s' = after_turn 1 (inbox (hc_net hc) Hc_controller) (on_socket Hc_controller (outbox (hc_net hc)))
        (status = Running) (client_wires s)"
      by (auto simp: heartbeat(2) client_wires_def after_turn_def fun_eq_iff)
    moreover have "status = Running \<Longrightarrow> \<not> hc_request_stop hc"
      using heartbeat(6) heartbeat_client_turn_asks [OF _ live refl, of max_retry batch] heartbeat_turn_awaiting [of "cy_heartbeat s"]
      by (cases "hb_awaiting (cy_heartbeat s)") (auto split: if_splits)
    ultimately show ?thesis
      using thread_turn_wires [of 1 echo_order "client_wires s" Hc_controller "hc_net (cy_heartbeat s)" status "hc_net hc"]
        heartbeat_client_turn_serves [OF heartbeat(6) live] heartbeat(2-5) idle by (simp add: client_idle_def)
  next
    case (escape batch e hc)
    then show ?thesis using idle by (auto simp: client_wires_def client_idle_def fun_eq_iff)
  next
    case (deliver k m rest)
    have "client_wires s' = hand_over k m (client_wires s)" using client_hand_wires [OF deliver(4)] deliver(2) by simp
    moreover have "client_idle s'" using idle deliver(2) by (simp add: client_idle_def client_hand_request_def)
    ultimately show ?thesis using wires_step.deliver [of k echo_order "client_wires s" m rest] deliver(4,5) by simp
  next
    case (pop popped st)
    then show ?thesis using idle by (auto simp: client_wires_def client_idle_def fun_eq_iff pop_iopub_message_eq)
  next
    case quit
    have "client_wires s' = (client_wires s)\<lparr>w_pc := Ask 0\<rparr>" "client_idle s'"
      using quit(2) idle by (auto simp: client_wires_def client_idle_def fun_eq_iff)
    with wires_step.quit [of "client_wires s" echo_order] quit(4) show ?thesis by simp
  next
    case (ask k n)
    have k: "k < 2" using inv ask(4) by (simp add: wires_inv_def protocol_inv_def wires_protocol_def)
    have "client_wires s' = put_request k (stop_frame echo_order k) (Await k) (client_wires s)" "client_idle s'"
      using ask(2,5) idle by (auto simp: client_messenger_send client_put_wires [OF k] client_idle_def)
    then show ?thesis using wires_step.ask [of "client_wires s" k echo_order] ask(4) by simp
  next
    case (advance k m rest response n)
    obtain r where m: "m = [r]" using single [OF advance(5)] advance(4) by auto
    have "client_wires s' = take_reply k (after_reply echo_order k) (client_wires s)" "client_idle s'"
      using advance(2,6) idle client_messenger_reply [OF empty, of "client_messenger_channel k" r]
      by (auto simp: m client_take_wires client_idle_def)
    then show ?thesis using wires_step.advance [of "client_wires s" k m rest echo_order] advance(4,5) by simp
  qed
qed

section \<open>Stopping the client\<close>

text \<open>
  Stopping needs a collecting thread that can read what it has, and a heartbeat thread that is not
  waiting for an answer.
\<close>

definition client_fit :: "'j json_api \<Rightarrow> xauthentication \<Rightarrow> 'j client_system \<Rightarrow> bool" where
  "client_fit J auth s \<longleftrightarrow> \<not> cy_terminated s \<and>
     (cy_running s 0 \<longrightarrow> (\<forall>m \<in> set (inbox (io_net (cy_iopub s)) Io_iopub). iopub_readable J auth m)) \<and>
     (cy_running s 1 \<longrightarrow> \<not> hb_awaiting (cy_heartbeat s) \<and> \<not> hc_request_stop (cy_heartbeat s))"

lemma client_stop_served:
  assumes "client_fit J auth s" "k < 2" "cy_running s k" "w_inbox (client_wires s) k = [[stop_frame echo_order k]]"
  shows "\<exists>s'. (client_step J auth)\<^sup>*\<^sup>* s s' \<and> cy_pc s' = cy_pc s \<and> \<not> cy_running s' k \<and> client_fit J auth s'"
proof (cases "k = 0")
  case True
  define emb where "emb st r = s\<lparr>cy_iopub := st, cy_running := (cy_running s)(0 := r)\<rparr>" for st r
  have "emb (cy_iopub s) True = s" using assms(3) True by (simp add: emb_def fun_upd_idem)
  moreover have "client_step J auth (emb st True) (emb st' (status = Running))"
    if "iopub_turn J auth (Poll_arrivals []) st = (Inr status, st')" for st status st'
    using client_step_iopub [of "emb st True" "[]" J auth status st'] that assms(1) by (simp add: emb_def client_fit_def)
  note io_thread.eventually_served [where J = J and auth = auth and emb = emb and step = "client_step J auth" and st = "cy_iopub s"
      and w = "''stop''", OF TrueI this]
  ultimately obtain st where "(client_step J auth)\<^sup>*\<^sup>* s (emb st False)"
    using assms(1,3,4) True by (auto simp: client_fit_def)
  then show ?thesis using True assms(1) by (intro exI [of _ "emb st False"]) (simp add: emb_def client_fit_def)
next
  case False
  with assms(2) have k: "k = 1" by simp
  have ready: "\<not> hb_awaiting (cy_heartbeat s)" "\<not> hc_request_stop (cy_heartbeat s)"
    using assms(1,3) k by (simp_all add: client_fit_def)
  from heartbeat_client_turn_asks [OF this refl, of max_retry "[]"] assms(4) k obtain hc where
    "heartbeat_client_turn max_retry (Poll_arrivals []) (cy_heartbeat s) = (Inr Stopped, hc)" by auto
  from client_step_heartbeat [of s "[]" Stopped hc J auth, OF _ _ _ this] assms(1,3) k
  have "client_step J auth s (s\<lparr>cy_heartbeat := hc, cy_running := (cy_running s)(1 := False)\<rparr>)"
    by (simp add: client_fit_def)
  then show ?thesis
    using k assms(1) by (intro exI [of _ "s\<lparr>cy_heartbeat := hc, cy_running := (cy_running s)(1 := False)\<rparr>"])
      (auto simp: client_fit_def)
qed

lemma client_asks:
  assumes "client_fit J auth s" "cy_pc s = Ask k"
  shows "\<exists>s'. client_step J auth s s' \<and> cy_pc s' = Await k \<and> client_fit J auth s'"
  using client_step_ask [OF _ assms(2) client_messenger_send, of J auth] assms(1)
  by (intro exI conjI) (assumption | simp add: client_fit_def)+

lemma client_delivers:
  assumes "client_fit J auth s" "k < 2" "requests_under_way (client_wires s) k = [stop_frame echo_order k] # rest"
  shows "\<exists>s'. client_step J auth s s' \<and> client_wires s' = hand_over k [stop_frame echo_order k] (client_wires s) \<and>
    client_fit J auth s'"
proof -
  let ?s = "(client_hand_request k [stop_frame echo_order k] s)\<lparr>cy_delivered := (cy_delivered s)(k := Suc (cy_delivered s k))\<rparr>"
  have "client_step J auth s ?s" using assms by (intro client_step_deliver) (simp_all add: client_fit_def)
  moreover have "client_fit J auth ?s" using assms(1) by (auto simp: client_fit_def client_hand_request_def)
  ultimately show ?thesis using client_hand_wires [OF assms(2)] by blast
qed

lemma client_advances:
  assumes "client_fit J auth s" "client_idle s" "cy_pc s = Await k" "replies_under_way (client_wires s) k = [r] # rest"
  shows "\<exists>s'. client_step J auth s s' \<and> cy_pc s' = after_reply echo_order k \<and> client_fit J auth s'"
proof -
  have "\<And>c. inbox (cy_messenger s) c = []" using assms(2) by (simp add: client_idle_def)
  from client_step_advance [OF _ assms(3,4) client_messenger_reply [OF this], of J auth] assms(1) show ?thesis
    by (intro exI conjI) (assumption | simp add: client_fit_def)+
qed

interpretation cl: stopping_process "client_step J auth" initial_client client_wires echo_order True client_idle
    "client_fit J auth" for J auth
proof
  show "client_wires initial_client = initial_wires"
    by (auto simp: client_wires_def initial_client_def initial_wires_def empty_net_def)
  show "client_idle initial_client" by (simp add: client_idle_def initial_client_def empty_net_def)
qed (use client_step_wires client_asks client_delivers client_stop_served client_advances echo_stop_order_ok in \<open>simp_all\<close>)

text \<open>The exchanges of the system are those of the messenger's code.\<close>

lemma client_messenger_stops_by_exchanges:
  "client_messenger_stop_channels arriving =
     seq (stop_exchange (client_messenger_channel 0) (stop_frame echo_order 0) (arriving 0)) (\<lambda>_.
     seq (stop_exchange (client_messenger_channel 1) (stop_frame echo_order 1) (arriving 1)) (\<lambda>_. ret ()))"
  by (simp only: echo_order_simps, simp add: fun_eq_iff client_messenger_stop_channels_def stop_exchange_def seq_def
      prog_simps split: prod.split sum.split)


lemma client_quit_reachable:
  "reachable_client J auth (initial_client\<lparr>cy_pc := Ask 0\<rparr>)" "client_fit J auth (initial_client\<lparr>cy_pc := Ask 0\<rparr>)"
proof -
  have "client_step J auth initial_client (initial_client\<lparr>cy_pc := Ask 0\<rparr>)"
    by (rule client_step_quit) (simp_all add: initial_client_def)
  then show "reachable_client J auth (initial_client\<lparr>cy_pc := Ask 0\<rparr>)" by (simp add: reachable_client_def)
  show "client_fit J auth (initial_client\<lparr>cy_pc := Ask 0\<rparr>)"
    by (simp add: client_fit_def initial_client_def empty_net_def)
qed


text \<open>
  C37. The stop of a client can always be completed while the heartbeat thread is not waiting for an
  answer: from every reachable state in which the channels are being stopped, whatever published messages
  still wait, the threads can go on until \<^verbatim>\<open>stop_channels\<close> returns, and neither runs any more.
\<close>

theorem client_stop_completes:
  assumes "reachable_client J auth s" "cy_pc s = Ask k \<or> cy_pc s = Await k" "client_fit J auth s"
  shows "\<exists>s'. (client_step J auth)\<^sup>*\<^sup>* s s' \<and> cy_pc s' = Finished \<and> (\<forall>j < 2. \<not> cy_running s' j) \<and> \<not> cy_terminated s'"
proof -
  from cl.reachable_inv [OF assms(1) [unfolded reachable_client_def]]
  have "client_idle s" "wires_inv echo_order (client_wires s)" by simp_all
  from cl.stop_completes [OF TrueI this assms(3)] assms(2) show ?thesis by (auto simp: client_fit_def)
qed

theorem client_stop_completes_witness:
  "\<exists>s'. (client_step sample_json no_xauthentication)\<^sup>*\<^sup>* (initial_client\<lparr>cy_pc := Ask 0\<rparr>) s' \<and> cy_pc s' = Finished \<and>
    \<not> cy_terminated s'"
proof -
  have "cy_pc (initial_client\<lparr>cy_pc := Ask 0\<rparr> :: jv client_system) = Ask 0" by simp
  with client_stop_completes [OF client_quit_reachable(1) _ client_quit_reachable(2), of 0 sample_json no_xauthentication]
  show ?thesis by blast
qed

text \<open>
  C38. A heartbeat that is not answered within the timeout makes the client unstoppable: from a state in which
  the heartbeat thread goes on without having read its answer, even if the answer arrives later, every
  further turn of that thread raises EFSM, which leaves the thread and terminates the program, and in no
  continuation does \<^verbatim>\<open>stop_channels\<close> return.
\<close>

theorem unanswered_heartbeat_blocks_stop:
  assumes "reachable_client J auth s" "cy_running s 1" "hb_awaiting (cy_heartbeat s)" "(client_step J auth)\<^sup>*\<^sup>* s s'"
  shows "cy_pc s' \<noteq> Finished \<and>
    fst (heartbeat_client_turn max_retry poll (cy_heartbeat s')) = Inl (Throws (Zmq_error EFSM)) \<and>
    (\<not> cy_terminated s' \<longrightarrow> client_step J auth s' (s'\<lparr>cy_terminated := True\<rparr>))"
proof (intro conjI impI)
  from assms(4) have stuck: "cy_running s' 1 \<and> hb_awaiting (cy_heartbeat s')"
  proof (induction rule: rtranclp_induct)
    case (step s1 s2)
    then show ?case
      by (auto simp: client_step_def elim!: client_act.cases simp: heartbeat_turn_awaiting client_hand_request_def)
  qed (use assms(2,3) in simp)
  have "reachable_client J auth s'" using assms(1,4) by (simp add: reachable_client_def)
  from cl.reachable_inv [OF this [unfolded reachable_client_def]] stuck show "cy_pc s' \<noteq> Finished"
    using running_iff [of echo_order "client_wires s'" 1] by auto
  from stuck show "fst (heartbeat_client_turn max_retry poll (cy_heartbeat s')) = Inl (Throws (Zmq_error EFSM))"
    by (simp add: heartbeat_turn_awaiting)
  assume "\<not> cy_terminated s'"
  with stuck show "client_step J auth s' (s'\<lparr>cy_terminated := True\<rparr>)"
    using client_step_escape [of s' "[]" "Zmq_error EFSM" "cy_heartbeat s'" J auth] by (simp add: heartbeat_turn_awaiting)
qed

theorem unanswered_heartbeat_blocks_stop_witness:
  "\<exists>s. reachable_client sample_json no_xauthentication s \<and> (\<forall>s'. (client_step sample_json no_xauthentication)\<^sup>*\<^sup>* s s' \<longrightarrow> cy_pc s' \<noteq> Finished)"
proof -
  let ?s = "initial_client :: jv client_system"
  obtain hc where hc: "heartbeat_client_turn max_retry (Poll_arrivals []) (cy_heartbeat ?s) = (Inr Running, hc)" "hb_awaiting hc"
    using heartbeat_client_turn_asks [of "cy_heartbeat ?s" _ "[]" max_retry] by (auto simp: initial_client_def empty_net_def)
  from client_step_heartbeat [of ?s "[]" Running hc sample_json no_xauthentication, OF _ _ _ hc(1)]
  have "reachable_client sample_json no_xauthentication (?s\<lparr>cy_heartbeat := hc\<rparr>)"
    by (simp add: reachable_client_def initial_client_def fun_upd_idem)
  with unanswered_heartbeat_blocks_stop [OF this] hc(2) show ?thesis by (auto simp: initial_client_def)
qed

end
