(* ===== verification/Threads.thy ===== *)
theory Threads
  imports Split_System Client_System
begin

text \<open>
  The joining thread of \<^verbatim>\<open>include/xeus-zmq/xthread.hpp\<close>, the threads the servers and the client start with
  it, and what becomes of them when the object that owns them is destroyed.
\<close>

section \<open>The joining thread\<close>

text \<open>
  What a thread runs, the object that stands for it (none after \<^verbatim>\<open>join\<close>, \<^verbatim>\<open>detach\<close> or a
  move), and the threads of the process. Whether what a thread runs returns is a parameter:
  joining one that does not blocks for ever.
\<close>

datatype thread_function = Runs_publisher | Runs_heartbeat | Runs_control | Runs_shell
  | Runs_iopub_client | Runs_heartbeat_client

type_synonym xthread = "(nat \<times> thread_function) option"

record thread_world =
  th_next :: nat
  th_joined :: "(nat \<times> thread_function) list"
  th_detached :: "(nat \<times> thread_function) list"

definition xthread_default :: xthread where "xthread_default = None"

definition xthread_new :: "thread_function \<Rightarrow> (thread_world, xthread) prog" where
  "xthread_new fn w = (Inr (Some (th_next w, fn)), w\<lparr>th_next := Suc (th_next w)\<rparr>)"

definition joinable :: "xthread \<Rightarrow> bool" where
  "joinable t \<longleftrightarrow> t \<noteq> None"

definition get_id :: "xthread \<Rightarrow> nat option" where
  "get_id t = map_option fst t"

text \<open>Each returns what the object stands for afterwards.\<close>

definition xthread_join :: "(thread_function \<Rightarrow> bool) \<Rightarrow> xthread \<Rightarrow> (thread_world, xthread) prog" where
  "xthread_join returns t w = (case t of
      None \<Rightarrow> (Inl (Throws System_error), w)
    | Some (i, fn) \<Rightarrow> if returns fn then (Inr None, w\<lparr>th_joined := th_joined w @ [(i, fn)]\<rparr>) else (Inl Blocks, w))"

definition xthread_detach :: "xthread \<Rightarrow> (thread_world, xthread) prog" where
  "xthread_detach t w = (case t of
      None \<Rightarrow> (Inl (Throws System_error), w)
    | Some x \<Rightarrow> (Inr None, w\<lparr>th_detached := th_detached w @ [x]\<rparr>))"

definition xthread_swap :: "xthread \<times> xthread \<Rightarrow> xthread \<times> xthread" where
  "xthread_swap = (\<lambda>(t, other). (other, t))"

definition xthread_delete :: "(thread_function \<Rightarrow> bool) \<Rightarrow> xthread \<Rightarrow> (thread_world, xthread) prog" where
  "xthread_delete returns t = (if joinable t then xthread_join returns t else ret t)"

definition xthread_assign :: "(thread_function \<Rightarrow> bool) \<Rightarrow> xthread \<Rightarrow> xthread \<Rightarrow> (thread_world, xthread) prog" where
  "xthread_assign returns t rhs = seq (if joinable t then xthread_join returns t else ret t) (\<lambda>_. ret rhs)"

text \<open>Neither the destructor nor the assignment ever loses a thread: it has been joined before.\<close>

lemma xthread_delete_eq:
  "xthread_delete returns t w = (case t of
      None \<Rightarrow> (Inr None, w)
    | Some (i, fn) \<Rightarrow> if returns fn then (Inr None, w\<lparr>th_joined := th_joined w @ [(i, fn)]\<rparr>) else (Inl Blocks, w))"
  by (simp add: xthread_delete_def joinable_def xthread_join_def ret_def split: option.split)

lemma xthread_assign_eq:
  "xthread_assign returns t rhs w = (case t of
      None \<Rightarrow> (Inr rhs, w)
    | Some (i, fn) \<Rightarrow> if returns fn then (Inr rhs, w\<lparr>th_joined := th_joined w @ [(i, fn)]\<rparr>) else (Inl Blocks, w))"
  by (simp add: xthread_assign_def joinable_def xthread_join_def ret_def seq_def split: option.split prod.split)

section \<open>The threads of the single-threaded server\<close>

record 'j default_process =
  pr_server :: "'j server"
  m_iopub_thread :: xthread
  m_hb_thread :: xthread
  pr_world :: thread_world

definition fresh_world :: thread_world where
  "fresh_world = \<lparr>th_next = 0, th_joined = [], th_detached = []\<rparr>"

definition default_process_new :: "'j server \<Rightarrow> 'j default_process" where
  "default_process_new sv = \<lparr>pr_server = sv, m_iopub_thread = xthread_default, m_hb_thread = xthread_default,
     pr_world = fresh_world\<rparr>"

definition on_world :: "(thread_world, 'a) prog \<Rightarrow> ('j default_process, 'a) prog" where
  "on_world = zoom pr_world (\<lambda>w p. p\<lparr>pr_world := w\<rparr>)"

definition start_publisher_thread :: "(thread_function \<Rightarrow> bool) \<Rightarrow> ('j default_process, unit) prog" where
  "start_publisher_thread returns =
     seq (on_world (xthread_new Runs_publisher)) (\<lambda>rhs.
     seq (gets m_iopub_thread) (\<lambda>t.
     seq (on_world (xthread_assign returns t rhs)) (\<lambda>t. modify (\<lambda>p. p\<lparr>m_iopub_thread := t\<rparr>))))"

definition start_heartbeat_thread :: "(thread_function \<Rightarrow> bool) \<Rightarrow> ('j default_process, unit) prog" where
  "start_heartbeat_thread returns =
     seq (on_world (xthread_new Runs_heartbeat)) (\<lambda>rhs.
     seq (gets m_hb_thread) (\<lambda>t.
     seq (on_world (xthread_assign returns t rhs)) (\<lambda>t. modify (\<lambda>p. p\<lparr>m_hb_thread := t\<rparr>))))"

text \<open>\<^verbatim>\<open>start_impl\<close> with the threads it starts, and the destructor, which joins them in reverse.\<close>

definition default_start :: "(thread_function \<Rightarrow> bool) \<Rightarrow> 'j default_env \<Rightarrow> 'j xpub_message
    \<Rightarrow> server_socket poll_result list \<Rightarrow> (nat \<Rightarrow> (server_socket \<times> multipart) list)
    \<Rightarrow> ('j default_process, loop_status) prog" where
  "default_start returns env msg polls replies =
     seq (start_publisher_thread returns) (\<lambda>_.
     seq (start_heartbeat_thread returns) (\<lambda>_.
     zoom pr_server (\<lambda>sv p. p\<lparr>pr_server := sv\<rparr>) (start_impl env msg polls replies)))"

definition default_delete :: "(thread_function \<Rightarrow> bool) \<Rightarrow> ('j default_process, unit) prog" where
  "default_delete returns =
     seq (gets m_hb_thread) (\<lambda>t.
     seq (on_world (xthread_delete returns t)) (\<lambda>_.
     seq (gets m_iopub_thread) (\<lambda>t.
     seq (on_world (xthread_delete returns t)) (\<lambda>_. ret ()))))"

section \<open>Destroying a server that has failed\<close>

text \<open>
  A thread whose loop is left only by a stop message on the socket \<open>ctl\<close> returns when some run
  of it does, in which it finds there only what has been sent to it; the context outlives the server.
\<close>

definition returns_within :: "('s poll_result list \<Rightarrow> ('s net, loop_status) prog) \<Rightarrow> 's \<Rightarrow> multipart list \<Rightarrow> bool" where
  "returns_within run ctl sent \<longleftrightarrow> (\<exists>es n. prefix (on_socket ctl (concat (map arrivals es))) sent \<and>
     Poll_error ETERM \<notin> set es \<and> run es empty_net = (Inr Stopped, n))"

lemma heartbeat_waits: "\<not> returns_within heartbeat_run Hb_controller []"
proof
  assume "returns_within heartbeat_run Hb_controller []"
  then obtain es n where "on_socket Hb_controller (concat (map arrivals es)) = []" "Poll_error ETERM \<notin> set es"
    "run_loop heartbeat_turn es empty_net = (Inr Stopped, n)"
    by (auto simp: returns_within_def heartbeat_run_def)
  with hb_loop.run_stopped_by [OF this(3)] show False by (simp add: empty_net_def)
qed

fun default_returns :: "'j default_env \<Rightarrow> (string \<Rightarrow> string \<Rightarrow> string \<Rightarrow> 'j) \<Rightarrow> 'j server \<Rightarrow> thread_function \<Rightarrow> bool" where
  "default_returns env make_header sv Runs_publisher = returns_within
     (publisher_run (env_json env) make_header (Some (server_serialize_iopub env))) Pub_controller
     (on_socket Sv_publisher_controller (outbox (sv_net sv)))"
| "default_returns env make_header sv Runs_heartbeat = returns_within heartbeat_run Hb_controller
     (on_socket Sv_heartbeat_controller (outbox (sv_net sv)))"
| "default_returns env make_header sv fn = False"

lemma default_start_run:
  assumes "start_impl env msg polls replies sv = (r, sv')"
  shows "default_start returns env msg polls replies (default_process_new sv) =
    (r, \<lparr>pr_server = sv', m_iopub_thread = Some (0, Runs_publisher), m_hb_thread = Some (1, Runs_heartbeat),
       pr_world = \<lparr>th_next = 2, th_joined = [], th_detached = []\<rparr>\<rparr>)"
  using assms by (simp add: default_start_def start_publisher_thread_def start_heartbeat_thread_def seq_def prog_simps
      on_world_def zoom_def xthread_new_def xthread_assign_eq default_process_new_def xthread_default_def
      fresh_world_def Let_def)

lemma default_delete_blocks:
  "m_hb_thread p = Some (i, fn) \<Longrightarrow> \<not> returns fn \<Longrightarrow> default_delete returns p = (Inl Blocks, p)"
  by (simp add: default_delete_def seq_def prog_simps on_world_def zoom_def xthread_delete_eq)

text \<open>
  A malformed message makes the single-threaded server impossible to get rid of: the message
  ends \<^verbatim>\<open>start\<close> with an exception, nobody has asked the heartbeat thread to stop, and the
  destructor of the server, which joins that thread, waits for ever.
\<close>

lemma malformed_message_blocks_destructor:
  assumes "serialize_iopub (env_json env) msg (p_auth env) (m_error_handler env) = Inr w" "w \<noteq> []"
    "\<not> m_request_stop st" "next_message False (arrive batch (sv_net st)) = Some (s, c, wire)"
    "deserialize (env_json env) wire (p_auth env) = Inl (Throws exc)" "\<not> caught_poll_error (Throws exc)"
    "on_socket Sv_heartbeat_controller (outbox (sv_net st)) = []"
  shows "\<exists>p. default_start returns env msg (Poll_arrivals batch # polls) arriving (default_process_new st)
      = (Inl (Throws exc), p) \<and>
    default_delete (default_returns env make_header (pr_server p)) p = (Inl Blocks, p)"
proof -
  from malformed_message_ends_server [OF assms(1-6)] obtain st' where
    st': "start_impl env msg (Poll_arrivals batch # polls) arriving st = (Inl (Throws exc), st')"
      "outbox (sv_net st') = outbox (sv_net st) @ [(Sv_publisher_pub, w)]" by blast
  have "\<not> default_returns env make_header st' Runs_heartbeat"
    using heartbeat_waits st'(2) assms(7) by simp
  with default_start_run [OF st'(1)] show ?thesis
    by (simp add: default_delete_blocks [where fn = Runs_heartbeat])
qed

section \<open>The threads of the split servers\<close>

record split_process =
  sp_control_thread :: xthread
  sp_shell_thread :: xthread
  sp_hb_thread :: xthread
  sp_iopub_thread :: xthread
  sp_world :: thread_world

definition split_process_new :: split_process where
  "split_process_new = \<lparr>sp_control_thread = xthread_default, sp_shell_thread = xthread_default,
     sp_hb_thread = xthread_default, sp_iopub_thread = xthread_default, sp_world = fresh_world\<rparr>"

definition on_sp_world :: "(thread_world, 'a) prog \<Rightarrow> (split_process, 'a) prog" where
  "on_sp_world = zoom sp_world (\<lambda>w p. p\<lparr>sp_world := w\<rparr>)"

definition split_start_heartbeat_thread :: "(thread_function \<Rightarrow> bool) \<Rightarrow> (split_process, unit) prog" where
  "split_start_heartbeat_thread returns =
     seq (on_sp_world (xthread_new Runs_heartbeat)) (\<lambda>rhs.
     seq (gets sp_hb_thread) (\<lambda>t.
     seq (on_sp_world (xthread_assign returns t rhs)) (\<lambda>t. modify (\<lambda>p. p\<lparr>sp_hb_thread := t\<rparr>))))"

definition split_start_publisher_thread :: "(thread_function \<Rightarrow> bool) \<Rightarrow> (split_process, unit) prog" where
  "split_start_publisher_thread returns =
     seq (on_sp_world (xthread_new Runs_publisher)) (\<lambda>rhs.
     seq (gets sp_iopub_thread) (\<lambda>t.
     seq (on_sp_world (xthread_assign returns t rhs)) (\<lambda>t. modify (\<lambda>p. p\<lparr>sp_iopub_thread := t\<rparr>))))"

definition start_control_thread :: "(thread_function \<Rightarrow> bool) \<Rightarrow> (split_process, unit) prog" where
  "start_control_thread returns =
     seq (on_sp_world (xthread_new Runs_control)) (\<lambda>rhs.
     seq (gets sp_control_thread) (\<lambda>t.
     seq (on_sp_world (xthread_assign returns t rhs)) (\<lambda>t. modify (\<lambda>p. p\<lparr>sp_control_thread := t\<rparr>))))"

definition start_shell_thread :: "(thread_function \<Rightarrow> bool) \<Rightarrow> (split_process, unit) prog" where
  "start_shell_thread returns =
     seq (on_sp_world (xthread_new Runs_shell)) (\<lambda>rhs.
     seq (gets sp_shell_thread) (\<lambda>t.
     seq (on_sp_world (xthread_assign returns t rhs)) (\<lambda>t. modify (\<lambda>p. p\<lparr>sp_shell_thread := t\<rparr>))))"

text \<open>The threads each of the two servers starts; its main thread runs the remaining loop.\<close>

definition control_main_threads :: "(thread_function \<Rightarrow> bool) \<Rightarrow> (split_process, unit) prog" where
  "control_main_threads returns =
     seq (split_start_publisher_thread returns) (\<lambda>_.
     seq (split_start_heartbeat_thread returns) (\<lambda>_. start_shell_thread returns))"

definition shell_main_threads :: "(thread_function \<Rightarrow> bool) \<Rightarrow> (split_process, unit) prog" where
  "shell_main_threads returns =
     seq (split_start_publisher_thread returns) (\<lambda>_.
     seq (split_start_heartbeat_thread returns) (\<lambda>_. start_control_thread returns))"

text \<open>
  The destructor: the members of \<^verbatim>\<open>xserver_zmq_split\<close> in reverse order, and with the last of them
  those of \<^verbatim>\<open>xserver_zmq_split_impl\<close>.
\<close>

definition split_delete :: "(thread_function \<Rightarrow> bool) \<Rightarrow> (split_process, unit) prog" where
  "split_delete returns =
     seq (gets sp_shell_thread) (\<lambda>t.
     seq (on_sp_world (xthread_delete returns t)) (\<lambda>_.
     seq (gets sp_control_thread) (\<lambda>t.
     seq (on_sp_world (xthread_delete returns t)) (\<lambda>_.
     seq (gets sp_iopub_thread) (\<lambda>t.
     seq (on_sp_world (xthread_delete returns t)) (\<lambda>_.
     seq (gets sp_hb_thread) (\<lambda>t.
     seq (on_sp_world (xthread_delete returns t)) (\<lambda>_. ret ()))))))))"

lemmas thread_programs = control_main_threads_def shell_main_threads_def split_start_publisher_thread_def
  split_start_heartbeat_thread_def start_shell_thread_def start_control_thread_def split_delete_def seq_def
  on_sp_world_def zoom_def xthread_new_def xthread_assign_eq xthread_delete_eq split_process_new_def
  xthread_default_def fresh_world_def Let_def

lemma control_main_deleted:
  "fst (seq (control_main_threads r) (\<lambda>_. split_delete returns) split_process_new) =
     (if returns Runs_shell \<and> returns Runs_publisher \<and> returns Runs_heartbeat then Inr () else Inl Blocks)"
  by (simp add: thread_programs prog_simps)

lemma shell_main_deleted:
  "fst (seq (shell_main_threads r) (\<lambda>_. split_delete returns) split_process_new) =
     (if returns Runs_control \<and> returns Runs_publisher \<and> returns Runs_heartbeat then Inr () else Inl Blocks)"
  by (simp add: thread_programs prog_simps)

text \<open>Which threads have returned in a state of the system.\<close>

fun system_returns :: "'j split_system \<Rightarrow> thread_function \<Rightarrow> bool" where
  "system_returns s Runs_control \<longleftrightarrow> sy_pc s = Finished"
| "system_returns s Runs_shell \<longleftrightarrow> \<not> sy_running s 0"
| "system_returns s Runs_publisher \<longleftrightarrow> \<not> sy_running s 1"
| "system_returns s Runs_heartbeat \<longleftrightarrow> \<not> sy_running s 2"
| "system_returns s fn \<longleftrightarrow> False"

text \<open>
  The destructor of a split server waits for the whole stop: with the shell in the main
  thread, which leaves its loop first, it returns exactly in the states in which the control thread
  has finished, so never while another thread still uses the server; with the control channel
  in the main thread, it does not block once that thread has finished.
\<close>

lemma split_destructor_waits:
  assumes "split_kernel_ok env f make_header" "reachable_system env make_header s"
  shows "fst (seq (shell_main_threads r) (\<lambda>_. split_delete (system_returns s)) split_process_new) =
      (if sy_pc s = Finished then Inr () else Inl Blocks) \<and>
    (sy_pc s = Finished \<longrightarrow>
      fst (seq (control_main_threads r) (\<lambda>_. split_delete (system_returns s)) split_process_new) = Inr ())"
proof -
  have "\<not> sy_running s k" if "sy_pc s = Finished" "k < 3" for k
    using split_finished [OF assms that] .
  then show ?thesis by (simp add: shell_main_deleted control_main_deleted)
qed

section \<open>The threads of the client\<close>

record client_process =
  cl_iopub_thread :: xthread
  cl_heartbeat_thread :: xthread
  cl_world :: thread_world

definition client_process_new :: client_process where
  "client_process_new = \<lparr>cl_iopub_thread = xthread_default, cl_heartbeat_thread = xthread_default, cl_world = fresh_world\<rparr>"

definition on_cl_world :: "(thread_world, 'a) prog \<Rightarrow> (client_process, 'a) prog" where
  "on_cl_world = zoom cl_world (\<lambda>w p. p\<lparr>cl_world := w\<rparr>)"

definition client_start_iopub_thread :: "(thread_function \<Rightarrow> bool) \<Rightarrow> (client_process, unit) prog" where
  "client_start_iopub_thread returns =
     seq (on_cl_world (xthread_new Runs_iopub_client)) (\<lambda>rhs.
     seq (gets cl_iopub_thread) (\<lambda>t.
     seq (on_cl_world (xthread_assign returns t rhs)) (\<lambda>t. modify (\<lambda>p. p\<lparr>cl_iopub_thread := t\<rparr>))))"

definition client_start_heartbeat_thread :: "(thread_function \<Rightarrow> bool) \<Rightarrow> (client_process, unit) prog" where
  "client_start_heartbeat_thread returns =
     seq (on_cl_world (xthread_new Runs_heartbeat_client)) (\<lambda>rhs.
     seq (gets cl_heartbeat_thread) (\<lambda>t.
     seq (on_cl_world (xthread_assign returns t rhs)) (\<lambda>t. modify (\<lambda>p. p\<lparr>cl_heartbeat_thread := t\<rparr>))))"

definition client_start :: "(thread_function \<Rightarrow> bool) \<Rightarrow> (client_process, unit) prog" where
  "client_start returns = seq (client_start_iopub_thread returns) (\<lambda>_. client_start_heartbeat_thread returns)"

text \<open>The destructor, which destroys the members in reverse order.\<close>

definition client_delete :: "(thread_function \<Rightarrow> bool) \<Rightarrow> (client_process, unit) prog" where
  "client_delete returns =
     seq (gets cl_heartbeat_thread) (\<lambda>t.
     seq (on_cl_world (xthread_delete returns t)) (\<lambda>_.
     seq (gets cl_iopub_thread) (\<lambda>t.
     seq (on_cl_world (xthread_delete returns t)) (\<lambda>_. ret ()))))"

lemma client_deleted:
  "fst (client_delete returns client_process_new) = Inr ()"
  "fst (seq (client_start r) (\<lambda>_. client_delete returns) client_process_new) =
     (if returns Runs_heartbeat_client \<and> returns Runs_iopub_client then Inr () else Inl Blocks)"
  by (simp_all add: client_start_def client_start_iopub_thread_def client_start_heartbeat_thread_def client_delete_def
      seq_def on_cl_world_def zoom_def xthread_new_def xthread_assign_eq xthread_delete_eq client_process_new_def
      xthread_default_def fresh_world_def Let_def prog_simps)

fun client_returns :: "'j client_system \<Rightarrow> thread_function \<Rightarrow> bool" where
  "client_returns s Runs_iopub_client \<longleftrightarrow> \<not> cy_running s 0"
| "client_returns s Runs_heartbeat_client \<longleftrightarrow> \<not> cy_running s 1"
| "client_returns s fn \<longleftrightarrow> False"

text \<open>
  A client that has been started can be destroyed exactly when its channels have been stopped: before
  \<^verbatim>\<open>stop_channels\<close> is called the destructor waits for ever for the threads, which nothing else
  stops, and after it has returned the destructor returns; a client that was never started can be destroyed at any time.
\<close>

lemma client_destructor_waits:
  assumes "reachable_client J auth s"
  shows "(cy_pc s = Serving \<longrightarrow>
      fst (seq (client_start r) (\<lambda>_. client_delete (client_returns s)) client_process_new) = Inl Blocks) \<and>
    (cy_pc s = Finished \<longrightarrow>
      fst (seq (client_start r) (\<lambda>_. client_delete (client_returns s)) client_process_new) = Inr ()) \<and>
    fst (client_delete (client_returns s) client_process_new) = Inr ()"
proof -
  have "cy_running s j" if "cy_pc s = Serving" "j < 2" for j
    using cl.reachable_inv [OF assms [unfolded reachable_client_def]] running_iff [of echo_order "client_wires s" j] that
    by simp
  moreover have "\<not> cy_running s j" if "cy_pc s = Finished" "j < 2" for j
    using cl.reachable_inv [OF assms [unfolded reachable_client_def]] running_iff [of echo_order "client_wires s" j] that
    by simp
  ultimately show ?thesis by (simp add: client_deleted)
qed

end
