(* ===== verification/Auth_Threads.thy ===== *)
theory Auth_Threads
  imports Authentication
begin

text \<open>
  One authentication object used by several threads, as the split servers do: the shell, the control and the
  publisher thread sign and read messages with the same object, whose context of OpenSSL each call changes step by
  step. Its methods hold a mutex for the whole of a call (\<^verbatim>\<open>std::lock_guard\<close> in
  \<^verbatim>\<open>src/common/xauthentication.cpp\<close>).
\<close>

section \<open>A call, step by step\<close>

text \<open>The operations on the context that one computation of a signature makes, in the code's order.\<close>

datatype mac_step = Mac_init | Mac_update bytes | Mac_size | Mac_final

fun call_parts :: "auth_call \<Rightarrow> bytes list" where
  "call_parts (Call4 h p m c) = [h, p, m, c]"
| "call_parts (Call1 c) = [c]"

definition call_steps :: "auth_call \<Rightarrow> mac_step list" where
  "call_steps x = Mac_init # map Mac_update (call_parts x) @ [Mac_size, Mac_final]"

text \<open>One operation: what it makes of the object and of the local variables \<^verbatim>\<open>final_size\<close> and \<^verbatim>\<open>sig\<close>.\<close>

fun mac_perform :: "'c mac_api \<Rightarrow> mac_step \<Rightarrow> 'c openssl_xauthentication \<times> nat \<times> bytes
    \<Rightarrow> 'c openssl_xauthentication \<times> nat \<times> bytes" where
  "mac_perform M Mac_init (a, final_size, sig) = (init_hex_signature M a, final_size, sig)"
| "mac_perform M (Mac_update b) (a, final_size, sig) = (mac_feed M b a, final_size, sig)"
| "mac_perform M Mac_size (a, final_size, sig) = (a, mac_final_size M (m_evp_mac_ctx a), sig)"
| "mac_perform M Mac_final (a, final_size, sig) =
     (let (sig, ctx) = mac_final M (m_evp_mac_ctx a) final_size in (a\<lparr>m_evp_mac_ctx := ctx\<rparr>, final_size, sig))"

section \<open>Threads\<close>

datatype auth_request = Signs auth_call | Verifies bytes auth_call

datatype auth_outcome = Signature string | Verdict "bool res"

fun request_call :: "auth_request \<Rightarrow> auth_call" where
  "request_call (Signs x) = x"
| "request_call (Verifies signature x) = x"

fun auth_result :: "(bytes \<Rightarrow> string) \<Rightarrow> auth_request \<Rightarrow> bytes \<Rightarrow> auth_outcome" where
  "auth_result hex_string (Signs x) sig = Signature (hex_string sig)"
| "auth_result hex_string (Verifies signature x) sig = Verdict (memcmp_signature (hex_string sig) signature)"

text \<open>
  Where a thread is: outside, at the mutex, inside with the operations that are left, or back with what the
  method returned.
\<close>

datatype auth_pc = Outside | At_mutex auth_request | Inside auth_request "mac_step list" nat bytes
  | Returned auth_request auth_outcome

record 'c shared_auth =
  sa_object :: "'c openssl_xauthentication"
  m_mac_mutex :: "nat option"
  sa_pc :: "nat \<Rightarrow> auth_pc"

definition shared_auth_new :: "'c openssl_xauthentication \<Rightarrow> 'c shared_auth" where
  "shared_auth_new a = \<lparr>sa_object = a, m_mac_mutex = None, sa_pc = (\<lambda>t. Outside)\<rparr>"

text \<open>
  A turn of a thread: a call of the method, the lock, one operation, or the return, which unlocks. A turn
  at a mutex that another thread holds changes nothing. A thread may call again as soon as it is back.
\<close>

definition auth_turn :: "'c mac_api \<Rightarrow> (bytes \<Rightarrow> string) \<Rightarrow> nat \<times> auth_request \<Rightarrow> 'c shared_auth \<Rightarrow> 'c shared_auth" where
  "auth_turn M hex_string = (\<lambda>(t, new) s. case sa_pc s t of
      Outside \<Rightarrow> s\<lparr>sa_pc := (sa_pc s)(t := At_mutex new)\<rparr>
    | At_mutex r \<Rightarrow>
        if m_mac_mutex s = None
        then s\<lparr>m_mac_mutex := Some t, sa_pc := (sa_pc s)(t := Inside r (call_steps (request_call r)) 0 [])\<rparr>
        else s
    | Inside r (x # steps) final_size sig \<Rightarrow>
        (let (a, final_size, sig) = mac_perform M x (sa_object s, final_size, sig)
         in s\<lparr>sa_object := a, sa_pc := (sa_pc s)(t := Inside r steps final_size sig)\<rparr>)
    | Inside r [] final_size sig \<Rightarrow>
        s\<lparr>m_mac_mutex := None, sa_pc := (sa_pc s)(t := Returned r (auth_result hex_string r sig))\<rparr>
    | Returned r result \<Rightarrow> s\<lparr>sa_pc := (sa_pc s)(t := At_mutex new)\<rparr>)"

definition auth_run :: "'c mac_api \<Rightarrow> (bytes \<Rightarrow> string) \<Rightarrow> (nat \<times> auth_request) list \<Rightarrow> 'c shared_auth \<Rightarrow> 'c shared_auth" where
  "auth_run M hex_string schedule s = fold (auth_turn M hex_string) schedule s"

section \<open>The steps of one call\<close>

lemma perform_updates:
  "fold (mac_perform M) (map Mac_update bs) (a, n, sig) = (a\<lparr>m_evp_mac_ctx := foldl (mac_update M) (m_evp_mac_ctx a) bs\<rparr>, n, sig)"
  by (induction bs arbitrary: a) (simp_all add: mac_feed_def)

text \<open>Taken together they are what the call computes, and leave the object as it does.\<close>

lemma perform_call:
  obtains n sig where "fold (mac_perform M) (call_steps x) (a, k, old) = (after_call M hex_string a x, n, sig)"
    "hex_string sig = (case x of Call4 h p m c \<Rightarrow> fst (compute_hex_signature M hex_string a h p m c)
       | Call1 c \<Rightarrow> fst (compute_hex_signature1 M hex_string a c))"
  by (cases x) (simp_all add: call_steps_def compute_hex_signature_def compute_hex_signature1_def finalize_hex_signature_def
      mac_feed_def Let_def split_def)

lemma perform_signs:
  assumes "mac_computes M hmac"
  obtains b n where "fold (mac_perform M) (call_steps x) (a, k, old) = (b, n, hmac (m_key a) (m_hash_name a) (concat (call_parts x)))"
proof -
  let ?b = "init_hex_signature M a"
  let ?ctx = "foldl (mac_update M) (m_evp_mac_ctx ?b) (call_parts x)"
  have "fst (mac_final M ?ctx (mac_final_size M ?ctx)) = hmac (m_key a) (m_hash_name a) (concat (call_parts x))"
    using mac_of_parts [OF assms] by (simp add: init_hex_signature_def)
  moreover have "fold (mac_perform M) (call_steps x) (a, k, old) =
      mac_perform M Mac_final (mac_perform M Mac_size (?b\<lparr>m_evp_mac_ctx := ?ctx\<rparr>, k, old))"
    by (simp add: call_steps_def perform_updates)
  ultimately show thesis using that by (simp add: split_def Let_def)
qed

lemma perform_keeps:
  "mac_perform M x (a, n, sig) = (b, n', sig') \<Longrightarrow> m_key b = m_key a \<and> m_hash_name b = m_hash_name a"
  by (cases x) (auto simp: init_hex_signature_def mac_feed_def split_def Let_def)

section \<open>The invariant\<close>

definition is_inside :: "auth_pc \<Rightarrow> bool" where
  "is_inside pc \<longleftrightarrow> (case pc of Inside r steps n sig \<Rightarrow> True | _ \<Rightarrow> False)"

lemma is_inside_simps [simp]:
  "\<not> is_inside Outside" "\<not> is_inside (At_mutex r)" "is_inside (Inside r steps n sig)" "\<not> is_inside (Returned r result)"
  by (simp_all add: is_inside_def)

text \<open>The object is where an undisturbed call with these operations left would have brought it.\<close>

definition mid_call :: "'c mac_api \<Rightarrow> string \<Rightarrow> string \<Rightarrow> auth_request \<Rightarrow> mac_step list
    \<Rightarrow> 'c openssl_xauthentication \<times> nat \<times> bytes \<Rightarrow> bool" where
  "mid_call M key digest r steps x \<longleftrightarrow> (\<exists>made a. call_steps (request_call r) = made @ steps \<and>
     m_key a = key \<and> m_hash_name a = digest \<and> fold (mac_perform M) made (a, 0, []) = x)"

definition expected_result :: "(bytes \<Rightarrow> string) \<Rightarrow> (bytes \<Rightarrow> string \<Rightarrow> bytes \<Rightarrow> bytes) \<Rightarrow> string \<Rightarrow> string \<Rightarrow> auth_request
    \<Rightarrow> auth_outcome" where
  "expected_result hex_string hmac key digest r =
     auth_result hex_string r (hmac key digest (concat (call_parts (request_call r))))"

fun pc_ok :: "'c mac_api \<Rightarrow> (bytes \<Rightarrow> string) \<Rightarrow> (bytes \<Rightarrow> string \<Rightarrow> bytes \<Rightarrow> bytes) \<Rightarrow> string \<Rightarrow> string
    \<Rightarrow> 'c openssl_xauthentication \<Rightarrow> auth_pc \<Rightarrow> bool" where
  "pc_ok M hex_string hmac key digest a (Inside r steps n sig) \<longleftrightarrow> mid_call M key digest r steps (a, n, sig)"
| "pc_ok M hex_string hmac key digest a (Returned r result) \<longleftrightarrow> result = expected_result hex_string hmac key digest r"
| "pc_ok M hex_string hmac key digest a Outside \<longleftrightarrow> True"
| "pc_ok M hex_string hmac key digest a (At_mutex r) \<longleftrightarrow> True"

definition auth_inv :: "'c mac_api \<Rightarrow> (bytes \<Rightarrow> string) \<Rightarrow> (bytes \<Rightarrow> string \<Rightarrow> bytes \<Rightarrow> bytes) \<Rightarrow> string \<Rightarrow> string
    \<Rightarrow> 'c shared_auth \<Rightarrow> bool" where
  "auth_inv M hex_string hmac key digest s \<longleftrightarrow> m_key (sa_object s) = key \<and> m_hash_name (sa_object s) = digest \<and>
     (\<forall>t. is_inside (sa_pc s t) \<longleftrightarrow> m_mac_mutex s = Some t) \<and>
     (\<forall>t. pc_ok M hex_string hmac key digest (sa_object s) (sa_pc s t))"

lemma pc_ok_elsewhere:
  "\<not> is_inside pc \<Longrightarrow> pc_ok M hex_string hmac key digest a pc \<Longrightarrow> pc_ok M hex_string hmac key digest b pc"
  by (cases pc) simp_all

lemma mid_call_start:
  "m_key a = key \<Longrightarrow> m_hash_name a = digest \<Longrightarrow> mid_call M key digest r (call_steps (request_call r)) (a, 0, [])"
  unfolding mid_call_def by (intro exI [of _ "[]"] exI [of _ a]) simp

lemma mid_call_step:
  assumes "mid_call M key digest r (x # steps) st"
  shows "mid_call M key digest r steps (mac_perform M x st)"
proof -
  from assms obtain made a where "call_steps (request_call r) = made @ x # steps" "m_key a = key" "m_hash_name a = digest"
    "fold (mac_perform M) made (a, 0, []) = st" by (auto simp: mid_call_def)
  then show ?thesis unfolding mid_call_def by (intro exI [of _ "made @ [x]"] exI [of _ a]) simp
qed

lemma mid_call_end:
  assumes "mac_computes M hmac" "mid_call M key digest r [] (b, n, sig)"
  shows "auth_result hex_string r sig = expected_result hex_string hmac key digest r"
proof -
  from assms(2) obtain a where a: "m_key a = key" "m_hash_name a = digest"
    "fold (mac_perform M) (call_steps (request_call r)) (a, 0, []) = (b, n, sig)" by (auto simp: mid_call_def)
  obtain b' n' where "fold (mac_perform M) (call_steps (request_call r)) (a, 0, []) =
      (b', n', hmac (m_key a) (m_hash_name a) (concat (call_parts (request_call r))))"
    using perform_signs [OF assms(1)] by blast
  with a have "sig = hmac key digest (concat (call_parts (request_call r)))" by simp
  then show ?thesis by (simp add: expected_result_def)
qed

lemma auth_inv_new: "auth_inv M hex_string hmac (m_key a) (m_hash_name a) (shared_auth_new a)"
  by (simp add: auth_inv_def shared_auth_new_def)

lemma auth_inv_holder:
  assumes "auth_inv M hex_string hmac key digest s" "sa_pc s t = Inside r steps n sig"
  shows "m_mac_mutex s = Some t" "mid_call M key digest r steps (sa_object s, n, sig)"
    "u \<noteq> t \<Longrightarrow> \<not> is_inside (sa_pc s u)"
proof -
  from assms have inside: "is_inside (sa_pc s u) \<longleftrightarrow> m_mac_mutex s = Some u"
    and ok: "pc_ok M hex_string hmac key digest (sa_object s) (sa_pc s u)" for u by (simp_all add: auth_inv_def)
  from inside [of t] assms(2) show holds: "m_mac_mutex s = Some t" by simp
  from ok [of t] assms(2) show "mid_call M key digest r steps (sa_object s, n, sig)" by simp
  from inside [of u] holds show "u \<noteq> t \<Longrightarrow> \<not> is_inside (sa_pc s u)" by simp
qed

text \<open>Only the thread that holds the mutex is inside, so that an operation finds the object as its last one left it.\<close>

lemma auth_inv_update:
  assumes "auth_inv M hex_string hmac key digest s" "m_key a = key" "m_hash_name a = digest"
    "\<And>u. is_inside (((sa_pc s)(t := pc)) u) \<longleftrightarrow> mutex = Some u" "pc_ok M hex_string hmac key digest a pc"
    "a = sa_object s \<or> (\<forall>u. u \<noteq> t \<longrightarrow> \<not> is_inside (sa_pc s u))"
  shows "auth_inv M hex_string hmac key digest (s\<lparr>sa_object := a, m_mac_mutex := mutex, sa_pc := (sa_pc s)(t := pc)\<rparr>)"
proof -
  have "pc_ok M hex_string hmac key digest (sa_object s) (sa_pc s u)" for u using assms(1) by (simp add: auth_inv_def)
  then have "pc_ok M hex_string hmac key digest a (((sa_pc s)(t := pc)) u)" for u
    using assms(5,6) by (metis fun_upd_apply pc_ok_elsewhere)
  with assms(2-4) show ?thesis by (simp add: auth_inv_def)
qed

lemma auth_inv_outside:
  assumes "auth_inv M hex_string hmac key digest s" "\<not> is_inside (sa_pc s t)" "\<not> is_inside pc"
    "pc_ok M hex_string hmac key digest (sa_object s) pc"
  shows "auth_inv M hex_string hmac key digest (s\<lparr>sa_pc := (sa_pc s)(t := pc)\<rparr>)"
  using assms by (auto simp: auth_inv_def)

lemma auth_turn_inv:
  assumes "mac_computes M hmac" "auth_inv M hex_string hmac key digest s"
  shows "auth_inv M hex_string hmac key digest (auth_turn M hex_string (t, new) s)"
proof -
  from assms(2) have object: "m_key (sa_object s) = key" "m_hash_name (sa_object s) = digest"
    and inside: "is_inside (sa_pc s u) \<longleftrightarrow> m_mac_mutex s = Some u" for u by (simp_all add: auth_inv_def)
  note update = auth_inv_update [OF assms(2), where t = t]
  show ?thesis
  proof (cases "sa_pc s t")
    case (Inside r steps n sig)
    note holder = auth_inv_holder [OF assms(2) Inside]
    show ?thesis
    proof (cases steps)
      case Nil
      have "pc_ok M hex_string hmac key digest (sa_object s) (Returned r (auth_result hex_string r sig))"
        using mid_call_end [OF assms(1)] holder(2) Nil by simp
      from update [OF object _ this, where mutex = None] holder(1) inside have
        "auth_inv M hex_string hmac key digest (s\<lparr>sa_object := sa_object s, m_mac_mutex := None,
           sa_pc := (sa_pc s)(t := Returned r (auth_result hex_string r sig))\<rparr>)" by simp
      then show ?thesis using Inside Nil by (simp add: auth_turn_def)
    next
      case (Cons x steps')
      obtain a n' sig' where x: "mac_perform M x (sa_object s, n, sig) = (a, n', sig')"
        by (cases "mac_perform M x (sa_object s, n, sig)")
      have "auth_inv M hex_string hmac key digest (s\<lparr>sa_object := a, m_mac_mutex := m_mac_mutex s,
           sa_pc := (sa_pc s)(t := Inside r steps' n' sig')\<rparr>)"
      proof (rule update)
        show "m_key a = key" "m_hash_name a = digest" using perform_keeps [OF x] object by simp_all
        show "is_inside (((sa_pc s)(t := Inside r steps' n' sig')) u) \<longleftrightarrow> m_mac_mutex s = Some u" for u
          using inside [of u] holder(1) by simp
        from mid_call_step [of M key digest r x steps' "(sa_object s, n, sig)"] holder(2) Cons x
        show "pc_ok M hex_string hmac key digest a (Inside r steps' n' sig')" by (simp del: mac_perform.simps)
        show "a = sa_object s \<or> (\<forall>u. u \<noteq> t \<longrightarrow> \<not> is_inside (sa_pc s u))" using holder(3) by blast
      qed
      then show ?thesis using Inside Cons x by (simp add: auth_turn_def)
    qed
  next
    case Outside
    with auth_inv_outside [OF assms(2), of t "At_mutex new"] show ?thesis by (simp add: auth_turn_def)
  next
    case (Returned r result)
    with auth_inv_outside [OF assms(2), of t "At_mutex new"] show ?thesis by (simp add: auth_turn_def)
  next
    case (At_mutex r)
    show ?thesis
    proof (cases "m_mac_mutex s")
      case None
      have "auth_inv M hex_string hmac key digest (s\<lparr>sa_object := sa_object s, m_mac_mutex := Some t,
          sa_pc := (sa_pc s)(t := Inside r (call_steps (request_call r)) 0 [])\<rparr>)"
        by (rule update [OF object]) (use inside None mid_call_start object in simp_all)
      then show ?thesis using At_mutex None by (simp add: auth_turn_def)
    qed (use At_mutex assms(2) in \<open>simp add: auth_turn_def\<close>)
  qed
qed

lemma auth_run_inv:
  assumes "mac_computes M hmac"
  shows "auth_inv M hex_string hmac key digest s \<Longrightarrow> auth_inv M hex_string hmac key digest (auth_run M hex_string schedule s)"
  unfolding auth_run_def
  by (induction schedule arbitrary: s) (auto intro: auth_turn_inv [OF assms])

section \<open>Every call returns what it would return alone\<close>

lemma auth_run_append: "auth_run M hex_string (xs @ ys) s = auth_run M hex_string ys (auth_run M hex_string xs s)"
  by (simp add: auth_run_def)

lemma auth_run_Cons: "auth_run M hex_string (x # xs) s = auth_run M hex_string xs (auth_turn M hex_string x s)"
  by (simp add: auth_run_def)

text \<open>Nothing inside waits, so that a thread which is inside returns when it is given its turns.\<close>

lemma inside_returns:
  assumes "sa_pc s t = Inside r steps n sig"
  shows "\<exists>more result. sa_pc (auth_run M hex_string more s) t = Returned r result \<and>
    m_mac_mutex (auth_run M hex_string more s) = None \<and> (\<forall>u. u \<noteq> t \<longrightarrow> sa_pc (auth_run M hex_string more s) u = sa_pc s u)"
  using assms
proof (induction steps arbitrary: s n sig)
  case Nil
  then show ?case by (intro exI [of _ "[(t, r)]"]) (simp add: auth_run_def auth_turn_def)
next
  case (Cons x steps)
  obtain a n' sig' where x: "mac_perform M x (sa_object s, n, sig) = (a, n', sig')"
    by (cases "mac_perform M x (sa_object s, n, sig)")
  let ?s = "s\<lparr>sa_object := a, sa_pc := (sa_pc s)(t := Inside r steps n' sig')\<rparr>"
  have turn: "auth_turn M hex_string (t, r) s = ?s" using Cons.prems x by (simp add: auth_turn_def)
  have "sa_pc ?s t = Inside r steps n' sig'" by simp
  from Cons.IH [OF this] obtain more result where "sa_pc (auth_run M hex_string more ?s) t = Returned r result"
    "m_mac_mutex (auth_run M hex_string more ?s) = None" "\<forall>u. u \<noteq> t \<longrightarrow> sa_pc (auth_run M hex_string more ?s) u = sa_pc ?s u"
    by blast
  then show ?case by (intro exI [of _ "(t, r) # more"] exI [of _ result]) (simp add: auth_run_Cons turn)
qed

lemma at_free_mutex_returns:
  assumes "sa_pc s t = At_mutex r" "m_mac_mutex s = None"
  shows "\<exists>more result. sa_pc (auth_run M hex_string more s) t = Returned r result"
proof -
  let ?s = "auth_turn M hex_string (t, r) s"
  from assms have "sa_pc ?s t = Inside r (call_steps (request_call r)) 0 []" by (simp add: auth_turn_def)
  from inside_returns [OF this] obtain more result where "sa_pc (auth_run M hex_string more ?s) t = Returned r result" by blast
  then show ?thesis by (intro exI [of _ "(t, r) # more"]) (auto simp: auth_run_Cons)
qed

text \<open>At the mutex, once the thread that holds it has returned.\<close>

lemma at_mutex_returns:
  assumes "auth_inv M hex_string hmac key digest s" "sa_pc s t = At_mutex r"
  shows "\<exists>more result. sa_pc (auth_run M hex_string more s) t = Returned r result"
proof (cases "m_mac_mutex s")
  case None
  then show ?thesis by (rule at_free_mutex_returns [OF assms(2)])
next
  case (Some u)
  with assms(1) have "is_inside (sa_pc s u)" by (simp add: auth_inv_def)
  then obtain q steps n sig where "sa_pc s u = Inside q steps n sig" by (cases "sa_pc s u") simp_all
  from inside_returns [OF this] obtain more where free: "m_mac_mutex (auth_run M hex_string more s) = None"
    and others: "\<forall>v. v \<noteq> u \<longrightarrow> sa_pc (auth_run M hex_string more s) v = sa_pc s v" by blast
  have "t \<noteq> u" using \<open>is_inside (sa_pc s u)\<close> assms(2) by auto
  with others assms(2) have "sa_pc (auth_run M hex_string more s) t = At_mutex r" by simp
  from at_free_mutex_returns [OF this free] obtain more' result where
    "sa_pc (auth_run M hex_string more' (auth_run M hex_string more s)) t = Returned r result" by blast
  then show ?thesis by (intro exI [of _ "more @ more'"]) (auto simp: auth_run_append)
qed

text \<open>
  C6. However the calls of any number of threads on one object interleave, whatever calls came before them: a
  method that has returned has signed with the hexadecimal HMAC, under the configured key and the digest named by the scheme,
  of the parts of its own call, or has compared the received signature with that one; and a call that is under way can always
  still return, the one at the mutex after the one inside.
\<close>

theorem signing_is_atomic:
  assumes "mac_computes M hmac" "make_openssl_xauthentication M scheme key = Inr a"
  shows "\<forall>t r. let s = auth_run M hex_string schedule (shared_auth_new a);
      result = expected_result hex_string hmac key (map toupper (drop 5 scheme)) r
    in (\<forall>x. sa_pc s t = Returned r x \<longrightarrow> x = result) \<and>
       (sa_pc s t = At_mutex r \<or> (\<exists>steps n sig. sa_pc s t = Inside r steps n sig) \<longrightarrow>
         (\<exists>more. sa_pc (auth_run M hex_string (schedule @ more) (shared_auth_new a)) t = Returned r result))"
proof (intro allI)
  fix t r
  let ?s = "\<lambda>schedule. auth_run M hex_string schedule (shared_auth_new a)"
  let ?result = "expected_result hex_string hmac key (map toupper (drop 5 scheme)) r"
  have inv: "auth_inv M hex_string hmac key (map toupper (drop 5 scheme)) (?s schedule)" for schedule
    using auth_run_inv [OF assms(1) auth_inv_new [where a = a], where schedule = schedule] make_openssl_fields [OF assms(2)] by simp
  have returned: "x = ?result" if "sa_pc (?s schedule) t = Returned r x" for schedule x
  proof -
    from inv [of schedule] have "pc_ok M hex_string hmac key (map toupper (drop 5 scheme)) (sa_object (?s schedule)) (sa_pc (?s schedule) t)"
      by (simp add: auth_inv_def)
    with that show ?thesis by simp
  qed
  moreover have "\<exists>more. sa_pc (?s (schedule @ more)) t = Returned r ?result"
    if "sa_pc (?s schedule) t = At_mutex r \<or> (\<exists>steps n sig. sa_pc (?s schedule) t = Inside r steps n sig)"
  proof -
    from that obtain more result where "sa_pc (auth_run M hex_string more (?s schedule)) t = Returned r result"
      using at_mutex_returns [OF inv] inside_returns by metis
    then have run: "sa_pc (?s (schedule @ more)) t = Returned r result" by (simp add: auth_run_append)
    with returned [OF run] show ?thesis by blast
  qed
  ultimately show "let s = ?s schedule; result = ?result in (\<forall>x. sa_pc s t = Returned r x \<longrightarrow> x = result) \<and>
       (sa_pc s t = At_mutex r \<or> (\<exists>steps n sig. sa_pc s t = Inside r steps n sig) \<longrightarrow>
         (\<exists>more. sa_pc (?s (schedule @ more)) t = Returned r result))"
    unfolding Let_def by blast
qed

text \<open>Two threads: the second one calls while the first one is inside.\<close>

definition two_signers :: "(nat \<times> auth_request) list" where
  "two_signers = map (\<lambda>t. (t, Signs (Call1 (if t = 0 then ''x'' else ''y'')))) [0, 0, 0, 1, 1, 0, 1, 0, 1, 0, 0, 1, 1]"

theorem signing_is_atomic_witness:
  "\<exists>a s. make_openssl_xauthentication echo_mac ''hmac-sha256'' ''k'' = Inr a \<and>
    s = auth_run echo_mac id two_signers (shared_auth_new a) \<and>
    sa_pc s 0 = Returned (Signs (Call1 ''x'')) (Signature ''kSHA256x'') \<and>
    (\<exists>more. sa_pc (auth_run echo_mac id (two_signers @ more) (shared_auth_new a)) 1 =
      Returned (Signs (Call1 ''y'')) (Signature ''kSHA256y''))"
proof -
  let ?a = "\<lparr>m_key = ''k'', m_hash_name = ''SHA256'', m_evp_mac_ctx = ([], [], [])\<rparr>"
  have a: "make_openssl_xauthentication echo_mac ''hmac-sha256'' ''k'' = Inr ?a"
    by (simp add: make_openssl_xauthentication_def substr_from_def echo_mac_def toupper_def char_of_def bit_Suc_0_iff)
  let ?s = "auth_run echo_mac id two_signers (shared_auth_new ?a)"
  have "(\<exists>x. sa_pc ?s 0 = Returned (Signs (Call1 ''x'')) x) \<and> (\<exists>steps n sig. sa_pc ?s 1 = Inside (Signs (Call1 ''y'')) steps n sig)"
    by (simp add: auth_run_def two_signers_def shared_auth_new_def auth_turn_def call_steps_def Let_def split_def)
  then obtain x steps n sig where s: "sa_pc ?s 0 = Returned (Signs (Call1 ''x'')) x" "sa_pc ?s 1 = Inside (Signs (Call1 ''y'')) steps n sig"
    by blast
  have digest: "map toupper (drop 5 ''hmac-sha256'') = ''SHA256''" by (simp add: toupper_def char_of_def bit_Suc_0_iff)
  have result: "expected_result id (\<lambda>key digest data. key @ digest @ data) ''k'' ''SHA256'' (Signs (Call1 c)) = Signature (''kSHA256'' @ c)" for c
    by (simp add: expected_result_def)
  note atomic = signing_is_atomic [OF echo_mac_computes a, of id two_signers, unfolded Let_def digest, rule_format]
  from atomic [of 0 "Signs (Call1 ''x'')"] s(1) have "x = Signature ''kSHA256x''" by (simp add: result)
  moreover from atomic [of 1 "Signs (Call1 ''y'')"] s(2) have
    "\<exists>more. sa_pc (auth_run echo_mac id (two_signers @ more) (shared_auth_new ?a)) 1 = Returned (Signs (Call1 ''y'')) (Signature ''kSHA256y'')"
    by (simp add: result)
  ultimately show ?thesis using a s(1) by blast
qed

end
