(* ===== verification/Server_Object.thy ===== *)
theory Server_Object
  imports Construction Threads
begin

text \<open>
  A split server as one object: \<^verbatim>\<open>xserver_zmq_split\<close> with what it owns, the two final classes
  \<^verbatim>\<open>xserver_control_main\<close> and \<^verbatim>\<open>xserver_shell_main\<close>, their factories, and the life of an object from its
  construction over \<^verbatim>\<open>start\<close> to its destruction. The operations are those of \<open>Construction\<close>, \<open>Server_Split\<close> and
  \<open>Threads\<close>.
\<close>

section \<open>The object\<close>

text \<open>Which of the two final classes an object belongs to.\<close>

datatype split_kind = Control_main | Shell_main

text \<open>
  A runner is what its \<^verbatim>\<open>run_impl\<close> does with the methods of its base class and with what arrives while
  it runs; the control runner is also given the answers to the stop messages.
\<close>

type_synonym 'j shell_runner_impl = "('j, 'j split_server) shell_runner \<Rightarrow> shell_socket poll_result list
    \<Rightarrow> ('j split_server, loop_status) prog"

type_synonym 'j control_runner_impl = "('j, 'j split_server) control_runner \<Rightarrow> recv_result list
    \<Rightarrow> (nat \<Rightarrow> (messenger_socket \<times> multipart) list) \<Rightarrow> ('j split_server, loop_status) prog"

record 'j split_object =
  so_kind :: split_kind
  so_env :: "'j split_env"
  so_server :: "'j split_server"
  so_construction :: "split_part construction"
  p_control_runner :: "'j control_runner_impl"
  p_shell_runner :: "'j shell_runner_impl"
  so_threads :: split_process

definition on_so_server :: "('j split_object \<Rightarrow> ('j split_server, 'a) prog) \<Rightarrow> ('j split_object, 'a) prog" where
  "on_so_server p ob = zoom so_server (\<lambda>sv ob. ob\<lparr>so_server := sv\<rparr>) (p ob) ob"

definition on_so_threads :: "(split_process, 'a) prog \<Rightarrow> ('j split_object, 'a) prog" where
  "on_so_threads = zoom so_threads (\<lambda>t ob. ob\<lparr>so_threads := t\<rparr>)"

definition split_server_new :: "'j split_server" where
  "split_server_new = \<lparr>sp_shell = empty_net, sp_control = empty_net, sp_messenger = empty_net, runner_request_stop = False,
     sp_notified = []\<rparr>"

text \<open>
  The constructor of \<^verbatim>\<open>xserver_zmq_split\<close>. The listeners are registered later, by the kernel; until then
  they are empty functions.
\<close>

definition split_object_new :: "split_kind \<Rightarrow> 'j json_api \<Rightarrow> 'c mac_api \<Rightarrow> (bytes \<Rightarrow> string) \<Rightarrow> bind_result
    \<Rightarrow> (split_part \<Rightarrow> nat \<Rightarrow> int) \<Rightarrow> xkernel_configuration \<Rightarrow> xconfiguration \<Rightarrow> error_handler
    \<Rightarrow> (handshake_socket \<times> multipart) list \<Rightarrow> 'j control_runner_impl \<Rightarrow> 'j shell_runner_impl \<Rightarrow> 'j split_object res" where
  "split_object_new kind J M hex_string bind draw initial config eh replies control shell =
     (case xserver_zmq_split_new J M hex_string bind draw initial config eh replies new_construction of
        (Inl f, _) \<Rightarrow> Inl f
      | (Inr auth, c) \<Rightarrow> Inr \<lparr>so_kind = kind,
          so_env = \<lparr>env_json = J, p_auth = auth, m_error_handler = eh,
            shell_listener = (\<lambda>msg. fail (Throws Bad_function_call)), control_listener = (\<lambda>msg. fail (Throws Bad_function_call)),
            stdin_listener = (\<lambda>msg. fail (Throws Bad_function_call)), internal_listener = (\<lambda>v. fail (Throws Bad_function_call))\<rparr>,
          so_server = split_server_new, so_construction = c, p_control_runner = control, p_shell_runner = shell,
          so_threads = split_process_new\<rparr>)"

definition register_kernel :: "('j xmessage \<Rightarrow> ('j split_server, unit) prog) \<Rightarrow> ('j xmessage \<Rightarrow> ('j split_server, unit) prog)
    \<Rightarrow> ('j xmessage \<Rightarrow> ('j split_server, unit) prog) \<Rightarrow> ('j \<Rightarrow> ('j split_server, 'j) prog) \<Rightarrow> 'j split_object \<Rightarrow> 'j split_object" where
  "register_kernel shell control stdin internal ob = ob\<lparr>so_env := (so_env ob)\<lparr>shell_listener := shell,
     control_listener := control, stdin_listener := stdin, internal_listener := internal\<rparr>\<rparr>"

section \<open>The two classes and their factories\<close>

definition xcontrol_default_runner :: "'j control_runner_impl" where
  "xcontrol_default_runner = default_control_run"

definition xshell_default_runner :: "'j shell_runner_impl" where
  "xshell_default_runner r = run_loop (default_shell_turn r)"

definition xserver_control_main_new where
  "xserver_control_main_new J M hex_string bind draw initial config eh replies control shell =
     split_object_new Control_main J M hex_string bind draw initial config eh replies control shell"

definition make_xserver_control where
  "make_xserver_control J M hex_string bind draw initial config eh replies control shell =
     xserver_control_main_new J M hex_string bind draw initial config eh replies control shell"

definition make_xserver_control_main where
  "make_xserver_control_main J M hex_string bind draw initial config eh replies =
     make_xserver_control J M hex_string bind draw initial config eh replies xcontrol_default_runner xshell_default_runner"

definition xserver_shell_main_new where
  "xserver_shell_main_new J M hex_string bind draw initial config eh replies control shell =
     split_object_new Shell_main J M hex_string bind draw initial config eh replies control shell"

definition make_xserver_shell where
  "make_xserver_shell J M hex_string bind draw initial config eh replies control shell =
     xserver_shell_main_new J M hex_string bind draw initial config eh replies control shell"

definition make_xserver_shell_main where
  "make_xserver_shell_main J M hex_string bind draw initial config eh replies =
     make_xserver_shell J M hex_string bind draw initial config eh replies xcontrol_default_runner xshell_default_runner"

lemma default_runners_run:
  "xshell_default_runner (xshell_runner (runner_api env)) = shell_run_impl env"
  "xcontrol_default_runner (xcontrol_runner (runner_api env)) = control_run_impl env"
  by (simp_all add: xshell_default_runner_def xcontrol_default_runner_def shell_run_impl_def shell_turn_def control_run_impl_def fun_eq_iff)

section \<open>Starting and destroying it\<close>

definition run_control :: "recv_result list \<Rightarrow> (nat \<Rightarrow> (messenger_socket \<times> multipart) list) \<Rightarrow> ('j split_object, loop_status) prog" where
  "run_control rs replies =
     on_so_server (\<lambda>ob. p_control_runner ob (xcontrol_runner (runner_api (so_env ob))) rs replies)"

definition run_shell :: "shell_socket poll_result list \<Rightarrow> ('j split_object, loop_status) prog" where
  "run_shell polls = on_so_server (\<lambda>ob. p_shell_runner ob (xshell_runner (runner_api (so_env ob))) polls)"

definition publish_impl :: "'j xpub_message \<Rightarrow> channel \<Rightarrow> ('j split_object, unit) prog" where
  "publish_impl msg c = on_so_server (\<lambda>ob. si_publish (split_impl (so_env ob)) msg c)"

definition control_main_start :: "(thread_function \<Rightarrow> bool) \<Rightarrow> 'j xpub_message \<Rightarrow> recv_result list
    \<Rightarrow> (nat \<Rightarrow> (messenger_socket \<times> multipart) list) \<Rightarrow> ('j split_object, loop_status) prog" where
  "control_main_start returns message rs replies =
     seq (on_so_threads (control_main_threads returns)) (\<lambda>_.
     seq (publish_impl message CONTROL) (\<lambda>_. run_control rs replies))"

definition shell_main_start :: "(thread_function \<Rightarrow> bool) \<Rightarrow> 'j xpub_message \<Rightarrow> shell_socket poll_result list
    \<Rightarrow> ('j split_object, loop_status) prog" where
  "shell_main_start returns message polls =
     seq (on_so_threads (shell_main_threads returns)) (\<lambda>_.
     seq (publish_impl message SHELL) (\<lambda>_. run_shell polls))"

definition split_object_delete :: "(thread_function \<Rightarrow> bool) \<Rightarrow> ('j split_object, unit) prog" where
  "split_object_delete returns = on_so_threads (split_delete returns)"

section \<open>What a factory makes\<close>

lemma split_object_new_Inr:
  assumes "split_object_new kind J M hex_string bind draw initial config eh replies control shell = Inr ob"
  obtains auth c where
    "xserver_zmq_split_new J M hex_string bind draw initial config eh replies new_construction = (Inr auth, c)"
    "so_kind ob = kind" "so_server ob = split_server_new" "so_construction ob = c" "p_control_runner ob = control"
    "p_shell_runner ob = shell" "so_threads ob = split_process_new" "env_json (so_env ob) = J" "p_auth (so_env ob) = auth"
    "m_error_handler (so_env ob) = eh"
  using assms by (auto simp: split_object_new_def split: prod.splits sum.splits)

lemma register_kernel_keeps [simp]:
  "so_kind (register_kernel l1 l2 l3 l4 ob) = so_kind ob" "so_server (register_kernel l1 l2 l3 l4 ob) = so_server ob"
  "so_construction (register_kernel l1 l2 l3 l4 ob) = so_construction ob"
  "p_control_runner (register_kernel l1 l2 l3 l4 ob) = p_control_runner ob"
  "p_shell_runner (register_kernel l1 l2 l3 l4 ob) = p_shell_runner ob" "so_threads (register_kernel l1 l2 l3 l4 ob) = so_threads ob"
  "env_json (so_env (register_kernel l1 l2 l3 l4 ob)) = env_json (so_env ob)"
  "p_auth (so_env (register_kernel l1 l2 l3 l4 ob)) = p_auth (so_env ob)"
  "m_error_handler (so_env (register_kernel l1 l2 l3 l4 ob)) = m_error_handler (so_env ob)"
  by (simp_all add: register_kernel_def)

lemma split_new_wired:
  assumes "xserver_zmq_split_new J M hex_string bind draw initial config eh replies new_construction = (Inr auth, c)"
  shows "well_wired split_part_type (cn_wiring c)"
proof -
  from assms have "split_wiring bind draw (get_kernel_configuration initial config) [] = (Inr (), cn_wiring c)"
    by (cases config) (auto simp: xserver_zmq_split_new_def construct_split_server_def construct_server_def seq_Inr_iff on_cn_wiring_def
        on_handshake_def zoom_Inr new_construction_def prog_simps)
  then show ?thesis by (rule split_well_wired)
qed

section \<open>The life of a split server\<close>

lemma on_so_server_run:
  "on_so_server p ob = (fst (p ob (so_server ob)), ob\<lparr>so_server := snd (p ob (so_server ob))\<rparr>)"
  by (simp add: on_so_server_def zoom_def split_def Let_def)

lemma threads_started:
  obtains t where "shell_main_threads returns split_process_new = (Inr (), t)"
  and "fst (split_delete returned t) =
    (if returned Runs_control \<and> returned Runs_publisher \<and> returned Runs_heartbeat then Inr () else Inl Blocks)"
proof -
  have "\<exists>t. shell_main_threads returns split_process_new = (Inr (), t)" by (simp add: thread_programs prog_simps)
  then obtain t where "shell_main_threads returns split_process_new = (Inr (), t)" by blast
  with shell_main_deleted [of returns returned] that show thesis by (simp add: seq_def)
qed

lemma control_threads_started:
  obtains t where "control_main_threads returns split_process_new = (Inr (), t)"
  and "fst (split_delete returned t) =
    (if returned Runs_shell \<and> returned Runs_publisher \<and> returned Runs_heartbeat then Inr () else Inl Blocks)"
proof -
  have "\<exists>t. control_main_threads returns split_process_new = (Inr (), t)" by (simp add: thread_programs prog_simps)
  then obtain t where "control_main_threads returns split_process_new = (Inr (), t)" by blast
  with control_main_deleted [of returns returned] that show thesis by (simp add: seq_def)
qed

text \<open>A server that has sent the start message, and nothing else, on the given side.\<close>

definition announced :: "channel \<Rightarrow> multipart \<Rightarrow> 'j split_server" where
  "announced c wire = (if c = SHELL then split_server_new\<lparr>sp_shell := empty_net\<lparr>outbox := sends Sh_publisher_pub wire\<rparr>\<rparr>
     else split_server_new\<lparr>sp_control := empty_net\<lparr>outbox := sends Ct_publisher_pub wire\<rparr>\<rparr>)"

lemma publish_impl_run:
  assumes "serialize_iopub (env_json (so_env ob)) message (p_auth (so_env ob)) (m_error_handler (so_env ob)) = Inr wire"
    "so_server ob = split_server_new"
  shows "publish_impl message c ob = (Inr (), ob\<lparr>so_server := announced c wire\<rparr>)"
  using assms
  by (simp add: publish_impl_def on_so_server_run split_impl_def split_publish_def seq_def lift_res_def on_shell_eval
      on_control_eval net_send_sends announced_def split_server_new_def empty_net_def)

lemma split_object_delete_run: "fst (split_object_delete returned ob) = fst (split_delete returned (so_threads ob))"
  by (simp add: split_object_delete_def on_so_threads_def zoom_def split_def Let_def)

lemma shell_main_start_run:
  assumes "serialize_iopub (env_json (so_env ob)) message (p_auth (so_env ob)) (m_error_handler (so_env ob)) = Inr wire"
    "so_server ob = split_server_new" "so_threads ob = split_process_new"
    "p_shell_runner ob (xshell_runner (runner_api (so_env ob))) polls (announced SHELL wire) = (result, sv)"
  shows "\<exists>ob'. shell_main_start returns message polls ob = (result, ob') \<and> so_server ob' = sv \<and>
    fst (split_object_delete returned ob') =
      (if returned Runs_control \<and> returned Runs_publisher \<and> returned Runs_heartbeat then Inr () else Inl Blocks)"
proof -
  from threads_started [of returns returned] obtain t where t: "shell_main_threads returns (so_threads ob) = (Inr (), t)"
    "fst (split_delete returned t) = (if returned Runs_control \<and> returned Runs_publisher \<and> returned Runs_heartbeat then Inr () else Inl Blocks)"
    using assms(3) by metis
  have "publish_impl message SHELL (ob\<lparr>so_threads := t\<rparr>) = (Inr (), ob\<lparr>so_threads := t, so_server := announced SHELL wire\<rparr>)"
    using publish_impl_run [of "ob\<lparr>so_threads := t\<rparr>" message wire SHELL] assms(1,2) by simp
  then have "shell_main_start returns message polls ob = (result, ob\<lparr>so_threads := t, so_server := sv\<rparr>)"
    using t(1) assms(4) by (simp add: shell_main_start_def seq_def on_so_threads_def zoom_def run_shell_def on_so_server_run)
  with t(2) show ?thesis by (simp add: split_object_delete_run)
qed

lemma control_main_start_run:
  assumes "serialize_iopub (env_json (so_env ob)) message (p_auth (so_env ob)) (m_error_handler (so_env ob)) = Inr wire"
    "so_server ob = split_server_new" "so_threads ob = split_process_new"
    "p_control_runner ob (xcontrol_runner (runner_api (so_env ob))) rs replies (announced CONTROL wire) = (result, sv)"
  shows "\<exists>ob'. control_main_start returns message rs replies ob = (result, ob') \<and> so_server ob' = sv \<and>
    fst (split_object_delete returned ob') =
      (if returned Runs_shell \<and> returned Runs_publisher \<and> returned Runs_heartbeat then Inr () else Inl Blocks)"
proof -
  from control_threads_started [of returns returned] obtain t where t: "control_main_threads returns (so_threads ob) = (Inr (), t)"
    "fst (split_delete returned t) = (if returned Runs_shell \<and> returned Runs_publisher \<and> returned Runs_heartbeat then Inr () else Inl Blocks)"
    using assms(3) by metis
  have "publish_impl message CONTROL (ob\<lparr>so_threads := t\<rparr>) = (Inr (), ob\<lparr>so_threads := t, so_server := announced CONTROL wire\<rparr>)"
    using publish_impl_run [of "ob\<lparr>so_threads := t\<rparr>" message wire CONTROL] assms(1,2) by simp
  then have "control_main_start returns message rs replies ob = (result, ob\<lparr>so_threads := t, so_server := sv\<rparr>)"
    using t(1) assms(4) by (simp add: control_main_start_def seq_def on_so_threads_def zoom_def run_control_def on_so_server_run)
  with t(2) show ?thesis by (simp add: split_object_delete_run)
qed

lemma split_factory_made:
  assumes "(if kind = Control_main
      then make_xserver_control J M hex_string bind draw initial config eh replies control shell
      else make_xserver_shell J M hex_string bind draw initial config eh replies control shell) = Inr made"
  shows "split_object_new kind J M hex_string bind draw initial config eh replies control shell = Inr made"
  using assms by (cases kind) (simp_all add: make_xserver_control_def xserver_control_main_new_def make_xserver_shell_def
      xserver_shell_main_new_def)


text \<open>A server with the default runners, whose kernel stops on every control message.\<close>

definition sample_made :: "jv split_object res" where
  "sample_made = make_xserver_shell_main (env_json sample_split_env) echo_mac id (\<lambda>e. None) sample_draw blank_configuration
     (Kernel_config (sample_config\<lparr>m_signature_scheme := ''none''\<rparr>)) strict []"

lemma sample_made_Inr:
  obtains made where "sample_made = Inr made"
    "so_env (register_kernel (\<lambda>msg. ret ()) (\<lambda>msg. runner_stop_impl) (\<lambda>msg. ret ()) ret made) = sample_split_env"
proof -
  let ?config = "sample_config\<lparr>m_signature_scheme := ''none''\<rparr>"
  have "\<exists>w. split_wiring (\<lambda>e. None) sample_draw ?config [] = (Inr (), w)"
    by (simp add: split_wiring_def part_def xcontrol_new_def xheartbeat_new_def xpublisher_new_def xshell_new_def
        messenger_connect_def seq_def prog_simps init_socket_def init_socket_at_def sock_set_def sock_connect_def
        sock_bind_def sock_call_def find_free_port_impl_eq first_free_all)
  then obtain w where "split_wiring (\<lambda>e. None) sample_draw ?config [] = (Inr (), w)" by blast
  then have "\<exists>c. xserver_zmq_split_new (env_json sample_split_env) echo_mac id (\<lambda>e. None) sample_draw blank_configuration
      (Kernel_config ?config) strict [] new_construction = (Inr no_xauthentication, c)"
    by (simp add: xserver_zmq_split_new_def construct_split_server_def construct_server_def make_xauthentication_def
        on_cn_wiring_def zoom_def new_construction_def seq_def prog_simps)
  then obtain c where c: "xserver_zmq_split_new (env_json sample_split_env) echo_mac id (\<lambda>e. None) sample_draw blank_configuration
      (Kernel_config ?config) strict [] new_construction = (Inr no_xauthentication, c)" by blast
  then obtain made where made: "sample_made = Inr made"
    by (simp add: sample_made_def make_xserver_shell_main_def make_xserver_shell_def xserver_shell_main_new_def split_object_new_def)
  moreover have "so_env (register_kernel (\<lambda>msg. ret ()) (\<lambda>msg. runner_stop_impl) (\<lambda>msg. ret ()) ret made) = sample_split_env"
    using made c by (auto simp: sample_made_def make_xserver_shell_main_def make_xserver_shell_def xserver_shell_main_new_def
        split_object_new_def register_kernel_def sample_split_env_def quiet_split_env_def)
  ultimately show thesis by (rule that)
qed


end
