(* ===== verification/End_To_End.thy ===== *)
theory End_To_End
  imports Split_System Client
begin

text \<open>
  Server and client together: a request and its reply, and published messages, from the call on one
  side to what the other side hands out.
\<close>

section \<open>A request and its reply\<close>

text \<open>An identity in front of a message is an identity in front of its wire form.\<close>

lemma serialize_with_identity:
  "serialize J (make_xmessage (peer # ids) data) auth eh = rbind (serialize J (make_xmessage ids data) auth eh) (\<lambda>w. Inr (peer # w))"
  by (simp add: serialize_def serialize_zmq_id_def serialize_message_base_def make_xmessage_def rbind_assoc)

lemma make_xmessage_self: "make_xmessage (identities msg) (base_data msg) = msg"
  using make_xmessage_eq_iff [of "identities msg" "base_data msg" msg] by simp

lemma base_data_same: "base_data data = (data :: 'j xmessage_base_data)"
  by (cases data) (simp add: base_data_def)

lemma base_data_make: "base_data (make_xmessage ids data) = data"
  by (cases data) (simp add: base_data_def make_xmessage_def)

lemma reads_back_make [simp]: "reads_back_parts J eh (make_xmessage ids (base_data msg)) = reads_back_parts J eh msg"
  by (simp add: reads_back_parts_def make_xmessage_def base_data_def)

lemma reads_back_base: "reads_back_parts J eh (base_data msg) = reads_back_parts J eh msg"
  by (simp add: reads_back_parts_def base_data_def)

lemma identities_make [simp]: "identities (make_xmessage ids data) = ids"
  by (simp add: make_xmessage_def)

context authenticator
begin

lemma message_forms:
  assumes "reads_back_parts J eh msg" "DELIMITER \<notin> set (peer # identities msg)"
  obtains w where "serialize J msg auth eh = Inr w" "w \<noteq> []" "deserialize J w auth = Inr msg"
    "serialize J (make_xmessage (peer # identities msg) (base_data msg)) auth eh = Inr (peer # w)"
    "deserialize J (peer # w) auth = Inr (make_xmessage (peer # identities msg) (base_data msg))"
proof -
  from message_roundtrip [OF assms(1)] assms(2) obtain w where
    w: "serialize J msg auth eh = Inr w" "deserialize J w auth = Inr msg" by auto
  have "serialize J (make_xmessage (peer # identities msg) (base_data msg)) auth eh = Inr (peer # w)"
    using w(1) by (simp add: serialize_with_identity make_xmessage_self)
  moreover from message_roundtrip [of J eh "make_xmessage (peer # identities msg) (base_data msg)"] assms this
  have "deserialize J (peer # w) auth = Inr (make_xmessage (peer # identities msg) (base_data msg))"
    by simp
  moreover have "w \<noteq> []" using w(2) by (auto simp: deserialize_def deserialize_zmq_id_def)
  ultimately show thesis using w that by blast
qed

end

text \<open>What is on the wire when a request is answered by \<open>data\<close> under the identities it has at the server.\<close>

lemma request_and_answer:
  assumes "make_xauthentication M hex_string scheme key = Inr auth" "DELIMITER \<notin> set (peer # identities request)"
    "reads_back_parts J eh request" "reads_back_parts J eh' (data :: 'j xmessage_base_data)"
  obtains w w' where "serialize J request auth eh = Inr w" "w \<noteq> []"
    "deserialize J (peer # w) auth = Inr (make_xmessage (peer # identities request) (base_data request))"
    "serialize J (make_xmessage (peer # identities request) data) auth eh' = Inr (peer # w')" "w' \<noteq> []"
    "deserialize J w' auth = Inr (make_xmessage (identities request) data)"
proof -
  have A: "authenticator auth" using assms(1) by (rule make_xauthentication_authenticator)
  obtain w where w: "serialize J request auth eh = Inr w" "w \<noteq> []"
      "deserialize J (peer # w) auth = Inr (make_xmessage (peer # identities request) (base_data request))"
    using authenticator.message_forms [OF A assms(3,2)] by metis
  let ?reply = "make_xmessage (identities request) data"
  have "reads_back_parts J eh' ?reply"
    using assms(4) reads_back_make [of J eh' "identities request" data] by (simp add: base_data_same)
  from authenticator.message_forms [OF A this, of peer] assms(2) obtain w' where
    "w' \<noteq> []" "deserialize J w' auth = Inr ?reply"
      "serialize J (make_xmessage (peer # identities request) data) auth eh' = Inr (peer # w')"
    by (auto simp: base_data_make)
  with w that show thesis by blast
qed

lemma client_sends:
  assumes "serialize (cl_json cenv) msg (cl_auth cenv) (cl_error_handler cenv) = Inr w" "w \<noteq> []"
  shows "client_send s cenv msg cst = (Inr (), cst\<lparr>cl_net := (cl_net cst)\<lparr>outbox := outbox (cl_net cst) @ [(s, w)]\<rparr>\<rparr>)"
  using assms by (simp add: client_send_def dealer_send_message_def seq_def prog_simps on_cl_eval net_send_def)

lemma client_receives:
  assumes "deserialize (cl_json cenv) w (cl_auth cenv) = Inr msg" "inbox (cl_net cst) s = []"
  shows "\<exists>cst'. seq (on_cl (modify (arrive [(s, w)]))) (\<lambda>_. client_receive s cenv True) cst = (Inr (Some msg), cst')"
  using assms by (simp add: client_receive_def dealer_receive_message_def seq_def prog_simps on_cl_eval net_recv_def arrive_def)

text \<open>
  C7. A client's request reaches the kernel and the reply comes back: what the client sends on the
  shell channel is handed to the kernel's shell listener as the same message with the client's routing
  identity in front of its identities; the reply the listener sends, under those
  identities, is routed back, and the client receives it as the kernel made it, with the
  request's own identities. ZeroMQ's router puts the identity of a peer in front of what it receives from it and
  takes it off what it sends to it.
\<close>

theorem request_is_answered:
  assumes "make_xauthentication M hex_string scheme key = Inr auth"
    "p_auth env = auth" "cl_auth cenv = auth" "env_json env = cl_json cenv"
    "DELIMITER \<notin> set (peer # identities request)"
    "reads_back_parts (cl_json cenv) (cl_error_handler cenv) request"
    "request' = make_xmessage (peer # identities request) (base_data request)"
    "shell_listener env = (\<lambda>msg. split_send_shell env (make_xmessage (identities msg) (answer msg)))"
    "reads_back_parts (cl_json cenv) (m_error_handler env) (answer request')"
    "inbox (sp_shell sv) Sh_shell = []" "inbox (cl_net cst) Cl_shell = []"
  shows "\<exists>w cst' w' sv' cst''.
    send_on_shell cenv request cst = (Inr (), cst') \<and>
    outbox (cl_net cst') = outbox (cl_net cst) @ [(Cl_shell, w)] \<and>
    shell_turn env (Poll_arrivals [(Sh_shell, peer # w)]) sv = (Inr Running, sv') \<and>
    sp_notified sv' = sp_notified sv @ [(SHELL, request')] \<and>
    outbox (sp_shell sv') = outbox (sp_shell sv) @ [(Sh_shell, peer # w')] \<and>
    seq (on_cl (modify (arrive [(Cl_shell, w')]))) (\<lambda>_. receive_on_shell cenv True) cst' =
      (Inr (Some (make_xmessage (identities request) (answer request'))), cst'')"
proof -
  let ?reply = "make_xmessage (identities request) (answer request')"
  obtain w w' where w: "serialize (cl_json cenv) request auth (cl_error_handler cenv) = Inr w" "w \<noteq> []"
      "deserialize (cl_json cenv) (peer # w) auth = Inr request'"
    and w': "serialize (cl_json cenv) (make_xmessage (peer # identities request) (answer request')) auth (m_error_handler env)
        = Inr (peer # w')" "w' \<noteq> []" "deserialize (cl_json cenv) w' auth = Inr ?reply"
    using request_and_answer [OF assms(1,5,6,9)] assms(7) by metis
  note sent = client_sends [OF w(1,2) [folded assms(3)], where s = Cl_shell and cst = cst, folded send_on_shell_def]
  define n where n: "n = arrive [(Sh_shell, peer # w)] (sp_shell sv)"
  have read: "inbox n Sh_shell = (peer # w) # []" using assms(10) by (simp add: n)
  have "split_deserialize env (peer # w) = Inr (Some request')"
    using w(3) assms(2,4) by (simp add: split_deserialize_def)
  moreover have "identities request' = peer # identities request" using assms(7) by simp
  ultimately have "\<exists>sv'. shell_turn env (Poll_arrivals [(Sh_shell, peer # w)]) sv = (Inr Running, sv') \<and>
      sp_notified sv' = sp_notified sv @ [(SHELL, request')] \<and>
      outbox (sp_shell sv') = outbox n @ [(Sh_shell, peer # w')]"
    using w' assms(2,4,8) unfolding shell_turn_shell_eq [OF n read]
    by (simp add: seq_def prog_simps notify_shell_listener_def split_send_shell_def on_shell_eval net_send_def read_from_def)
  then obtain sv' where sv': "shell_turn env (Poll_arrivals [(Sh_shell, peer # w)]) sv = (Inr Running, sv')"
      "sp_notified sv' = sp_notified sv @ [(SHELL, request')]"
      "outbox (sp_shell sv') = outbox (sp_shell sv) @ [(Sh_shell, peer # w')]" by (auto simp: n)
  obtain cst'' where "seq (on_cl (modify (arrive [(Cl_shell, w')]))) (\<lambda>_. receive_on_shell cenv True)
      (cst\<lparr>cl_net := (cl_net cst)\<lparr>outbox := outbox (cl_net cst) @ [(Cl_shell, w)]\<rparr>\<rparr>) = (Inr (Some ?reply), cst'')"
    using client_receives [OF w'(3) [folded assms(3)], where s = Cl_shell, folded receive_on_shell_def] assms(11) by fastforce
  with sent sv' show ?thesis by (intro exI conjI) (assumption | simp)+
qed

section \<open>Published messages\<close>

fun publish_all :: "'j split_env \<Rightarrow> 'j xpub_message list \<Rightarrow> ('j split_server, unit) prog" where
  "publish_all env [] = ret ()"
| "publish_all env (m # ms) = seq (split_publish env m SHELL) (\<lambda>_. publish_all env ms)"

lemma publish_all_run:
  assumes "\<forall>m \<in> set msgs. serialize_iopub (env_json env) m (p_auth env) (m_error_handler env) = Inr (wire m) \<and> wire m \<noteq> []"
  shows "\<exists>sv'. publish_all env msgs sv = (Inr (), sv') \<and>
    outbox (sp_shell sv') = outbox (sp_shell sv) @ map (\<lambda>m. (Sh_publisher_pub, wire m)) msgs"
  using assms
proof (induction msgs arbitrary: sv)
  case (Cons m msgs)
  let ?sv = "sv\<lparr>sp_shell := (sp_shell sv)\<lparr>outbox := outbox (sp_shell sv) @ [(Sh_publisher_pub, wire m)]\<rparr>\<rparr>"
  have "split_publish env m SHELL sv = (Inr (), ?sv)"
    using Cons.prems by (simp add: split_publish_def seq_def prog_simps on_shell_eval net_send_def)
  with Cons.IH [of ?sv] Cons.prems show ?case by (auto simp: seq_def)
qed (simp add: prog_simps)

lemma subseq_concat_map: "subseq xs ys \<Longrightarrow> subseq (concat (map f xs)) (concat (map f ys))"
  by (induction rule: list_emb.induct) (auto intro: list_emb_append_mono list_emb_append2)

text \<open>What the publisher sends to the subscribers: what it has forwarded, and welcome messages.\<close>

lemma forwarded_in_order:
  assumes "\<forall>w \<in> set (on_socket Pub_listener ms). w \<noteq> []"
  shows "subseq (on_socket Pub_listener ms) (on_socket Pub_publisher (responses (publisher_respond J make_header cb) ms))"
    and "on_socket Pub_publisher ms = [] \<Longrightarrow>
      on_socket Pub_publisher (responses (publisher_respond J make_header cb) ms) = on_socket Pub_listener ms"
    and "set (on_socket Pub_publisher (responses (publisher_respond J make_header cb) ms)) \<subseteq>
      set (on_socket Pub_listener ms) \<union> {w. \<exists>tpc. welcome_message J make_header cb tpc = Inr w}"
  using assms
proof (induction ms)
  case (Cons x ms)
  obtain s m where x: "x = (s, m)" by fastforce
  have other: "on_socket Pub_publisher (publisher_respond J make_header cb Pub_publisher m) = [] \<or>
      (\<exists>tpc w. welcome_message J make_header cb tpc = Inr w \<and>
        on_socket Pub_publisher (publisher_respond J make_header cb Pub_publisher m) = [w])"
    by (cases "(J, make_header, cb, Pub_publisher, m)" rule: publisher_respond.cases)
      (auto simp: sends_def split: sum.split)
  {
    case 1
    then show ?case using Cons.IH(1) x by (cases s) (auto simp: sends_def intro: list_emb_append2)
  next
    case 2
    then show ?case using Cons.IH(2) x by (cases s) (auto simp: sends_def)
  next
    case 3
    then show ?case using Cons.IH(3) x other by (cases s) (auto simp: sends_def)
  }
qed simp_all

lemma on_socket_mem: "(s, m) \<in> set ms \<Longrightarrow> m \<in> set (on_socket s ms)"
  by (induction ms) auto

definition iopub_messages :: "'j json_api \<Rightarrow> xauthentication \<Rightarrow> multipart \<Rightarrow> 'j xpub_message list" where
  "iopub_messages J auth w = (case deserialize_iopub J w auth of Inr msg \<Rightarrow> [msg] | Inl f \<Rightarrow> [])"

lemma iopub_notes: "concat (map (iopub_note J auth) ms) = concat (map (iopub_messages J auth) (on_socket Io_iopub ms))"
  by (induction ms) (auto simp: iopub_messages_def split: iopub_socket.splits if_splits)


definition answering_env :: "jv split_env" where
  "answering_env = quiet_split_env\<lparr>shell_listener := \<lambda>msg. split_send_shell quiet_split_env
     (make_xmessage (identities msg) (base_data msg))\<rparr>"

theorem request_is_answered_witness:
  "\<exists>w cst' w' sv' cst''.
    send_on_shell quiet_client_env sample_message
      \<lparr>cl_net = empty_net, cl_iopub = \<lparr>io_net = empty_net, m_message_queue = []\<rparr>, client_notified = []\<rparr> = (Inr (), cst') \<and>
    shell_turn answering_env (Poll_arrivals [(Sh_shell, ''peer'' # w)]) fresh_split = (Inr Running, sv') \<and>
    outbox (sp_shell sv') = [(Sh_shell, ''peer'' # w')] \<and>
    seq (on_cl (modify (arrive [(Cl_shell, w')]))) (\<lambda>_. receive_on_shell quiet_client_env True) cst' =
      (Inr (Some sample_message), cst'')"
proof -
  let ?cst = "\<lparr>cl_net = empty_net, cl_iopub = \<lparr>io_net = empty_net, m_message_queue = []\<rparr>, client_notified = []\<rparr> :: jv client"
  have env: "p_auth answering_env = no_xauthentication" "cl_auth quiet_client_env = no_xauthentication"
    "env_json answering_env = sample_json" "cl_json quiet_client_env = sample_json"
    "DELIMITER \<notin> set (''peer'' # identities sample_message)"
    "shell_listener answering_env = (\<lambda>msg. split_send_shell answering_env (make_xmessage (identities msg) (base_data msg)))"
    by (simp_all add: answering_env_def quiet_split_env_def quiet_client_env_def sample_message_def DELIMITER_def
        split_send_shell_def)
  have idle: "inbox (sp_shell fresh_split) Sh_shell = []" "outbox (sp_shell fresh_split) = []"
    "inbox (cl_net ?cst) Cl_shell = []" by (simp_all add: fresh_split_def empty_net_def)
  have returned: "reads_back_parts sample_json eh sample_message" for eh by (rule sample_message_reads_back)
  have xauth: "make_xauthentication echo_mac id ''none'' ''k'' = Inr no_xauthentication"
    by (simp add: make_xauthentication_def)
  have same: "env_json answering_env = cl_json quiet_client_env" by (simp add: env)
  let ?request' = "make_xmessage (''peer'' # identities sample_message) (base_data sample_message)"
  have request: "reads_back_parts (cl_json quiet_client_env) (cl_error_handler quiet_client_env) sample_message"
    "reads_back_parts (cl_json quiet_client_env) (m_error_handler answering_env) (base_data ?request')"
    using returned by (simp_all add: env reads_back_base)
  have reply: "make_xmessage (identities sample_message) (base_data ?request') = sample_message"
    by (simp only: base_data_make make_xmessage_self)
  obtain w cst' w' sv' cst'' where
    "send_on_shell quiet_client_env sample_message ?cst = (Inr (), cst')"
    "shell_turn answering_env (Poll_arrivals [(Sh_shell, ''peer'' # w)]) fresh_split = (Inr Running, sv')"
    "outbox (sp_shell sv') = [(Sh_shell, ''peer'' # w')]"
    "seq (on_cl (modify (arrive [(Cl_shell, w')]))) (\<lambda>_. receive_on_shell quiet_client_env True) cst' =
      (Inr (Some sample_message), cst'')"
    using request_is_answered [OF xauth env(1,2) same env(5) request(1) refl env(6) request(2) idle(1,3),
        unfolded idle(2) reply append_Nil] by blast
  then show ?thesis by blast
qed

definition sample_news :: "jv xpub_message list" where
  "sample_news = [make_xpub_message ''t'' (base_data sample_message), make_xpub_message ''u'' (base_data sample_message)]"

definition news_wire :: "string \<Rightarrow> multipart" where
  "news_wire tpc = [tpc, DELIMITER, [], ''H'', ''{}'', ''{}'', ''{}'', ''b1'', ''b2'']"

lemma news_read_back: "\<forall>m \<in> set sample_news. reads_back_parts sample_json (m_error_handler quiet_split_env) m"
  by (simp add: sample_news_def reads_back_parts_def json_reads_back_def sample_json_def sample_message_def
      make_xpub_message_def base_data_def)

lemma news_sent:
  "\<exists>sv'. publish_all quiet_split_env sample_news fresh_split = (Inr (), sv') \<and>
     on_socket Sh_publisher_pub (outbox (sp_shell sv')) = [news_wire ''t'', news_wire ''u'']"
  by (simp add: sample_news_def split_publish_def seq_def prog_simps on_shell_eval net_send_def serialize_iopub_def
      serialize_topic_def serialize_message_base_def quiet_split_env_def sample_json_def make_xpub_message_def base_data_def
      sample_message_def no_xauthentication_eq news_wire_def fresh_split_def empty_net_def)

lemma news_forwarded:
  "\<exists>n. publisher_run sample_json make_header cb
      [Poll_arrivals [(Pub_listener, news_wire ''t''), (Pub_listener, news_wire ''u'')], Poll_arrivals []] empty_net = (Inr Running, n) \<and>
    inbox n Pub_listener = [] \<and> on_socket Pub_publisher (outbox n) = [news_wire ''t'', news_wire ''u'']"
  by (simp add: publisher_run_def publisher_turn_def seq_def prog_simps net_recv_def net_send_def readable_def
      empty_net_def arrive_def news_wire_def)

lemma news_collected:
  "\<exists>st. iopub_run sample_json no_xauthentication
      [Poll_arrivals [(Io_iopub, news_wire ''t'')], Poll_arrivals [(Io_iopub, news_wire ''u'')]]
      \<lparr>io_net = empty_net, m_message_queue = []\<rparr> = (Inr Running, st) \<and> inbox (io_net st) Io_iopub = []"
  by (simp add: iopub_run_def iopub_turn_def seq_def prog_simps try_catch_def on_io_def zoom_def net_recv_def net_send_def
      readable_def empty_net_def arrive_def news_wire_def deserialize_iopub_def deserialize_topic_def
      deserialize_message_base_parts no_xauthentication_eq sample_json_def)


section \<open>A stop overtakes published messages\<close>

text \<open>
  C34. A stop can overtake what was published before it: when the publisher's poll finds the stop
  message of the control channel together with messages the kernel published earlier, the
  thread forwards the first of them to the subscribers and ends; the others are never read,
  however many they are.
\<close>

theorem stop_drops_published:
  assumes "make_xauthentication M hex_string scheme key = Inr auth" "p_auth env = auth" "env_json env = J"
    "\<forall>m \<in> set (msg # msgs). reads_back_parts J (m_error_handler env) m"
    "on_socket Sh_publisher_pub (outbox (sp_shell sv)) = []"
  shows "\<exists>sv' w n. publish_all env (msg # msgs) sv = (Inr (), sv') \<and>
    publisher_run J make_header (split_publisher_cb env)
      (Poll_arrivals (map (Pair Pub_listener) (on_socket Sh_publisher_pub (outbox (sp_shell sv'))) @
        [(Pub_controller, [''stop''])]) # ps) empty_net = (Inr Stopped, n) \<and>
    on_socket Pub_publisher (outbox n) = [w] \<and> deserialize_iopub J w auth = Inr msg \<and>
    length (inbox n Pub_listener) = length msgs"
proof -
  have "authenticator auth" using assms(1) by (rule make_xauthentication_authenticator)
  then have "\<forall>m \<in> set (msg # msgs). \<exists>w. serialize_iopub J m auth (m_error_handler env) = Inr w \<and>
      w \<noteq> [] \<and> deserialize_iopub J w auth = Inr m"
    using assms(4) authenticator.pub_message_wire by blast
  then obtain wire where wire: "\<forall>m \<in> set (msg # msgs). serialize_iopub J m auth (m_error_handler env) = Inr (wire m) \<and>
      wire m \<noteq> [] \<and> deserialize_iopub J (wire m) auth = Inr m" by metis
  from publish_all_run [of "msg # msgs" env wire sv] wire assms(2,3) obtain sv' where
    sv': "publish_all env (msg # msgs) sv = (Inr (), sv')"
      "outbox (sp_shell sv') = outbox (sp_shell sv) @ map (Pair Sh_publisher_pub) (map wire (msg # msgs))"
    by (auto simp: comp_def)
  let ?batch = "map (Pair Pub_listener) (map wire (msg # msgs)) @ [(Pub_controller, [''stop''])]"
  have sent: "on_socket Sh_publisher_pub (outbox (sp_shell sv')) = map wire (msg # msgs)"
    using sv'(2) assms(5) by (simp only: on_socket_simps on_socket_tagged) simp
  have "inbox empty_net Pub_listener @ on_socket Pub_listener ?batch = wire msg # map wire msgs"
    "inbox empty_net Pub_controller @ on_socket Pub_controller ?batch = [''stop''] # []"
    by (simp_all only: on_socket_simps on_socket_tagged) (simp_all add: empty_net_def)
  from publisher_stops_after_one [OF this(1) _ this(2), of J make_header "split_publisher_cb env" ps] wire
  obtain n where "publisher_run J make_header (split_publisher_cb env) (Poll_arrivals ?batch # ps) empty_net = (Inr Stopped, n)"
    "outbox n = [(Pub_publisher, wire msg), (Pub_controller, [''stop''])]" "inbox n Pub_listener = map wire msgs"
    by (auto simp: empty_net_def)
  with wire show ?thesis using sv'(1) unfolding sent [symmetric] by auto
qed

theorem stop_drops_published_witness:
  "\<exists>sv' w n. publish_all quiet_split_env sample_news fresh_split = (Inr (), sv') \<and>
    publisher_run sample_json (\<lambda>a b c. JStr a) (split_publisher_cb quiet_split_env)
      (Poll_arrivals (map (Pair Pub_listener) (on_socket Sh_publisher_pub (outbox (sp_shell sv'))) @
        [(Pub_controller, [''stop''])]) # [Poll_arrivals []]) empty_net = (Inr Stopped, n) \<and>
    on_socket Pub_publisher (outbox n) = [w] \<and> length (inbox n Pub_listener) = 1"
proof -
  have "make_xauthentication echo_mac id ''none'' ''k'' = Inr no_xauthentication"
    by (simp add: make_xauthentication_def)
  moreover have "p_auth quiet_split_env = no_xauthentication" "env_json quiet_split_env = sample_json"
    by (simp_all add: quiet_split_env_def)
  moreover note news_read_back
  moreover have "on_socket Sh_publisher_pub (outbox (sp_shell fresh_split)) = []"
    by (simp add: fresh_split_def empty_net_def)
  ultimately show ?thesis
    unfolding sample_news_def
    using stop_drops_published [of echo_mac id "''none''" "''k''" no_xauthentication quiet_split_env sample_json
        "hd sample_news" "tl sample_news" fresh_split "\<lambda>a b c. JStr a" "[Poll_arrivals []]"]
    by (auto simp: sample_news_def)
qed

section \<open>A shutdown\<close>

text \<open>Once a control message has stopped the control thread, every thread of the server can end.\<close>

lemma stopped_turn_finishes:
  assumes "split_kernel_ok env f make_header" "reachable_system env make_header s" "sy_pc s = Serving" "shell_fit env f s"
    "control_turn env (Recv_message m) (sy_server s) = (Inr Stopped, srv)" "sp_shell srv = sp_shell (sy_server s)"
  obtains s' s'' where "sy_server s' = srv" "sy_pc s' = Ask 0" "system_step env make_header s s'"
    "(system_step env make_header)\<^sup>*\<^sup>* s' s''" "sy_pc s'' = Finished" "\<forall>j < 3. \<not> sy_running s'' j"
proof -
  let ?s = "s\<lparr>sy_server := srv, sy_pc := Ask 0\<rparr>"
  have step: "system_step env make_header s ?s"
    using runner_step_control [OF assms(3,5), where make_header = make_header] by simp
  with assms(2) have "(system_step env make_header)\<^sup>*\<^sup>* initial_system ?s" by (simp add: reachable_system_def)
  moreover have "shell_fit env f ?s" using assms(4,6) by (simp add: runner_fit_def)
  ultimately obtain s'' where
    "(system_step env make_header)\<^sup>*\<^sup>* ?s s''" "sy_pc s'' = Finished" "\<forall>j < 3. \<not> sy_running s'' j"
    using default_runner.runner_stop_completes [OF assms(1), of ?s 0] by auto
  with step that [of ?s s''] show thesis by simp
qed

text \<open>
  C9. A shutdown from the client's call to the end of the server: what the client sends on the control
  channel, while the split server is serving, is handed to the kernel's control listener as the same message with
  the client's routing identity; the listener replies and stops the server; the control thread then
  stops the channels, which can always be completed, so that in the end no thread runs; and the client receives the reply
  as the kernel made it.
\<close>

theorem shutdown_stops_server:
  assumes "make_xauthentication M hex_string scheme key = Inr auth"
    "p_auth env = auth" "cl_auth cenv = auth" "env_json env = cl_json cenv"
    "DELIMITER \<notin> set (peer # identities request)"
    "reads_back_parts (cl_json cenv) (cl_error_handler cenv) request"
    "request' = make_xmessage (peer # identities request) (base_data request)"
    "control_listener env = (\<lambda>msg. seq (split_send_control env (make_xmessage (identities msg) (answer msg))) (\<lambda>_. runner_stop_impl))"
    "reads_back_parts (cl_json cenv) (m_error_handler env) (answer request')"
    and system: "split_kernel_ok env f make_header" "reachable_system env make_header s" "sy_pc s = Serving" "shell_fit env f s"
      "inbox (sp_control (sy_server s)) Ct_control = []"
    and "inbox (cl_net cst) Cl_control = []"
  shows "\<exists>w cst' w' s' s'' cst''.
    send_on_control cenv request cst = (Inr (), cst') \<and>
    outbox (cl_net cst') = outbox (cl_net cst) @ [(Cl_control, w)] \<and>
    control_turn env (Recv_message (peer # w)) (sy_server s) = (Inr Stopped, sy_server s') \<and>
    system_step env make_header s s' \<and> sy_pc s' = Ask 0 \<and>
    sp_notified (sy_server s') = sp_notified (sy_server s) @ [(CONTROL, request')] \<and>
    outbox (sp_control (sy_server s')) = outbox (sp_control (sy_server s)) @ [(Ct_control, peer # w')] \<and>
    (system_step env make_header)\<^sup>*\<^sup>* s' s'' \<and> sy_pc s'' = Finished \<and> (\<forall>j < 3. \<not> sy_running s'' j) \<and>
    seq (on_cl (modify (arrive [(Cl_control, w')]))) (\<lambda>_. receive_on_control cenv True) cst' =
      (Inr (Some (make_xmessage (identities request) (answer request'))), cst'')"
proof -
  let ?reply = "make_xmessage (identities request) (answer request')"
  obtain w w' where w: "serialize (cl_json cenv) request auth (cl_error_handler cenv) = Inr w" "w \<noteq> []"
      "deserialize (cl_json cenv) (peer # w) auth = Inr request'"
    and w': "serialize (cl_json cenv) (make_xmessage (peer # identities request) (answer request')) auth (m_error_handler env)
        = Inr (peer # w')" "w' \<noteq> []" "deserialize (cl_json cenv) w' auth = Inr ?reply"
    using request_and_answer [OF assms(1,5,6,9)] assms(7) by metis
  note sent = client_sends [OF w(1,2) [folded assms(3)], where s = Cl_control and cst = cst, folded send_on_control_def]
  have ids: "identities request' = peer # identities request" using assms(7) by simp
  have read: "split_deserialize env (peer # w) = Inr (Some request')"
    using w(3) assms(2,4) by (simp add: split_deserialize_def)
  obtain srv where srv: "control_turn env (Recv_message (peer # w)) (sy_server s) = (Inr Stopped, srv)"
      "sp_notified srv = sp_notified (sy_server s) @ [(CONTROL, request')]"
      "outbox (sp_control srv) = outbox (sp_control (sy_server s)) @ [(Ct_control, peer # w')]"
      "sp_shell srv = sp_shell (sy_server s)"
    using read w' assms(2,4,8) system(5) ids
    by (simp add: control_turn_resolved read_control_def seq_def prog_simps on_control_eval net_recv_def arrive_def
        notify_control_listener_def split_send_control_def net_send_def runner_stop_impl_def)
  obtain s' s'' where stop: "sy_server s' = srv" "sy_pc s' = Ask 0" "system_step env make_header s s'"
    "(system_step env make_header)\<^sup>*\<^sup>* s' s''" "sy_pc s'' = Finished" "\<forall>j < 3. \<not> sy_running s'' j"
    using stopped_turn_finishes [OF system(1-4) srv(1,4)] by blast
  obtain cst'' where "seq (on_cl (modify (arrive [(Cl_control, w')]))) (\<lambda>_. receive_on_control cenv True)
      (cst\<lparr>cl_net := (cl_net cst)\<lparr>outbox := outbox (cl_net cst) @ [(Cl_control, w)]\<rparr>\<rparr>) = (Inr (Some ?reply), cst'')"
    using client_receives [OF w'(3) [folded assms(3)], where s = Cl_control, folded receive_on_control_def] assms(15) by fastforce
  then show ?thesis
    using sent srv(1-3) [folded stop(1)] stop(2-6) by (intro exI conjI) (assumption | simp)+
qed

text \<open>A JSON library that prints every value and reads those of the sample message back.\<close>

definition printing_json :: "jv json_api" where
  "printing_json = (table_json (map (\<lambda>v. (jv_print v, v)) [JObj [], JObj [(''msg_type'', JStr ''status'')]]))
     \<lparr>j_dump := \<lambda>eh v. Inr (jv_print v)\<rparr>"

definition shutdown_env :: "jv split_env" where
  "shutdown_env = (let env = quiet_split_env\<lparr>env_json := printing_json\<rparr>
     in env\<lparr>control_listener := \<lambda>msg. seq (split_send_control env (make_xmessage (identities msg) (base_data msg))) (\<lambda>_. runner_stop_impl)\<rparr>)"

lemma shutdown_kernel_ok: "split_kernel_ok shutdown_env id (\<lambda>msg_type user session. JStr msg_type)"
proof -
  have "shell_listeners shutdown_env id"
    by (simp add: shell_listeners_def shutdown_env_def quiet_split_env_def prog_simps Let_def)
  then show ?thesis
    by (auto simp: split_kernel_ok_def control_side_ok_def shutdown_env_def quiet_split_env_def prog_simps runner_stop_impl_def Let_def
        jv_print_not_stop welcome_message_def split_publisher_cb_def create_xpub_message_def printing_json_def
        make_xpub_message_def serialize_iopub_def serialize_message_base_def split_send_control_def seq_def on_control_eval
        split: sum.splits prod.splits)
qed

lemma printed_message_reads_back: "reads_back_parts printing_json eh sample_message"
  by (simp add: reads_back_parts_def json_reads_back_def printing_json_def sample_message_def quoted_def)

theorem shutdown_stops_server_witness:
  "\<exists>w s' s''. control_turn shutdown_env (Recv_message (''peer'' # w)) (sy_server initial_system) = (Inr Stopped, sy_server s') \<and>
    (system_step shutdown_env (\<lambda>msg_type user session. JStr msg_type))\<^sup>*\<^sup>* s' s'' \<and> sy_pc s'' = Finished"
proof -
  let ?cenv = "quiet_client_env\<lparr>cl_json := printing_json\<rparr>"
  let ?cst = "\<lparr>cl_net = empty_net, cl_iopub = \<lparr>io_net = empty_net, m_message_queue = []\<rparr>, client_notified = []\<rparr> :: jv client"
  let ?s = "initial_system :: jv split_system"
  have env: "make_xauthentication echo_mac id ''none'' ''k'' = Inr no_xauthentication"
    "p_auth shutdown_env = no_xauthentication" "cl_auth ?cenv = no_xauthentication" "env_json shutdown_env = cl_json ?cenv"
    "DELIMITER \<notin> set (''peer'' # identities sample_message)"
    "control_listener shutdown_env =
      (\<lambda>msg. seq (split_send_control shutdown_env (make_xmessage (identities msg) (base_data msg))) (\<lambda>_. runner_stop_impl))"
    by (simp_all add: make_xauthentication_def shutdown_env_def quiet_split_env_def quiet_client_env_def sample_message_def
        DELIMITER_def split_send_control_def Let_def)
  have request: "reads_back_parts (cl_json ?cenv) (cl_error_handler ?cenv) sample_message"
    "reads_back_parts (cl_json ?cenv) (m_error_handler shutdown_env)
       (base_data (make_xmessage (''peer'' # identities sample_message) (base_data sample_message)))"
    using printed_message_reads_back by (simp_all add: reads_back_base)
  have system: "reachable_system shutdown_env (\<lambda>msg_type user session. JStr msg_type) ?s" "sy_pc ?s = Serving"
    "shell_fit shutdown_env id ?s" "inbox (sp_control (sy_server ?s)) Ct_control = []" "inbox (cl_net ?cst) Cl_control = []"
    by (simp_all add: reachable_system_def initial_system_def runner_fit_def inbox_ok_def empty_net_def)
  from shutdown_stops_server [OF env(1-5) request(1) refl env(6) request(2) shutdown_kernel_ok system]
  show ?thesis by blast
qed

end
