(* ===== verification/Server_Api.thy ===== *)
theory Server_Api
  imports Server_Split
begin

text \<open>
  The servers as the kernel sees them: the virtual methods that
  \<^verbatim>\<open>src/server/xserver_zmq.cpp\<close> and \<^verbatim>\<open>src/server/xserver_zmq_split.cpp\<close> implement, kernels that
  call them from their listeners, and the agreement of the servers: a kernel whose handlers are
  functions of the message makes all of them send the same.
\<close>

section \<open>The virtual methods of a server\<close>

text \<open>
  Answers from other threads and processes are arguments: what arrives on the stdin socket
  while a reply to an input request is waited for, and on the messenger's sockets. The queue is aborted
  with fuel.
\<close>

record ('j, 'st) xserver =
  xs_control_messenger :: "'j \<Rightarrow> (messenger_socket \<times> multipart) list \<Rightarrow> ('st, 'j) prog"
  xs_send_shell :: "'j xmessage \<Rightarrow> ('st, unit) prog"
  xs_send_control :: "'j xmessage \<Rightarrow> ('st, unit) prog"
  xs_send_stdin :: "'j xmessage \<Rightarrow> multipart list \<Rightarrow> ('st, unit) prog"
  xs_publish :: "'j xpub_message \<Rightarrow> channel \<Rightarrow> ('st, unit) prog"
  xs_stop :: "('st, unit) prog"
  xs_abort_queue :: "nat \<Rightarrow> ('j xmessage \<Rightarrow> ('st, unit) prog) \<Rightarrow> ('st, bool) prog"

definition xserver_zmq :: "'j default_env \<Rightarrow> ('j, 'j server) xserver" where
  "xserver_zmq env = \<lparr>
     xs_control_messenger = (\<lambda>message _. control_messenger env message),
     xs_send_shell = send_shell env,
     xs_send_control = send_control env,
     xs_send_stdin = (\<lambda>msg reply. send_stdin_impl env msg (map (Pair Sv_stdin) reply)),
     xs_publish = publish env,
     xs_stop = stop_impl,
     xs_abort_queue = (\<lambda>fuel l. abort_queue fuel env l)\<rparr>"

definition xserver_zmq_split :: "'j split_env \<Rightarrow> ('j, 'j split_server) xserver" where
  "xserver_zmq_split env = (let p_impl = split_impl env in \<lparr>
     xs_control_messenger = si_get_control_messenger p_impl,
     xs_send_shell = sa_send_shell_message (runner_api env),
     xs_send_control = sa_send_control_message (runner_api env),
     xs_send_stdin = (\<lambda>msg reply. split_send_stdin_impl env msg (map (Pair Sh_stdin) reply)),
     xs_publish = si_publish p_impl,
     xs_stop = runner_stop_impl,
     xs_abort_queue = si_abort_queue p_impl\<rparr>)"

lemma xserver_zmq_split_resolved:
  "xserver_zmq_split env = \<lparr>
     xs_control_messenger = split_control_messenger env,
     xs_send_shell = split_send_shell env,
     xs_send_control = split_send_control env,
     xs_send_stdin = (\<lambda>msg reply. split_send_stdin_impl env msg (map (Pair Sh_stdin) reply)),
     xs_publish = split_publish env,
     xs_stop = runner_stop_impl,
     xs_abort_queue = (\<lambda>fuel l. split_abort_queue fuel env l)\<rparr>"
  by (simp add: xserver_zmq_split_def runner_api_def split_impl_def Let_def)

section \<open>Kernels\<close>

text \<open>
  What a kernel does with a message: it replies on the channel the message came from, publishes,
  asks the user for input, with the reply that will come, and stops the server. The
  handlers are functions of the message.
\<close>

datatype 'j action = Reply "'j xmessage" | Publish "'j xpub_message" | Stop

datatype 'j call = Act "'j action" | Input "'j xmessage" multipart

record 'j kernel =
  handle_shell :: "'j xmessage \<Rightarrow> 'j call list"
  handle_control :: "'j xmessage \<Rightarrow> 'j action list"
  handle_stdin :: "'j xmessage \<Rightarrow> 'j action list"

fun run_action :: "('j, 'st) xserver \<Rightarrow> channel \<Rightarrow> 'j action \<Rightarrow> ('st, unit) prog" where
  "run_action V c (Reply m) = (if c = SHELL then xs_send_shell V m else xs_send_control V m)"
| "run_action V c (Publish m) = xs_publish V m c"
| "run_action V c Stop = xs_stop V"

fun run_call :: "('j, 'st) xserver \<Rightarrow> 'j call \<Rightarrow> ('st, unit) prog" where
  "run_call V (Act a) = run_action V SHELL a"
| "run_call V (Input m reply) = xs_send_stdin V m [reply]"

fun run_all :: "('a \<Rightarrow> ('st, unit) prog) \<Rightarrow> 'a list \<Rightarrow> ('st, unit) prog" where
  "run_all f [] = ret ()"
| "run_all f (x # xs) = seq (f x) (\<lambda>_. run_all f xs)"

text \<open>The environment of a server on which the kernel has registered its listeners.\<close>

definition stdin_env :: "'j json_api \<Rightarrow> xauthentication \<Rightarrow> error_handler \<Rightarrow> ('j xmessage \<Rightarrow> ('st, unit) prog)
    \<Rightarrow> ('j, 'st) server_env" where
  "stdin_env J auth eh l = \<lparr>env_json = J, p_auth = auth, m_error_handler = eh, shell_listener = (\<lambda>msg. ret ()),
     control_listener = (\<lambda>msg. ret ()), stdin_listener = l, internal_listener = ret\<rparr>"

definition stdin_handler :: "(('j xmessage \<Rightarrow> ('st, unit) prog) \<Rightarrow> ('j, 'st) xserver) \<Rightarrow> 'j kernel
    \<Rightarrow> 'j xmessage \<Rightarrow> ('st, unit) prog" where
  "stdin_handler W K msg = run_all (run_action (W (\<lambda>msg. ret ())) SHELL) (handle_stdin K msg)"

definition kernel_env :: "(('j, 'st) server_env \<Rightarrow> ('j, 'st) xserver) \<Rightarrow> 'j json_api \<Rightarrow> xauthentication
    \<Rightarrow> error_handler \<Rightarrow> 'j kernel \<Rightarrow> ('j, 'st) server_env" where
  "kernel_env cls J auth eh K =
     (let W = \<lambda>l. cls (stdin_env J auth eh l); l = stdin_handler W K
      in (stdin_env J auth eh l)\<lparr>
           shell_listener := \<lambda>msg. run_all (run_call (W l)) (handle_shell K msg),
           control_listener := \<lambda>msg. run_all (run_action (W l) CONTROL) (handle_control K msg)\<rparr>)"

section \<open>What a kernel's calls put on the wire\<close>

datatype port = Reply_port | Stdin_port | Iopub_port

fun all_out :: "('a \<Rightarrow> 'b list res) \<Rightarrow> 'a list \<Rightarrow> 'b list res" where
  "all_out f [] = Inr []"
| "all_out f (x # xs) = rbind (f x) (\<lambda>out. rbind (all_out f xs) (\<lambda>outs. Inr (out @ outs)))"

fun action_out :: "'j json_api \<Rightarrow> xauthentication \<Rightarrow> error_handler \<Rightarrow> 'j action \<Rightarrow> (port \<times> multipart) list res" where
  "action_out J auth eh (Reply m) = rbind (serialize J m auth eh) (\<lambda>w. Inr [(Reply_port, w)])"
| "action_out J auth eh (Publish m) = rbind (serialize_iopub J m auth eh) (\<lambda>w. Inr [(Iopub_port, w)])"
| "action_out J auth eh Stop = Inr []"

fun call_out :: "'j json_api \<Rightarrow> xauthentication \<Rightarrow> error_handler \<Rightarrow> 'j kernel \<Rightarrow> 'j call
    \<Rightarrow> (port \<times> multipart) list res" where
  "call_out J auth eh K (Act a) = action_out J auth eh a"
| "call_out J auth eh K (Input m reply) =
     rbind (serialize J m auth eh) (\<lambda>w.
     rbind (case deserialize J reply auth of
              Inr rep \<Rightarrow> all_out (action_out J auth eh) (handle_stdin K rep)
            | Inl (Throws e) \<Rightarrow> Inr []
            | Inl f \<Rightarrow> Inl f) (\<lambda>outs.
     Inr ((Stdin_port, w) # outs)))"

definition handler_out :: "'j json_api \<Rightarrow> xauthentication \<Rightarrow> error_handler \<Rightarrow> 'j kernel \<Rightarrow> channel
    \<Rightarrow> 'j xmessage \<Rightarrow> (port \<times> multipart) list res" where
  "handler_out J auth eh K c msg = (case c of
      SHELL \<Rightarrow> all_out (call_out J auth eh K) (handle_shell K msg)
    | CONTROL \<Rightarrow> all_out (action_out J auth eh) (handle_control K msg))"

text \<open>The replies the kernel's calls wait for.\<close>

fun replies_of :: "'j call list \<Rightarrow> multipart list" where
  "replies_of [] = []"
| "replies_of (Act a # cs) = replies_of cs"
| "replies_of (Input m reply # cs) = reply # replies_of cs"

section \<open>The contract of a server's channel\<close>

text \<open>
  \<open>W l\<close> is the server with stdin listener \<open>l\<close>; \<open>emit\<close> and \<open>halt\<close> are what sending messages
  and requesting the stop do to its state.
\<close>

locale server_channel =
  fixes W :: "('j xmessage \<Rightarrow> ('st, unit) prog) \<Rightarrow> ('j, 'st) xserver" and c :: channel
    and emit :: "(port \<times> multipart) list \<Rightarrow> 'st \<Rightarrow> 'st" and halt :: "'st \<Rightarrow> 'st"
    and J :: "'j json_api" and auth :: xauthentication and eh :: error_handler
  assumes reply: "run_action (W l) c (Reply m) st =
      (case serialize J m auth eh of Inl f \<Rightarrow> (Inl f, st) | Inr w \<Rightarrow> (Inr (), emit [(Reply_port, w)] st))"
    and publish: "run_action (W l) c (Publish p) st =
      (case serialize_iopub J p auth eh of Inl f \<Rightarrow> (Inl f, st) | Inr w \<Rightarrow> (Inr (), emit [(Iopub_port, w)] st))"
    and stop: "run_action (W l) c Stop st = (Inr (), halt st)"
    and emit_nil: "emit [] st = st"
    and emit_append: "emit b (emit a st) = emit (a @ b) st"
    and halt_emit: "halt (emit a st) = emit a (halt st)"
    and halt_idem: "halt (halt st) = halt st"
begin

lemma action_run:
  "run_action (W l) c a st = (Inr (), st') \<longleftrightarrow>
     (\<exists>out. action_out J auth eh a = Inr out \<and> st' = (if a = Stop then halt else id) (emit out st))"
  by (cases a) (auto simp: reply publish stop emit_nil rbind_Inr_iff simp del: run_action.simps split: sum.splits)

lemma actions_run:
  "run_all (run_action (W l) c) as st = (Inr (), st') \<longleftrightarrow>
     (\<exists>out. all_out (action_out J auth eh) as = Inr out \<and>
        st' = (if Stop \<in> set as then halt else id) (emit out st))"
proof (induction as arbitrary: st)
  case Nil
  then show ?case by (auto simp: prog_simps emit_nil)
next
  case (Cons a as)
  show ?case
    by (auto simp: seq_Inr_iff action_run Cons rbind_Inr_iff emit_append halt_emit [symmetric] halt_idem
        split: if_splits)
qed

end

locale stdin_channel = server_channel W SHELL emit halt J auth eh
  for W :: "('j xmessage \<Rightarrow> ('st, unit) prog) \<Rightarrow> ('j, 'st) xserver"
    and emit :: "(port \<times> multipart) list \<Rightarrow> 'st \<Rightarrow> 'st" and halt :: "'st \<Rightarrow> 'st"
    and J :: "'j json_api" and auth :: xauthentication and eh :: error_handler +
  fixes ready :: "'st \<Rightarrow> bool" and asked :: "multipart \<Rightarrow> 'st \<Rightarrow> 'st"
  assumes ask: "ready st \<Longrightarrow> xs_send_stdin (W l) m [r] st =
      (case serialize J m auth eh of
         Inl f \<Rightarrow> (Inl f, st)
       | Inr w \<Rightarrow> (case deserialize J r auth of
           Inr rep \<Rightarrow> l rep (asked r (emit [(Stdin_port, w)] st))
         | Inl (Throws e) \<Rightarrow> (Inr (), asked r (emit [(Stdin_port, w)] st))
         | Inl f \<Rightarrow> (Inl f, asked r (emit [(Stdin_port, w)] st))))"
    and ready_emit: "ready (emit a st) = ready st"
    and ready_asked: "ready (asked r st) = ready st"
    and asked_emit: "asked r (emit a st) = emit a (asked r st)"
begin

text \<open>The calls of a kernel that does not stop the server from its shell and stdin handlers.\<close>

lemma call_run:
  assumes "ready st" "call \<noteq> Act Stop" "\<And>msg. Stop \<notin> set (handle_stdin K msg)"
  shows "run_call (W (stdin_handler W K)) call st = (Inr (), st') \<longleftrightarrow>
    (\<exists>out. call_out J auth eh K call = Inr out \<and> st' = emit out (fold asked (replies_of [call]) st))"
proof (cases call)
  case (Act a)
  with assms(2) show ?thesis by (auto simp: action_run)
next
  case (Input m r)
  show ?thesis
    by (auto simp: Input ask assms actions_run stdin_handler_def rbind_Inr_iff asked_emit emit_append emit_nil
        split: sum.splits fault.splits)
qed

lemma calls_run:
  assumes "ready st" "Act Stop \<notin> set calls" "\<And>msg. Stop \<notin> set (handle_stdin K msg)"
  shows "run_all (run_call (W (stdin_handler W K))) calls st = (Inr (), st') \<longleftrightarrow>
    (\<exists>out. all_out (call_out J auth eh K) calls = Inr out \<and> st' = emit out (fold asked (replies_of calls) st))"
  using assms(1,2)
proof (induction calls arbitrary: st)
  case Nil
  then show ?case by (auto simp: prog_simps emit_nil)
next
  case (Cons call calls)
  have ready: "ready (emit out (fold asked rs st))" for out rs
    using Cons.prems(1) by (induction rs arbitrary: st) (simp_all add: ready_emit ready_asked)
  have move: "fold asked rs (emit out st) = emit out (fold asked rs st)" for out rs st
    by (induction rs arbitrary: st) (simp_all add: asked_emit)
  have split: "replies_of (call # calls) = replies_of [call] @ replies_of calls" by (cases call) simp_all
  show ?case
    using Cons.prems assms(3) Cons.IH [OF ready]
    unfolding split
    by (auto simp: seq_Inr_iff call_run rbind_Inr_iff move emit_append simp del: run_call.simps replies_of.simps(2-))
qed

end

section \<open>The contract holds on every server\<close>

lemma serialized_nonempty:
  "serialize J m auth eh = Inr w \<Longrightarrow> w \<noteq> []" "serialize_iopub J p auth eh = Inr w \<Longrightarrow> w \<noteq> []"
  by (auto simp: serialize_def serialize_iopub_def serialize_topic_def serialize_message_base_def rbind_Inr_iff)

fun default_socket :: "channel \<Rightarrow> port \<Rightarrow> server_socket" where
  "default_socket c Reply_port = channel_socket c"
| "default_socket c Stdin_port = Sv_stdin"
| "default_socket c Iopub_port = Sv_publisher_pub"

fun shell_port :: "port \<Rightarrow> shell_socket" where
  "shell_port Reply_port = Sh_shell"
| "shell_port Stdin_port = Sh_stdin"
| "shell_port Iopub_port = Sh_publisher_pub"

text \<open>The control thread has no stdin socket, and its handlers ask nothing.\<close>

fun control_port :: "port \<Rightarrow> control_socket" where
  "control_port Iopub_port = Ct_publisher_pub"
| "control_port p = Ct_control"

definition net_emit :: "('p \<Rightarrow> 's) \<Rightarrow> ('p \<times> multipart) list \<Rightarrow> 's net \<Rightarrow> 's net" where
  "net_emit sock out n = n\<lparr>outbox := outbox n @ map (apfst sock) out\<rparr>"

definition net_asked :: "'s \<Rightarrow> multipart \<Rightarrow> 's net \<Rightarrow> 's net" where
  "net_asked s r n = n\<lparr>received := received n @ [(s, r)]\<rparr>"

lemma net_emit_simps [simp]:
  "net_emit sock [] n = n" "net_emit sock b (net_emit sock a n) = net_emit sock (a @ b) n"
  "inbox (net_emit sock out n) = inbox n" "received (net_emit sock out n) = received n"
  "outbox (net_emit sock out n) = outbox n @ map (apfst sock) out"
  by (simp_all add: net_emit_def)

lemma net_asked_simps [simp]:
  "inbox (net_asked s r n) = inbox n" "received (net_asked s r n) = received n @ [(s, r)]"
  "outbox (net_asked s r n) = outbox n" "net_asked s r (net_emit sock out n) = net_emit sock out (net_asked s r n)"
  by (simp_all add: net_asked_def net_emit_def)

lemma net_send_emit: "w \<noteq> [] \<Longrightarrow> net_send (sock p) w n = (Inr (), net_emit sock [(p, w)] n)"
  by (simp add: net_send_def net_emit_def)

lemma net_recv_asked:
  assumes "inbox n s = []"
  shows "net_recv s (arrive [(s, r)] n) = (Inr r, net_asked s r n)"
proof -
  have "(inbox (arrive [(s, r)] n))(s := []) = inbox n" using assms by (auto simp: fun_eq_iff)
  then show ?thesis using assms by (simp add: net_recv_def net_asked_def arrive_def)
qed

definition default_emit :: "channel \<Rightarrow> (port \<times> multipart) list \<Rightarrow> 'j server \<Rightarrow> 'j server" where
  "default_emit c out st = st\<lparr>sv_net := net_emit (default_socket c) out (sv_net st)\<rparr>"

definition default_asked :: "multipart \<Rightarrow> 'j server \<Rightarrow> 'j server" where
  "default_asked r st = st\<lparr>sv_net := net_asked Sv_stdin r (sv_net st)\<rparr>"

definition default_halt :: "'j server \<Rightarrow> 'j server" where
  "default_halt st = st\<lparr>m_request_stop := True\<rparr>"

abbreviation default_ready :: "'j server \<Rightarrow> bool" where
  "default_ready st \<equiv> inbox (sv_net st) Sv_stdin = []"

lemmas default_effects = default_emit_def default_asked_def default_halt_def

lemma send_on_emit:
  assumes "s = default_socket c p"
  shows "send_on s env m st = (case serialize (env_json env) m (p_auth env) (m_error_handler env) of
     Inl f \<Rightarrow> (Inl f, st) | Inr w \<Rightarrow> (Inr (), default_emit c [(p, w)] st))"
  by (auto simp: send_on_def seq_def prog_simps on_net_eval default_emit_def assms net_send_emit
      dest: serialized_nonempty split: sum.split)

lemma publish_emit:
  "publish env m c' st = (case serialize_iopub (env_json env) m (p_auth env) (m_error_handler env) of
     Inl f \<Rightarrow> (Inl f, st) | Inr w \<Rightarrow> (Inr (), default_emit c [(Iopub_port, w)] st))"
  using net_send_emit [of _ "default_socket c" Iopub_port]
  by (auto simp: publish_def seq_def prog_simps on_net_eval default_emit_def dest: serialized_nonempty split: sum.split)

lemma default_send_stdin:
  assumes "default_ready st"
  shows "send_stdin_impl env m [(Sv_stdin, r)] st =
    (case serialize (env_json env) m (p_auth env) (m_error_handler env) of
       Inl f \<Rightarrow> (Inl f, st)
     | Inr w \<Rightarrow> (let st' = default_asked r (default_emit SHELL [(Stdin_port, w)] st)
         in case deserialize (env_json env) r (p_auth env) of
              Inr rep \<Rightarrow> stdin_listener env rep st'
            | Inl (Throws e) \<Rightarrow> (Inr (), st')
            | Inl f \<Rightarrow> (Inl f, st')))"
  using assms send_on_emit [of Sv_stdin SHELL Stdin_port env m st]
  by (auto simp: send_stdin_impl_def send_stdin_def seq_def prog_simps on_net_eval net_recv_asked try_catch_def
      default_asked_def default_emit_def Let_def split: sum.split fault.split)

lemma default_channel:
  "server_channel (\<lambda>l. xserver_zmq (stdin_env J auth eh l)) c (default_emit c) default_halt J auth eh"
proof unfold_locales
  fix l m st
  have "run_action (xserver_zmq (stdin_env J auth eh l)) c (Reply m) st
      = send_on (default_socket c Reply_port) (stdin_env J auth eh l) m st"
    by (cases c) (simp_all add: xserver_zmq_def send_shell_def send_control_def)
  then show "run_action (xserver_zmq (stdin_env J auth eh l)) c (Reply m) st =
      (case serialize J m auth eh of Inl f \<Rightarrow> (Inl f, st) | Inr w \<Rightarrow> (Inr (), default_emit c [(Reply_port, w)] st))"
    by (simp only: send_on_emit [OF refl]) (simp add: stdin_env_def)
qed (simp_all add: xserver_zmq_def publish_emit [of _ _ _ _ c] stdin_env_def stop_impl_def set_request_stop_def
       prog_simps default_effects)

interpretation default_control: server_channel "\<lambda>l. xserver_zmq (stdin_env J auth eh l)" CONTROL
    "default_emit CONTROL" default_halt J auth eh for J auth eh
  by (rule default_channel)

interpretation default_shell: stdin_channel "\<lambda>l. xserver_zmq (stdin_env J auth eh l)" "default_emit SHELL"
    default_halt J auth eh default_ready default_asked for J auth eh
  by (intro stdin_channel.intro default_channel stdin_channel_axioms.intro)
    (auto simp: xserver_zmq_def default_send_stdin stdin_env_def default_effects Let_def split: sum.split fault.split)

definition shell_emit :: "(port \<times> multipart) list \<Rightarrow> 'j split_server \<Rightarrow> 'j split_server" where
  "shell_emit out st = st\<lparr>sp_shell := net_emit shell_port out (sp_shell st)\<rparr>"

definition control_emit :: "(port \<times> multipart) list \<Rightarrow> 'j split_server \<Rightarrow> 'j split_server" where
  "control_emit out st = st\<lparr>sp_control := net_emit control_port out (sp_control st)\<rparr>"

definition shell_asked :: "multipart \<Rightarrow> 'j split_server \<Rightarrow> 'j split_server" where
  "shell_asked r st = st\<lparr>sp_shell := net_asked Sh_stdin r (sp_shell st)\<rparr>"

definition split_halt :: "'j split_server \<Rightarrow> 'j split_server" where
  "split_halt st = st\<lparr>runner_request_stop := True\<rparr>"

abbreviation shell_ready :: "'j split_server \<Rightarrow> bool" where
  "shell_ready st \<equiv> inbox (sp_shell st) Sh_stdin = []"

lemmas split_effects = shell_emit_def control_emit_def shell_asked_def split_halt_def

lemmas split_sends = net_send_emit [of _ shell_port Reply_port, simplified]
  net_send_emit [of _ shell_port Stdin_port, simplified] net_send_emit [of _ shell_port Iopub_port, simplified]
  net_send_emit [of _ control_port Reply_port, simplified] net_send_emit [of _ control_port Iopub_port, simplified]

lemma split_control_channel:
  "server_channel (\<lambda>l. xserver_zmq_split (stdin_env J auth eh l)) CONTROL control_emit split_halt J auth eh"
  by unfold_locales
    (auto simp: xserver_zmq_split_resolved split_send_control_def split_publish_def seq_def prog_simps on_control_eval
      split_sends stdin_env_def runner_stop_impl_def split_effects dest: serialized_nonempty split: sum.split)

lemma split_shell_channel:
  "server_channel (\<lambda>l. xserver_zmq_split (stdin_env J auth eh l)) SHELL shell_emit split_halt J auth eh"
  by unfold_locales
    (auto simp: xserver_zmq_split_resolved split_send_shell_def split_publish_def seq_def prog_simps on_shell_eval
      split_sends stdin_env_def runner_stop_impl_def split_effects dest: serialized_nonempty split: sum.split)

lemma split_ask:
  assumes "shell_ready st"
  shows "split_send_stdin_impl env m [(Sh_stdin, r)] st =
    (case serialize (env_json env) m (p_auth env) (m_error_handler env) of
       Inl f \<Rightarrow> (Inl f, st)
     | Inr w \<Rightarrow> (let st' = shell_asked r (shell_emit [(Stdin_port, w)] st)
         in case deserialize (env_json env) r (p_auth env) of
              Inr rep \<Rightarrow> stdin_listener env rep st'
            | Inl (Throws e) \<Rightarrow> (Inr (), st')
            | Inl f \<Rightarrow> (Inl f, st')))"
  using assms
  by (auto simp: split_send_stdin_impl_def split_impl_def split_send_stdin_def seq_def prog_simps on_shell_eval net_recv_asked
      split_sends split_deserialize_eq split_effects Let_def dest: serialized_nonempty split: sum.split fault.split)

interpretation split_control: server_channel "\<lambda>l. xserver_zmq_split (stdin_env J auth eh l)" CONTROL
    control_emit split_halt J auth eh for J auth eh
  by (rule split_control_channel)

interpretation split_shell: stdin_channel "\<lambda>l. xserver_zmq_split (stdin_env J auth eh l)" shell_emit
    split_halt J auth eh shell_ready shell_asked for J auth eh
  by (intro stdin_channel.intro split_shell_channel stdin_channel_axioms.intro)
    (auto simp: xserver_zmq_split_resolved split_ask stdin_env_def split_effects Let_def split: sum.split fault.split)

section \<open>Runs of a kernel on the servers\<close>

lemma kernel_env_simps [simp]:
  "env_json (kernel_env cls J auth eh K) = J" "p_auth (kernel_env cls J auth eh K) = auth"
  "m_error_handler (kernel_env cls J auth eh K) = eh"
  "shell_listener (kernel_env cls J auth eh K) msg =
     run_all (run_call (cls (stdin_env J auth eh (stdin_handler (\<lambda>l. cls (stdin_env J auth eh l)) K)))) (handle_shell K msg)"
  "control_listener (kernel_env cls J auth eh K) msg =
     run_all (run_action (cls (stdin_env J auth eh (stdin_handler (\<lambda>l. cls (stdin_env J auth eh l)) K))) CONTROL)
       (handle_control K msg)"
  by (simp_all add: kernel_env_def stdin_env_def Let_def)

text \<open>The kernel stops the server from its control handler only.\<close>

definition stops_on_control :: "'j kernel \<Rightarrow> bool" where
  "stops_on_control K \<longleftrightarrow> (\<forall>msg. Act Stop \<notin> set (handle_shell K msg) \<and> Stop \<notin> set (handle_stdin K msg))"

text \<open>
  What a run has done, message by message: the channel, the message on the wire, the message
  handed to the kernel, and what its handler put on the wire.
\<close>

type_synonym 'j event = "channel \<times> multipart \<times> 'j xmessage \<times> (port \<times> multipart) list"

fun handled :: "'j json_api \<Rightarrow> xauthentication \<Rightarrow> error_handler \<Rightarrow> 'j kernel \<Rightarrow> 'j event \<Rightarrow> bool" where
  "handled J auth eh K (c, w, msg, out) \<longleftrightarrow>
     deserialize J w auth = Inr msg \<and> handler_out J auth eh K c msg = Inr out"

fun stops :: "'j kernel \<Rightarrow> 'j event \<Rightarrow> bool" where
  "stops K (c, w, msg, out) \<longleftrightarrow> c = CONTROL \<and> Stop \<in> set (handle_control K msg)"

fun note_of_event :: "'j event \<Rightarrow> channel \<times> 'j xmessage" where
  "note_of_event (c, w, msg, out) = (c, msg)"

fun default_outs :: "'j event \<Rightarrow> (server_socket \<times> multipart) list" where
  "default_outs (c, w, msg, out) = map (apfst (default_socket c)) out"

definition events_on :: "channel \<Rightarrow> 'j event list \<Rightarrow> 'j event list" where
  "events_on c = filter (\<lambda>x. fst x = c)"

definition wires_of :: "'j event list \<Rightarrow> multipart list" where
  "wires_of = map (\<lambda>(c, w, msg, out). w)"

definition outs_of :: "'j event list \<Rightarrow> (port \<times> multipart) list" where
  "outs_of tr = concat (map (\<lambda>(c, w, msg, out). out) tr)"

lemma event_list_simps [simp]:
  "events_on c [] = []" "events_on c (x # tr) = (if fst x = c then x # events_on c tr else events_on c tr)"
  "events_on c (tr @ tr') = events_on c tr @ events_on c tr'"
  "wires_of [] = []" "wires_of ((c', w, msg, out) # tr) = w # wires_of tr" "wires_of (tr @ tr') = wires_of tr @ wires_of tr'"
  "outs_of [] = []" "outs_of ((c', w, msg, out) # tr) = out @ outs_of tr" "outs_of (tr @ tr') = outs_of tr @ outs_of tr'"
  by (simp_all add: events_on_def wires_of_def outs_of_def)

definition default_did :: "'j json_api \<Rightarrow> xauthentication \<Rightarrow> error_handler \<Rightarrow> 'j kernel \<Rightarrow> 'j event list
    \<Rightarrow> 'j server \<Rightarrow> 'j server \<Rightarrow> bool" where
  "default_did J auth eh K tr st st' \<longleftrightarrow>
     list_all (handled J auth eh K) tr \<and>
     notified st' = notified st @ map note_of_event tr \<and>
     outbox (sv_net st') = outbox (sv_net st) @ concat (map default_outs tr) \<and>
     (\<forall>c. on_socket (channel_socket c) (received (sv_net st')) =
        on_socket (channel_socket c) (received (sv_net st)) @ wires_of (events_on c tr)) \<and>
     (m_request_stop st' \<longleftrightarrow> m_request_stop st \<or> list_ex (stops K) tr) \<and> default_ready st'"

lemma default_did_refl: "default_ready st \<Longrightarrow> default_did J auth eh K [] st st"
  by (simp add: default_did_def)

lemma default_did_trans:
  "default_did J auth eh K tr st st' \<Longrightarrow> default_did J auth eh K tr' st' st'' \<Longrightarrow>
   default_did J auth eh K (tr @ tr') st st''"
  by (auto simp: default_did_def)

lemma fold_asked:
  "fold default_asked rs st = st\<lparr>sv_net := (sv_net st)\<lparr>received := received (sv_net st) @ map (Pair Sv_stdin) rs\<rparr>\<rparr>"
  "fold shell_asked rs sp = sp\<lparr>sp_shell := (sp_shell sp)\<lparr>received := received (sp_shell sp) @ map (Pair Sh_stdin) rs\<rparr>\<rparr>"
  by (induction rs arbitrary: st sp) (simp_all add: default_asked_def shell_asked_def net_asked_def)

lemma default_notify:
  assumes "notify (kernel_env xserver_zmq J auth eh K) c msg st = (Inr (), st')" "stops_on_control K"
    "default_ready st" "deserialize J w auth = Inr msg"
  obtains out where "handled J auth eh K (c, w, msg, out)" "notified st' = notified st @ [(c, msg)]"
    "outbox (sv_net st') = outbox (sv_net st) @ map (apfst (default_socket c)) out"
    "\<And>c'. on_socket (channel_socket c') (received (sv_net st')) = on_socket (channel_socket c') (received (sv_net st))"
    "m_request_stop st' \<longleftrightarrow> m_request_stop st \<or> stops K (c, w, msg, out)" "default_ready st'"
proof (cases c)
  case SHELL
  with assms obtain out where "all_out (call_out J auth eh K) (handle_shell K msg) = Inr out"
    "st' = default_emit SHELL out (fold default_asked (replies_of (handle_shell K msg)) (st\<lparr>notified := notified st @ [(SHELL, msg)]\<rparr>))"
    by (auto simp: notify_def seq_def prog_simps stops_on_control_def default_shell.calls_run)
  moreover have "on_socket (channel_socket c') (map (Pair Sv_stdin) rs) = []" for c' rs
    by (cases c') (simp_all add: on_socket_tagged)
  ultimately show thesis
    using that SHELL assms(3,4) by (auto simp: handler_out_def default_effects fold_asked)
next
  case CONTROL
  with assms obtain out where "all_out (action_out J auth eh) (handle_control K msg) = Inr out"
    "st' = (if Stop \<in> set (handle_control K msg) then default_halt else id)
       (default_emit CONTROL out (st\<lparr>notified := notified st @ [(CONTROL, msg)]\<rparr>))"
    by (auto simp: notify_def seq_def prog_simps default_control.actions_run)
  with that CONTROL assms(3,4) show thesis
    by (auto simp: handler_out_def default_effects)
qed

lemma poll_channels_keeps:
  assumes "poll_channels env e st = (r, st')"
  shows "outbox (sv_net st') = outbox (sv_net st) \<and> m_request_stop st' = m_request_stop st"
proof (cases e)
  case (Poll_error err)
  with assms show ?thesis by (auto simp: poll_channels_def try_catch_def prog_simps split: if_splits)
next
  case (Poll_arrivals batch)
  have "st' = snd (poll_channels env (Poll_arrivals batch) st)" using assms Poll_arrivals by simp
  then show ?thesis
    by (auto simp: poll_channels_eq Let_def read_from_def split: option.split sum.split prod.split)
qed

lemma default_turn:
  assumes "server_turn (kernel_env xserver_zmq J auth eh K) e st = (Inr status, st')"
    "no_zmq_errors (kernel_env xserver_zmq J auth eh K)" "stops_on_control K" "default_ready st"
    "on_socket Sv_stdin (arrivals e) = []"
  obtains tr where "length tr \<le> 1" "default_did J auth eh K tr st st'" "status = Stopped \<longleftrightarrow> m_request_stop st'"
proof -
  let ?env = "kernel_env xserver_zmq J auth eh K"
  from assms(1) obtain r st1 where poll: "poll_channels ?env e st = (Inr r, st1)"
    and rest: "(case r of Some (m, c) \<Rightarrow> if c = SHELL then notify ?env SHELL m else notify ?env CONTROL m
          | None \<Rightarrow> ret ()) st1 = (Inr (), st')"
    and status: "status = Stopped \<longleftrightarrow> m_request_stop st'"
    by (auto simp: server_turn_resolved seq_Inr_iff prog_simps)
  note sv = poll_channels_serves [OF poll assms(2)] and kept = poll_channels_keeps [OF poll]
  show thesis
  proof (cases r)
    case None
    with sv obtain ms where "received (sv_net st1) = received (sv_net st) @ ms" "ms = []" "notified st1 = notified st"
      "\<And>s. on_socket s ms @ inbox (sv_net st1) s = inbox (sv_net st) s @ on_socket s (arrivals e)"
      by (auto simp: serves_def)
    with None rest kept assms(4,5) have "default_did J auth eh K [] st st'"
      by (simp add: default_did_def prog_simps)
    from that [OF _ this status] show thesis by simp
  next
    case (Some mc)
    then obtain m c where mc: "r = Some (m, c)" by (cases mc) auto
    with sv obtain w where w: "notified st1 = notified st"
      "received (sv_net st1) = received (sv_net st) @ [(channel_socket c, w)]" "deserialize J w auth = Inr m"
      "\<And>s. on_socket s [(channel_socket c, w)] @ inbox (sv_net st1) s = inbox (sv_net st) s @ on_socket s (arrivals e)"
      by (auto simp: serves_def list_all2_Cons2)
    have ready: "default_ready st1" using w(4) [of Sv_stdin] assms(4,5) by (cases c) auto
    from mc rest have "notify ?env c m st1 = (Inr (), st')" by (cases c) simp_all
    from default_notify [OF this assms(3) ready w(3)] obtain out where
      out: "handled J auth eh K (c, w, m, out)" "notified st' = notified st1 @ [(c, m)]"
      "outbox (sv_net st') = outbox (sv_net st1) @ map (apfst (default_socket c)) out"
      "\<And>c'. on_socket (channel_socket c') (received (sv_net st')) = on_socket (channel_socket c') (received (sv_net st1))"
      "m_request_stop st' \<longleftrightarrow> m_request_stop st1 \<or> stops K (c, w, m, out)" "default_ready st'" by blast
    have "channel_socket c = channel_socket c' \<longleftrightarrow> c = c'" for c' by (cases c; cases c') simp_all
    with out w kept have "default_did J auth eh K [(c, w, m, out)] st st'"
      by (simp add: default_did_def)
    from that [OF _ this status] show thesis by simp
  qed
qed

lemma default_run:
  assumes "run_loop (server_turn (kernel_env xserver_zmq J auth eh K)) polls st = (Inr status, st')"
    "no_zmq_errors (kernel_env xserver_zmq J auth eh K)" "stops_on_control K" "default_ready st"
    "on_socket Sv_stdin (concat (map arrivals polls)) = []" "\<not> m_request_stop st"
  shows "\<exists>tr. default_did J auth eh K tr st st' \<and> (status = Stopped \<longleftrightarrow> m_request_stop st') \<and>
    \<not> list_ex (stops K) (butlast tr)"
  using assms(1,4-6)
proof (induction polls arbitrary: st)
  case Nil
  then show ?case by (auto simp: prog_simps intro: default_did_refl)
next
  case (Cons e es)
  from Cons.prems(1) obtain s1 st1 where 1: "server_turn (kernel_env xserver_zmq J auth eh K) e st = (Inr s1, st1)"
    and rest: "(if s1 = Running then run_loop (server_turn (kernel_env xserver_zmq J auth eh K)) es else ret Stopped) st1
      = (Inr status, st')"
    by (auto simp: seq_Inr_iff)
  from Cons.prems(3) have "on_socket Sv_stdin (arrivals e) = []" by simp
  from default_turn [OF 1 assms(2,3) Cons.prems(2) this] obtain tr where
    tr: "length tr \<le> 1" "default_did J auth eh K tr st st1" "s1 = Stopped \<longleftrightarrow> m_request_stop st1" .
  show ?case
  proof (cases s1)
    case Stopped
    with rest tr show ?thesis by (cases tr) (auto simp: prog_simps)
  next
    case Running
    with tr have run: "\<not> m_request_stop st1" "\<not> list_ex (stops K) tr" "default_ready st1"
      by (auto simp: default_did_def)
    with Running rest Cons.IH [of st1] Cons.prems(3) obtain tr' where
      "default_did J auth eh K tr' st1 st'" "status = Stopped \<longleftrightarrow> m_request_stop st'" "\<not> list_ex (stops K) (butlast tr')"
      by auto
    with default_did_trans [OF tr(2)] run(2) show ?thesis
      by (intro exI [of _ "tr @ tr'"]) (auto simp: butlast_append dest: in_set_butlastD simp: list_ex_iff)
  qed
qed

lemma split_shell_notify:
  assumes "handled J auth eh K (SHELL, w, msg, out)" "stops_on_control K" "shell_ready st"
  shows "\<exists>st'. notify_shell_listener (kernel_env xserver_zmq_split J auth eh K) msg st = (Inr (), st') \<and>
    inbox (sp_shell st') = inbox (sp_shell st) \<and> sp_notified st' = sp_notified st @ [(SHELL, msg)] \<and>
    outbox (sp_shell st') = outbox (sp_shell st) @ map (apfst shell_port) out \<and>
    sp_control st' = sp_control st \<and> runner_request_stop st' = runner_request_stop st"
proof -
  let ?st = "st\<lparr>sp_notified := sp_notified st @ [(SHELL, msg)]\<rparr>"
  let ?st' = "shell_emit out (fold shell_asked (replies_of (handle_shell K msg)) ?st)"
  from assms have "run_all (run_call (xserver_zmq_split (stdin_env J auth eh
      (stdin_handler (\<lambda>l. xserver_zmq_split (stdin_env J auth eh l)) K)))) (handle_shell K msg) ?st = (Inr (), ?st')"
    by (subst split_shell.calls_run) (auto simp: stops_on_control_def handler_out_def)
  then show ?thesis
    by (intro exI [of _ ?st']) (simp add: notify_shell_listener_def split_effects fold_asked)
qed

lemma split_shell_turn:
  assumes "handled J auth eh K (SHELL, w, msg, out)" "stops_on_control K" "shell_ready st"
    "inbox (arrive batch (sp_shell st)) Sh_shell = w # ws" "on_socket Sh_stdin batch = []"
  shows "\<exists>st'. shell_turn (kernel_env xserver_zmq_split J auth eh K) (Poll_arrivals batch) st = (Inr Running, st') \<and>
    inbox (sp_shell st') = (inbox (arrive batch (sp_shell st)))(Sh_shell := ws) \<and>
    sp_notified st' = sp_notified st @ [(SHELL, msg)] \<and>
    outbox (sp_shell st') = outbox (sp_shell st) @ map (apfst shell_port) out \<and>
    sp_control st' = sp_control st \<and> runner_request_stop st' = runner_request_stop st"
proof -
  let ?n = "read_from Sh_shell (arrive batch (sp_shell st))"
  have "shell_ready (st\<lparr>sp_shell := ?n\<rparr>)" using assms(3,5) by (simp add: read_from_def)
  from split_shell_notify [OF assms(1,2) this] assms(1,4) show ?thesis
    by (auto simp: shell_turn_shell_eq [OF refl assms(4)] split_deserialize_eq seq_def prog_simps read_from_def)
qed

lemma split_shell_run:
  assumes "stops_on_control K" "list_all (handled J auth eh K) tr" "\<forall>x \<in> set tr. fst x = SHELL"
    "\<forall>e \<in> set ps. \<exists>batch. e = Poll_arrivals batch"
    "\<forall>s. s \<noteq> Sh_shell \<longrightarrow> inbox (sp_shell st) s @ on_socket s (concat (map arrivals ps)) = []"
    "inbox (sp_shell st) Sh_shell @ on_socket Sh_shell (concat (map arrivals ps)) = wires_of tr"
  shows "\<exists>k st'. run_loop (shell_turn (kernel_env xserver_zmq_split J auth eh K)) ps st = (Inr Running, st') \<and>
    inbox (sp_shell st') Sh_shell = drop k (wires_of tr) \<and> k \<le> length tr \<and>
    sp_notified st' = sp_notified st @ map note_of_event (take k tr) \<and>
    outbox (sp_shell st') = outbox (sp_shell st) @ map (apfst shell_port) (outs_of (take k tr)) \<and>
    sp_control st' = sp_control st \<and> runner_request_stop st' = runner_request_stop st"
  using assms(2-)
proof (induction ps arbitrary: st tr)
  case Nil
  then show ?case by (intro exI [of _ 0] exI [of _ st]) (simp add: prog_simps)
next
  case (Cons e ps)
  let ?env = "kernel_env xserver_zmq_split J auth eh K"
  from Cons.prems(3) obtain batch where e: "e = Poll_arrivals batch" by auto
  have quiet: "shell_ready st" "on_socket Sh_stdin batch = []" "inbox (arrive batch (sp_shell st)) Sh_controller = []"
    using Cons.prems(4) [rule_format, of Sh_stdin] Cons.prems(4) [rule_format, of Sh_controller] e by auto
  show ?case
  proof (cases "inbox (arrive batch (sp_shell st)) Sh_shell")
    case Nil
    let ?st = "st\<lparr>sp_shell := arrive batch (sp_shell st)\<rparr>"
    from shell_turn_idle [OF refl Nil quiet(3)] e have turn: "shell_turn ?env e st = (Inr Running, ?st)" by simp
    have "inbox (sp_shell ?st) s @ on_socket s (concat (map arrivals ps))
        = inbox (sp_shell st) s @ on_socket s (concat (map arrivals (e # ps)))" for s
      using e by simp
    with Cons.IH [of tr ?st] Cons.prems turn show ?thesis by (simp add: seq_def)
  next
    case (Cons w ws)
    have wires: "w # ws @ on_socket Sh_shell (concat (map arrivals ps)) = wires_of tr"
      using Cons.prems(5) arg_cong [OF Cons, of "\<lambda>xs. xs @ on_socket Sh_shell (concat (map arrivals ps))"] e by simp
    then obtain msg out tr' where tr: "tr = (SHELL, w, msg, out) # tr'"
        "ws @ on_socket Sh_shell (concat (map arrivals ps)) = wires_of tr'"
      using Cons.prems(2) by (cases tr) auto
    with Cons.prems(1) have "handled J auth eh K (SHELL, w, msg, out)" by simp
    from split_shell_turn [OF this assms(1) quiet(1) Cons quiet(2)] obtain st1 where
      1: "shell_turn ?env e st = (Inr Running, st1)"
        "inbox (sp_shell st1) = (inbox (arrive batch (sp_shell st)))(Sh_shell := ws)"
        "sp_notified st1 = sp_notified st @ [(SHELL, msg)]"
        "outbox (sp_shell st1) = outbox (sp_shell st) @ map (apfst shell_port) out"
        "sp_control st1 = sp_control st" "runner_request_stop st1 = runner_request_stop st"
      using e by auto
    have rest: "\<forall>s. s \<noteq> Sh_shell \<longrightarrow> inbox (sp_shell st1) s @ on_socket s (concat (map arrivals ps)) = []"
      using Cons.prems(4) 1(2) e by simp
    from Cons.IH [of tr' st1, OF _ _ _ rest] Cons.prems(1-3) tr 1(2) obtain k st' where
      "run_loop (shell_turn ?env) ps st1 = (Inr Running, st')" "inbox (sp_shell st') Sh_shell = drop k (wires_of tr')"
      "k \<le> length tr'" "sp_notified st' = sp_notified st1 @ map note_of_event (take k tr')"
      "outbox (sp_shell st') = outbox (sp_shell st1) @ map (apfst shell_port) (outs_of (take k tr'))"
      "sp_control st' = sp_control st1" "runner_request_stop st' = runner_request_stop st1"
      by auto
    with 1 tr(1) show ?thesis by (intro exI [of _ "Suc k"] exI [of _ st']) (simp add: seq_def)
  qed
qed

lemma split_control_turn:
  assumes "handled J auth eh K (CONTROL, w, msg, out)" "inbox (sp_control st) Ct_control = []" "\<not> runner_request_stop st"
  shows "\<exists>st'. control_turn (kernel_env xserver_zmq_split J auth eh K) (Recv_message w) st =
      (Inr (if stops K (CONTROL, w, msg, out) then Stopped else Running), st') \<and>
    inbox (sp_control st') Ct_control = [] \<and> sp_notified st' = sp_notified st @ [(CONTROL, msg)] \<and>
    outbox (sp_control st') = outbox (sp_control st) @ map (apfst control_port) out \<and>
    sp_shell st' = sp_shell st \<and> (runner_request_stop st' \<longleftrightarrow> stops K (CONTROL, w, msg, out))"
proof -
  let ?env = "kernel_env xserver_zmq_split J auth eh K"
  let ?n = "read_from Ct_control (arrive [(Ct_control, w)] (sp_control st))"
  let ?st = "st\<lparr>sp_control := ?n, sp_notified := sp_notified st @ [(CONTROL, msg)]\<rparr>"
  let ?st' = "(if Stop \<in> set (handle_control K msg) then split_halt else id) (control_emit out ?st)"
  have "read_control ?env (Recv_message w) st = (Inr (Some msg), st\<lparr>sp_control := ?n\<rparr>)"
    using assms(1,2) by (simp add: read_control_def seq_def on_control_eval prog_simps net_recv_eq split_deserialize_eq)
  moreover have "notify_control_listener ?env msg (st\<lparr>sp_control := ?n\<rparr>) = (Inr (), ?st')"
    using assms(1) by (simp add: notify_control_listener_def split_control.actions_run handler_out_def)
  ultimately show ?thesis
    using assms(2,3) by (auto simp: control_turn_resolved seq_def prog_simps split_effects read_from_def)
qed

lemma split_control_run:
  assumes "list_all (handled J auth eh K) tr" "\<forall>x \<in> set tr. fst x = CONTROL" "\<not> list_ex (stops K) (butlast tr)"
    "inbox (sp_control st) Ct_control = []" "\<not> runner_request_stop st"
  shows "\<exists>st'. run_loop (control_turn (kernel_env xserver_zmq_split J auth eh K)) (map Recv_message (wires_of tr)) st =
      (Inr (if list_ex (stops K) tr then Stopped else Running), st') \<and>
    sp_notified st' = sp_notified st @ map note_of_event tr \<and>
    outbox (sp_control st') = outbox (sp_control st) @ map (apfst control_port) (outs_of tr) \<and> sp_shell st' = sp_shell st"
  using assms
proof (induction tr arbitrary: st)
  case (Cons x tr)
  obtain w msg out where x: "x = (CONTROL, w, msg, out)" using Cons.prems(2) by (cases x) auto
  from Cons.prems(1) x have "handled J auth eh K (CONTROL, w, msg, out)" by simp
  from split_control_turn [OF this Cons.prems(4,5)] obtain st1 where
    1: "control_turn (kernel_env xserver_zmq_split J auth eh K) (Recv_message w) st =
        (Inr (if stops K (CONTROL, w, msg, out) then Stopped else Running), st1)"
      "inbox (sp_control st1) Ct_control = []" "sp_notified st1 = sp_notified st @ [(CONTROL, msg)]"
      "outbox (sp_control st1) = outbox (sp_control st) @ map (apfst control_port) out"
      "sp_shell st1 = sp_shell st" "runner_request_stop st1 \<longleftrightarrow> stops K (CONTROL, w, msg, out)" by blast
  show ?case
  proof (cases "stops K x")
    case True
    with Cons.prems(3) have "tr = []" by (cases tr) auto
    with 1 True x show ?thesis by (simp add: seq_def prog_simps)
  next
    case False
    from Cons.prems(3) have "\<not> list_ex (stops K) (butlast tr)" by (cases tr) auto
    with Cons.IH [of st1] Cons.prems(1,2) 1(2,6) False x obtain st' where
      "run_loop (control_turn (kernel_env xserver_zmq_split J auth eh K)) (map Recv_message (wires_of tr)) st1 =
        (Inr (if list_ex (stops K) tr then Stopped else Running), st')"
      "sp_notified st' = sp_notified st1 @ map note_of_event tr"
      "outbox (sp_control st') = outbox (sp_control st1) @ map (apfst control_port) (outs_of tr)" "sp_shell st' = sp_shell st1"
      by auto
    with 1 False x show ?thesis by (simp add: seq_def)
  qed
qed (simp add: prog_simps)

section \<open>The servers agree\<close>

lemma default_socket_outs [simp]:
  "on_socket Sv_shell (map (apfst (default_socket SHELL)) out) = on_socket Reply_port out \<and>
   on_socket Sv_controller (map (apfst (default_socket CONTROL)) out) = on_socket Reply_port out \<and>
   on_socket Sv_shell (map (apfst (default_socket CONTROL)) out) = [] \<and>
   on_socket Sv_controller (map (apfst (default_socket SHELL)) out) = []"
  "on_socket Sv_stdin (map (apfst (default_socket c)) out) = on_socket Stdin_port out \<and>
   on_socket Sv_publisher_pub (map (apfst (default_socket c)) out) = on_socket Iopub_port out"
proof (induction out)
  case (Cons x out)
  { case 1 then show ?case using Cons.IH(1) by (cases x; cases "fst x") auto }
  { case 2 then show ?case using Cons.IH(2) by (cases x; cases "fst x"; cases c) auto }
qed simp_all

lemma shell_port_outs [simp]:
  "on_socket Sh_shell (map (apfst shell_port) out) = on_socket Reply_port out \<and>
   on_socket Sh_stdin (map (apfst shell_port) out) = on_socket Stdin_port out \<and>
   on_socket Sh_publisher_pub (map (apfst shell_port) out) = on_socket Iopub_port out"
proof (induction out)
  case (Cons x out)
  then show ?case by (cases x; cases "fst x") auto
qed simp

lemma control_port_outs:
  "on_socket Ct_publisher_pub (map (apfst control_port) out) = on_socket Iopub_port out"
  "on_socket Stdin_port out = [] \<Longrightarrow> on_socket Ct_control (map (apfst control_port) out) = on_socket Reply_port out"
proof (induction out)
  case (Cons x out)
  { case 1 then show ?case using Cons.IH(1) by (cases x; cases "fst x") auto }
  { case 2 then show ?case using Cons.IH(2) by (cases x; cases "fst x") auto }
qed simp_all

lemma actions_ask_nothing: "all_out (action_out J auth eh) as = Inr out \<Longrightarrow> on_socket Stdin_port out = []"
proof (induction as arbitrary: out)
  case (Cons a as)
  then show ?case by (cases a) (auto simp: rbind_Inr_iff)
qed simp

lemma shuffle_prefix: "zs \<in> shuffles xs ys \<Longrightarrow> as @ zs \<in> shuffles (as @ xs) ys \<and> as @ zs \<in> shuffles xs (as @ ys)"
  by (induction as) (auto intro: Cons_in_shuffles_leftI Cons_in_shuffles_rightI)

lemma default_outs_split:
  assumes "list_all (handled J auth eh K) tr"
  shows "on_socket Sv_shell (concat (map default_outs tr)) = on_socket Reply_port (outs_of (events_on SHELL tr)) \<and>
    on_socket Sv_controller (concat (map default_outs tr)) = on_socket Reply_port (outs_of (events_on CONTROL tr)) \<and>
    on_socket Sv_stdin (concat (map default_outs tr)) = on_socket Stdin_port (outs_of (events_on SHELL tr)) \<and>
    on_socket Stdin_port (outs_of (events_on CONTROL tr)) = [] \<and>
    on_socket Sv_publisher_pub (concat (map default_outs tr)) \<in>
      shuffles (on_socket Iopub_port (outs_of (events_on SHELL tr))) (on_socket Iopub_port (outs_of (events_on CONTROL tr)))"
  using assms
proof (induction tr)
  case (Cons x tr)
  obtain c w msg out where x: "x = (c, w, msg, out)" by (cases x)
  show ?case
  proof (cases c)
    case SHELL
    with x Cons show ?thesis by (auto intro: shuffle_prefix [THEN conjunct1])
  next
    case CONTROL
    with x Cons.prems have "on_socket Stdin_port out = []" by (auto simp: handler_out_def dest: actions_ask_nothing)
    with CONTROL x Cons show ?thesis by (auto intro: shuffle_prefix [THEN conjunct2])
  qed
qed simp

text \<open>
  Agreement of what the single-threaded server has done and what the threads of a split server
  have done: the same messages on the shell, control and stdin channels, each in the same order, the same
  messages handed to the kernel on each channel; what the single-threaded server
  publishes is an interleaving of what the two threads publish.
\<close>

definition same_service :: "'j server \<Rightarrow> 'j split_server \<Rightarrow> bool" where
  "same_service d s \<longleftrightarrow>
     on_socket Sh_shell (outbox (sp_shell s)) = on_socket Sv_shell (outbox (sv_net d)) \<and>
     on_socket Sh_stdin (outbox (sp_shell s)) = on_socket Sv_stdin (outbox (sv_net d)) \<and>
     on_socket Ct_control (outbox (sp_control s)) = on_socket Sv_controller (outbox (sv_net d)) \<and>
     on_socket Sv_publisher_pub (outbox (sv_net d)) \<in>
       shuffles (on_socket Sh_publisher_pub (outbox (sp_shell s))) (on_socket Ct_publisher_pub (outbox (sp_control s))) \<and>
     sp_notified s = filter (\<lambda>x. fst x = SHELL) (notified d) @ filter (\<lambda>x. fst x = CONTROL) (notified d)"

lemma notes_on: "filter (\<lambda>x. fst x = c) (map note_of_event tr) = map note_of_event (events_on c tr)"
  by (induction tr) auto

lemma events_on_subset:
  "list_all P tr \<Longrightarrow> list_all P (events_on c tr)" "\<forall>x \<in> set (events_on c tr). fst x = c"
  by (auto simp: events_on_def list_all_iff)

lemma stops_on_control_events: "list_ex (stops K) (events_on CONTROL tr) = list_ex (stops K) tr"
  by (induction tr) auto

lemma butlast_events: "\<not> list_ex (stops K) (butlast tr) \<Longrightarrow> \<not> list_ex (stops K) (butlast (events_on CONTROL tr))"
proof (induction tr)
  case (Cons x tr)
  then show ?case
    using stops_on_control_events [of K tr] by (cases "tr = []") (auto simp: list_ex_iff dest: in_set_butlastD)
qed simp

definition new_server :: "'j server" where
  "new_server = \<lparr>sv_net = empty_net, m_request_stop = False, notified = []\<rparr>"

definition new_split_server :: "'j split_server" where
  "new_split_server = \<lparr>sp_shell = empty_net, sp_control = empty_net, sp_messenger = empty_net,
     runner_request_stop = False, sp_notified = []\<rparr>"

lemma split_outputs_same_service:
  assumes "list_all (handled J auth eh K) tr" "notified d = map note_of_event tr" "outbox (sv_net d) = concat (map default_outs tr)"
    "sp_notified s = map note_of_event (events_on SHELL tr) @ map note_of_event (events_on CONTROL tr)"
    "outbox (sp_shell s) = map (apfst shell_port) (outs_of (events_on SHELL tr))"
    "outbox (sp_control s) = map (apfst control_port) (outs_of (events_on CONTROL tr))"
  shows "same_service d s"
  using default_outs_split [OF assms(1)] assms(4) unfolding same_service_def assms(2,3,5,6) notes_on
  by (simp add: control_port_outs)

text \<open>
  C10. The servers agree. Whatever a run of the single-threaded server with some kernel has read and
  done, the shell thread and the control thread of a split server with the same kernel do
  too when they are sent the messages it read from each channel, however the shell thread finds
  them when it polls: neither fails, the control thread stops exactly when the other server did,
  and once the shell thread has read its messages the service is the same. The
  kernel's handlers are functions of the message, which may publish, ask for input and
  publish again, and only control messages stop the server.
\<close>

theorem servers_agree:
  assumes "run_loop (server_turn (kernel_env xserver_zmq J auth eh K)) polls new_server = (Inr status, d)"
    "no_zmq_errors (kernel_env xserver_zmq J auth eh K)" "stops_on_control K"
    "on_socket Sv_stdin (concat (map arrivals polls)) = []"
    "\<forall>e \<in> set ps. \<exists>batch. e = Poll_arrivals batch"
    "concat (map arrivals ps) = map (Pair Sh_shell) (on_socket Sv_shell (received (sv_net d)))"
  shows "\<exists>s s'. run_loop (shell_turn (kernel_env xserver_zmq_split J auth eh K)) ps new_split_server = (Inr Running, s) \<and>
    run_loop (control_turn (kernel_env xserver_zmq_split J auth eh K))
      (map Recv_message (on_socket Sv_controller (received (sv_net d)))) s = (Inr status, s') \<and>
    (inbox (sp_shell s) Sh_shell = [] \<longrightarrow> same_service d s')"
proof -
  let ?s0 = "new_split_server :: 'a split_server"
  have fresh: "default_ready new_server" "\<not> m_request_stop new_server" by (simp_all add: new_server_def empty_net_def)
  from default_run [OF assms(1-3) fresh(1) assms(4) fresh(2)] obtain tr where
    did: "default_did J auth eh K tr new_server d" and stopped: "status = Stopped \<longleftrightarrow> m_request_stop d"
    and last: "\<not> list_ex (stops K) (butlast tr)" by blast
  from did have d: "list_all (handled J auth eh K) tr" "notified d = map note_of_event tr"
    "outbox (sv_net d) = concat (map default_outs tr)" "m_request_stop d \<longleftrightarrow> list_ex (stops K) tr"
    "\<And>c. on_socket (channel_socket c) (received (sv_net d)) = wires_of (events_on c tr)"
    by (auto simp: default_did_def new_server_def empty_net_def)
  let ?sh = "events_on SHELL tr" and ?ct = "events_on CONTROL tr"
  have wires: "concat (map arrivals ps) = map (Pair Sh_shell) (wires_of ?sh)" using assms(6) d(5) [of SHELL] by simp
  have arrived: "\<forall>s. s \<noteq> Sh_shell \<longrightarrow>
      inbox (sp_shell ?s0) s @ on_socket s (concat (map arrivals ps)) = []"
    unfolding wires by (simp add: on_socket_tagged new_split_server_def empty_net_def)
  have waiting: "inbox (sp_shell ?s0) Sh_shell @ on_socket Sh_shell (concat (map arrivals ps)) = wires_of ?sh"
    unfolding wires by (simp add: on_socket_tagged new_split_server_def empty_net_def)
  from split_shell_run [OF assms(3) events_on_subset(1) [OF d(1)] events_on_subset(2) assms(5) arrived waiting] obtain k s where
    s: "run_loop (shell_turn (kernel_env xserver_zmq_split J auth eh K)) ps ?s0 = (Inr Running, s)"
      "inbox (sp_shell s) Sh_shell = drop k (wires_of ?sh)" "k \<le> length ?sh"
      "sp_notified s = sp_notified ?s0 @ map note_of_event (take k ?sh)"
      "outbox (sp_shell s) = outbox (sp_shell ?s0) @ map (apfst shell_port) (outs_of (take k ?sh))"
      "sp_control s = sp_control ?s0" "runner_request_stop s = runner_request_stop ?s0" by blast
  have idle: "inbox (sp_control s) Ct_control = []" "\<not> runner_request_stop s"
    using s(6,7) by (simp_all add: new_split_server_def empty_net_def)
  from split_control_run [OF events_on_subset(1) [OF d(1)] events_on_subset(2) butlast_events [OF last] idle] obtain s' where
    s': "run_loop (control_turn (kernel_env xserver_zmq_split J auth eh K)) (map Recv_message (wires_of ?ct)) s =
        (Inr (if list_ex (stops K) ?ct then Stopped else Running), s')"
      "sp_notified s' = sp_notified s @ map note_of_event ?ct"
      "outbox (sp_control s') = outbox (sp_control s) @ map (apfst control_port) (outs_of ?ct)" "sp_shell s' = sp_shell s" by blast
  have "(if list_ex (stops K) ?ct then Stopped else Running) = status"
    using stopped d(4) by (cases status) (simp_all add: stops_on_control_events)
  with s' d(5) [of CONTROL] have "run_loop (control_turn (kernel_env xserver_zmq_split J auth eh K))
      (map Recv_message (on_socket Sv_controller (received (sv_net d)))) s = (Inr status, s')" by simp
  moreover have "same_service d s'" if "inbox (sp_shell s) Sh_shell = []"
  proof -
    have "length (wires_of ?sh) = length ?sh" by (simp add: wires_of_def)
    with that s(2,3) have all: "take k ?sh = ?sh" by simp
    show ?thesis
      by (rule split_outputs_same_service [OF d(1-3)]) (use s(4-6) s'(2-4) in \<open>simp_all add: all new_split_server_def empty_net_def\<close>)
  qed
  ultimately show ?thesis using s(1) by blast
qed

text \<open>A kernel that publishes, asks for input and replies, and stops on every control message.\<close>

definition echo_kernel :: "jv kernel" where
  "echo_kernel = \<lparr>handle_shell = (\<lambda>m. [Act (Publish (make_xpub_message ''t'' (base_data m))), Input m [''junk''], Act (Reply m)]),
     handle_control = (\<lambda>m. [Reply m, Stop]), handle_stdin = (\<lambda>m. [])\<rparr>"

definition echo_wire :: multipart where
  "echo_wire = [''id'', DELIMITER, [], ''H'', ''{}'', ''{}'', ''{}'']"

definition echo_message :: "jv xmessage" where
  "echo_message = make_xmessage [''id''] \<lparr>m_header = JObj [(''msg_type'', JStr ''status'')], m_parent_header = JObj [],
     m_metadata = JObj [], m_content = JObj [], m_buffers = []\<rparr>"

lemma echo_handled:
  "handled sample_json no_xauthentication strict echo_kernel (SHELL, echo_wire, echo_message,
     [(Iopub_port, ''t'' # tl echo_wire), (Stdin_port, echo_wire), (Reply_port, echo_wire)])"
  "handled sample_json no_xauthentication strict echo_kernel (CONTROL, echo_wire, echo_message, [(Reply_port, echo_wire)])"
proof -
  have wire: "deserialize sample_json echo_wire no_xauthentication = Inr echo_message"
    using deserialize_found [of "[''id'']" "[[], ''H'', ''{}'', ''{}'', ''{}'']" sample_json no_xauthentication]
    by (simp add: deserialize_message_base_parts no_xauthentication_eq sample_json_def DELIMITER_def
        echo_wire_def echo_message_def)
  have junk: "deserialize sample_json [''junk''] no_xauthentication
      = Inl (Throws (Runtime_error ''ERROR: Delimiter not present in message''))"
    by (simp add: deserialize_def deserialize_zmq_id_missing DELIMITER_def)
  have sent: "serialize sample_json echo_message no_xauthentication strict = Inr echo_wire"
    "serialize_iopub sample_json (make_xpub_message ''t'' (base_data echo_message)) no_xauthentication strict
      = Inr (''t'' # tl echo_wire)"
    by (simp_all add: serialize_def serialize_iopub_def serialize_topic_def serialize_zmq_id_def serialize_message_base_def
        echo_message_def echo_wire_def make_xmessage_def make_xpub_message_def base_data_def sample_json_def
        no_xauthentication_eq)
  show "handled sample_json no_xauthentication strict echo_kernel (SHELL, echo_wire, echo_message,
      [(Iopub_port, ''t'' # tl echo_wire), (Stdin_port, echo_wire), (Reply_port, echo_wire)])"
    "handled sample_json no_xauthentication strict echo_kernel (CONTROL, echo_wire, echo_message, [(Reply_port, echo_wire)])"
    by (simp_all add: wire sent junk handler_out_def echo_kernel_def)
qed

lemma echo_run:
  "\<exists>d. run_loop (server_turn (kernel_env xserver_zmq sample_json no_xauthentication strict echo_kernel))
      [Poll_arrivals [(Sv_shell, echo_wire)], Poll_arrivals [(Sv_controller, echo_wire)]] new_server
      = (Inr Stopped, d) \<and>
    received (sv_net d) = [(Sv_shell, echo_wire), (Sv_stdin, [''junk'']), (Sv_controller, echo_wire)] \<and>
    on_socket Sv_publisher_pub (outbox (sv_net d)) = [''t'' # tl echo_wire]"
proof -
  let ?env = "kernel_env xserver_zmq sample_json no_xauthentication strict echo_kernel"
  have shell: "shell_listener ?env echo_message st = (Inr (), default_emit SHELL
      [(Iopub_port, ''t'' # tl echo_wire), (Stdin_port, echo_wire), (Reply_port, echo_wire)]
      (fold default_asked [[''junk'']] st))" if "default_ready st" for st
    using that echo_handled(1)
    by (simp only: kernel_env_simps) (subst default_shell.calls_run; simp add: handler_out_def echo_kernel_def)
  have control: "control_listener ?env echo_message st = (Inr (), default_halt (default_emit CONTROL [(Reply_port, echo_wire)] st))" for st
    using echo_handled(2)
    by (simp only: kernel_env_simps) (subst default_control.actions_run; simp add: handler_out_def echo_kernel_def)
  show ?thesis
    using echo_handled
    by (simp add: server_turn_resolved poll_channels_eq next_message_def notify_def shell control
        seq_def prog_simps Let_def new_server_def empty_net_def default_effects fold_asked read_from_def
        net_emit_def arrive_def del: kernel_env_simps(4,5))
qed

theorem servers_agree_witness:
  "\<exists>d s s'. run_loop (server_turn (kernel_env xserver_zmq sample_json no_xauthentication strict echo_kernel))
      [Poll_arrivals [(Sv_shell, echo_wire)], Poll_arrivals [(Sv_controller, echo_wire)]] new_server
      = (Inr Stopped, d) \<and>
    run_loop (shell_turn (kernel_env xserver_zmq_split sample_json no_xauthentication strict echo_kernel))
      [Poll_arrivals [(Sh_shell, echo_wire)]] new_split_server = (Inr Running, s) \<and>
    run_loop (control_turn (kernel_env xserver_zmq_split sample_json no_xauthentication strict echo_kernel))
      [Recv_message echo_wire] s = (Inr Stopped, s') \<and>
    (inbox (sp_shell s) Sh_shell = [] \<longrightarrow> same_service d s')"
proof -
  from echo_run obtain d where
    d: "run_loop (server_turn (kernel_env xserver_zmq sample_json no_xauthentication strict echo_kernel))
        [Poll_arrivals [(Sv_shell, echo_wire)], Poll_arrivals [(Sv_controller, echo_wire)]] new_server
        = (Inr Stopped, d)"
      "received (sv_net d) = [(Sv_shell, echo_wire), (Sv_stdin, [''junk'']), (Sv_controller, echo_wire)]" by blast
  have quiet: "no_zmq_errors (kernel_env xserver_zmq sample_json no_xauthentication strict echo_kernel)"
    by (auto simp: no_zmq_errors_def sample_json_def no_xauthentication_eq dest!: deserialize_faults split: option.splits)
  have stops: "stops_on_control echo_kernel" by (simp add: stops_on_control_def echo_kernel_def)
  from servers_agree [OF d(1) quiet stops, of "[Poll_arrivals [(Sh_shell, echo_wire)]]"] d
  show ?thesis by auto
qed

section \<open>Aborting the queue\<close>

text \<open>
  A listener that records its message and raises \<open>exc\<close> on the messages \<open>bad\<close> holds of; it
  may send, but does not read from the shell.
\<close>

definition split_records :: "('j xmessage \<Rightarrow> bool) \<Rightarrow> exn \<Rightarrow> ('j xmessage \<Rightarrow> ('j split_server, unit) prog) \<Rightarrow> bool" where
  "split_records bad exc l \<longleftrightarrow> (\<forall>msg st.
     fst (l msg st) = (if bad msg then Inl (Throws exc) else Inr ()) \<and>
     sp_notified (snd (l msg st)) = sp_notified st @ [(SHELL, msg)] \<and>
     inbox (sp_shell (snd (l msg st))) Sh_shell = inbox (sp_shell st) Sh_shell)"

lemma split_recordsD:
  "split_records bad exc l \<Longrightarrow> l msg st = (r, st') \<Longrightarrow>
     r = (if bad msg then Inl (Throws exc) else Inr ()) \<and> sp_notified st' = sp_notified st @ [(SHELL, msg)] \<and>
     inbox (sp_shell st') Sh_shell = inbox (sp_shell st) Sh_shell"
  unfolding split_records_def by (metis fst_conv snd_conv)

lemma split_abort_prefix:
  assumes "split_records bad exc l" "inbox (sp_shell st) Sh_shell = before @ rest"
    "\<forall>m \<in> set before. readable_message env m" "\<forall>msg \<in> set (valid_control env before). \<not> bad msg"
  shows "\<exists>st'. split_abort_queue (length before + fuel) env l st = split_abort_queue fuel env l st' \<and>
    inbox (sp_shell st') Sh_shell = rest \<and>
    sp_notified st' = sp_notified st @ map (Pair SHELL) (valid_control env before)"
  using assms(2-)
proof (induction before arbitrary: st)
  case (Cons m before)
  let ?st = "st\<lparr>sp_shell := read_from Sh_shell (sp_shell st)\<rparr>"
  have read: "on_shell (net_recv_noblock Sh_shell) st = (Inr (Some m), ?st)"
    "inbox (sp_shell ?st) Sh_shell = before @ rest"
    using Cons.prems(1) by (simp_all add: on_shell_eval net_recv_noblock_def read_from_def)
  have valid: "valid_control env (m # before) = valid_control env [m] @ valid_control env before"
    by (cases before) simp_all
  show ?case
  proof (cases "deserialize (env_json env) m (p_auth env)")
    case (Inl f)
    with Cons.prems(2) obtain e where "f = Throws e" by (cases f) (auto simp: readable_message_def)
    with Inl read have "split_abort_queue (length (m # before) + fuel) env l st
        = split_abort_queue (length before + fuel) env l ?st"
      by (simp add: seq_def prog_simps split_deserialize_eq)
    with Cons.IH [OF read(2)] Cons.prems(2,3) Inl show ?thesis
      unfolding valid by (auto simp: valid_control_def)
  next
    case (Inr msg)
    obtain r st1 where l: "l msg ?st = (r, st1)" by (cases "l msg ?st")
    have "valid_control env [m] = [msg]" using Inr by (simp add: valid_control_def)
    with Cons.prems(3) have fine: "\<not> bad msg" "valid_control env (m # before) = msg # valid_control env before"
      unfolding valid by simp_all
    with split_recordsD [OF assms(1) l] read(2) have st1: "r = Inr ()" "sp_notified st1 = sp_notified st @ [(SHELL, msg)]"
      "inbox (sp_shell st1) Sh_shell = before @ rest" by simp_all
    with l Inr read have "split_abort_queue (length (m # before) + fuel) env l st
        = split_abort_queue (length before + fuel) env l st1"
      by (simp add: seq_def prog_simps split_deserialize_eq)
    with Cons.IH [OF st1(3)] Cons.prems(2,3) st1(2) show ?thesis
      unfolding fine(2) by auto
  qed
qed auto

text \<open>Without such a message, the shell channel of the split servers is drained too.\<close>

lemma split_abort_queue_drains:
  assumes "split_records bad exc l" "\<forall>m \<in> set (inbox (sp_shell st) Sh_shell). readable_message env m"
    "\<forall>msg \<in> set (valid_control env (inbox (sp_shell st) Sh_shell)). \<not> bad msg"
  shows "\<exists>st'. split_abort_queue (length (inbox (sp_shell st) Sh_shell) + Suc fuel) env l st = (Inr True, st') \<and>
    inbox (sp_shell st') Sh_shell = [] \<and>
    sp_notified st' = sp_notified st @ map (Pair SHELL) (valid_control env (inbox (sp_shell st) Sh_shell))"
proof -
  from split_abort_prefix [where rest = "[]" and fuel = "Suc fuel", OF assms(1) _ assms(2,3)] obtain st' where
    st': "split_abort_queue (length (inbox (sp_shell st) Sh_shell) + Suc fuel) env l st = split_abort_queue (Suc fuel) env l st'"
      "inbox (sp_shell st') Sh_shell = []"
      "sp_notified st' = sp_notified st @ map (Pair SHELL) (valid_control env (inbox (sp_shell st) Sh_shell))" by auto
  from st'(2) have "split_abort_queue (Suc fuel) env l st' = (Inr True, st')"
    by (simp add: seq_def on_shell_eval net_recv_noblock_def prog_simps)
  with st' show ?thesis by auto
qed



end
