(* ===== verification/Default_System.thy ===== *)
theory Default_System
  imports Server_Api Channel_Threads Fair_Runs
begin

text \<open>
  The threads of the single-threaded server together: the main thread, which serves shell and control and
  then stops the channels, the publisher and the heartbeat, taking turns in any order. The turns are those
  of \<open>Server_Default\<close> and \<open>Publisher\<close>; messages from outside, and what the kernel publishes, arrive as
  they like. A message that ends \<^verbatim>\<open>start\<close> with an exception is a step too.
\<close>

section \<open>The system\<close>

fun controller_socket :: "nat \<Rightarrow> server_socket" where
  "controller_socket 0 = Sv_publisher_controller"
| "controller_socket (Suc n) = Sv_heartbeat_controller"

text \<open>
  The state of the three threads. \<open>dy_escaped\<close>: an exception has left the main loop, and with it
  \<^verbatim>\<open>start\<close>, so that the main thread no longer works for the server.
\<close>

record 'j default_system =
  dy_server :: "'j server"
  dy_publisher :: "publisher_socket net"
  dy_heartbeat :: "heartbeat_socket net"
  dy_running :: "nat \<Rightarrow> bool"
  dy_pc :: control_pc
  dy_escaped :: bool
  dy_delivered :: "nat \<Rightarrow> nat"
  dy_taken :: "nat \<Rightarrow> nat"

definition default_wires :: "'j default_system \<Rightarrow> wires" where
  "default_wires s = \<lparr>w_pc = dy_pc s,
     w_asked = (\<lambda>k. if k < 2 then on_socket (controller_socket k) (outbox (sv_net (dy_server s))) else []),
     w_delivered = dy_delivered s,
     w_inbox = (\<lambda>k. if k = 0 then inbox (dy_publisher s) Pub_controller
       else if k = 1 then inbox (dy_heartbeat s) Hb_controller else []),
     w_answered = (\<lambda>k. if k = 0 then on_socket Pub_controller (outbox (dy_publisher s))
       else if k = 1 then on_socket Hb_controller (outbox (dy_heartbeat s)) else []),
     w_taken = dy_taken s, w_running = dy_running s\<rparr>"

definition default_hand_request :: "nat \<Rightarrow> multipart \<Rightarrow> 'j default_system \<Rightarrow> 'j default_system" where
  "default_hand_request k m s =
     (if k = 0 then s\<lparr>dy_publisher := arrive [(Pub_controller, m)] (dy_publisher s)\<rparr>
      else s\<lparr>dy_heartbeat := arrive [(Hb_controller, m)] (dy_heartbeat s)\<rparr>)"

text \<open>What a poll of the main thread finds comes from outside: the replies of the two threads are handed over in steps of their own.\<close>

fun from_outside :: "server_socket poll_result \<Rightarrow> bool" where
  "from_outside (Poll_error e) = True"
| "from_outside (Poll_arrivals batch) =
     (on_socket Sv_publisher_controller batch = [] \<and> on_socket Sv_heartbeat_controller batch = [])"

text \<open>
  The steps: a turn of the publisher or the heartbeat, the network handing over a request, and
  the main thread: a turn of its loop, which goes on, leads to the stop of the channels or
  ends with an exception; and the exchanges of \<open>stop_channels\<close> one by one. Each step names the actor that takes it: the
  main thread is the \<open>Controller\<close>, the publisher channel 0 and the heartbeat channel 1.
\<close>

inductive default_act :: "'j default_env \<Rightarrow> (string \<Rightarrow> string \<Rightarrow> string \<Rightarrow> 'j) \<Rightarrow> actor \<Rightarrow> 'j default_system \<Rightarrow> 'j default_system \<Rightarrow> bool"
  for env make_header where
  publisher: "dy_running s 0 \<Longrightarrow> on_socket Pub_controller batch = [] \<Longrightarrow>
     publisher_turn (env_json env) make_header (Some (server_serialize_iopub env)) (Poll_arrivals batch) (dy_publisher s)
       = (Inr status, n) \<Longrightarrow>
     default_act env make_header (Channel 0) s
       (s\<lparr>dy_publisher := n, dy_running := (dy_running s)(0 := (status = Running))\<rparr>)"
| heartbeat: "dy_running s 1 \<Longrightarrow> on_socket Hb_controller batch = [] \<Longrightarrow>
     heartbeat_turn (Poll_arrivals batch) (dy_heartbeat s) = (Inr status, n) \<Longrightarrow>
     default_act env make_header (Channel 1) s
       (s\<lparr>dy_heartbeat := n, dy_running := (dy_running s)(1 := (status = Running))\<rparr>)"
| deliver: "k < 2 \<Longrightarrow> requests_under_way (default_wires s) k = m # rest \<Longrightarrow>
     default_act env make_header (Network k) s
       ((default_hand_request k m s)\<lparr>dy_delivered := (dy_delivered s)(k := Suc (dy_delivered s k))\<rparr>)"
| serve: "dy_pc s = Serving \<Longrightarrow> \<not> dy_escaped s \<Longrightarrow> from_outside poll \<Longrightarrow>
     server_turn env poll (dy_server s) = (Inr status, srv) \<Longrightarrow>
     default_act env make_header Controller s
       (s\<lparr>dy_server := srv, dy_pc := (if status = Running then Serving else Ask 0)\<rparr>)"
| escape: "dy_pc s = Serving \<Longrightarrow> \<not> dy_escaped s \<Longrightarrow> from_outside poll \<Longrightarrow>
     server_turn env poll (dy_server s) = (Inl (Throws e), srv) \<Longrightarrow>
     default_act env make_header Controller s (s\<lparr>dy_server := srv, dy_escaped := True\<rparr>)"
| ask: "dy_pc s = Ask k \<Longrightarrow>
     on_net (net_send (controller_socket k) [stop_frame echo_order k]) (dy_server s) = (Inr (), srv) \<Longrightarrow>
     default_act env make_header Controller s (s\<lparr>dy_server := srv, dy_pc := Await k\<rparr>)"
| advance: "dy_pc s = Await k \<Longrightarrow> replies_under_way (default_wires s) k = m # rest \<Longrightarrow>
     seq (on_net (modify (arrive [(controller_socket k, m)]))) (\<lambda>_. on_net (net_recv_frame (controller_socket k)))
       (dy_server s) = (Inr response, srv) \<Longrightarrow>
     default_act env make_header Controller s
       (s\<lparr>dy_server := srv, dy_pc := after_reply echo_order k, dy_taken := (dy_taken s)(k := Suc (dy_taken s k))\<rparr>)"

definition default_step :: "'j default_env \<Rightarrow> (string \<Rightarrow> string \<Rightarrow> string \<Rightarrow> 'j) \<Rightarrow> 'j default_system \<Rightarrow> 'j default_system \<Rightarrow> bool" where
  "default_step env make_header s s' \<longleftrightarrow> (\<exists>a. default_act env make_header a s s')"

lemma default_stepI: "default_act env make_header a s s' \<Longrightarrow> default_step env make_header s s'"
  by (auto simp: default_step_def)

lemmas default_step_publisher = default_act.publisher [THEN default_stepI]
lemmas default_step_heartbeat = default_act.heartbeat [THEN default_stepI]
lemmas default_step_deliver = default_act.deliver [THEN default_stepI]
lemmas default_step_serve = default_act.serve [THEN default_stepI]
lemmas default_step_escape = default_act.escape [THEN default_stepI]
lemmas default_step_ask = default_act.ask [THEN default_stepI]
lemmas default_step_advance = default_act.advance [THEN default_stepI]

definition initial_default :: "'j default_system" where
  "initial_default = \<lparr>dy_server = \<lparr>sv_net = empty_net, m_request_stop = False, notified = []\<rparr>,
     dy_publisher = empty_net, dy_heartbeat = empty_net, dy_running = (\<lambda>k. True), dy_pc = Serving, dy_escaped = False,
     dy_delivered = (\<lambda>k. 0), dy_taken = (\<lambda>k. 0)\<rparr>"

definition reachable_default :: "'j default_env \<Rightarrow> (string \<Rightarrow> string \<Rightarrow> string \<Rightarrow> 'j) \<Rightarrow> 'j default_system \<Rightarrow> bool" where
  "reachable_default env make_header = (default_step env make_header)\<^sup>*\<^sup>* initial_default"

section \<open>A turn of the main thread leaves the controllers' sockets alone\<close>

definition controllers_kept :: "'j server \<Rightarrow> 'j server \<Rightarrow> bool" where
  "controllers_kept st st' \<longleftrightarrow> (\<forall>k. inbox (sv_net st') (controller_socket k) = inbox (sv_net st) (controller_socket k) \<and>
     on_socket (controller_socket k) (outbox (sv_net st')) = on_socket (controller_socket k) (outbox (sv_net st)))"

text \<open>
  What is asked of the kernel: its listeners use neither of the two sockets, which are no part of the
  interface they are given, and the welcome message of the publisher can be built.
\<close>

definition default_kernel_ok :: "'j default_env \<Rightarrow> (string \<Rightarrow> string \<Rightarrow> string \<Rightarrow> 'j) \<Rightarrow> bool" where
  "default_kernel_ok env make_header \<longleftrightarrow>
     (\<forall>msg st. controllers_kept st (snd (shell_listener env msg st)) \<and> controllers_kept st (snd (control_listener env msg st))) \<and>
     (\<forall>tpc. \<exists>w. welcome_message (env_json env) make_header (Some (server_serialize_iopub env)) tpc = Inr w)"

lemma controllers_kept_trans: "controllers_kept a b \<Longrightarrow> controllers_kept b c \<Longrightarrow> controllers_kept a c"
  by (simp add: controllers_kept_def)

lemma controller_socket_cases: "controller_socket k = Sv_publisher_controller \<or> controller_socket k = Sv_heartbeat_controller"
  by (cases k) simp_all

lemma poll_keeps_controllers:
  assumes "from_outside poll" "poll_channels env poll st = (r, st')"
  shows "controllers_kept st st'"
proof (cases poll)
  case (Poll_error e)
  with assms(2) show ?thesis
    by (auto simp: poll_channels_def try_catch_def prog_simps controllers_kept_def split: if_splits)
next
  case (Poll_arrivals batch)
  let ?n = "arrive batch (sv_net st)"
  have n: "inbox ?n (controller_socket k) = inbox (sv_net st) (controller_socket k)" for k
    using assms(1) controller_socket_cases [of k] by (auto simp: Poll_arrivals)
  have "sv_net st' = ?n \<or> (\<exists>s. sv_net st' = read_from s ?n \<and> s \<in> {Sv_shell, Sv_controller})"
    using assms(2) by (auto simp: Poll_arrivals poll_channels_eq Let_def next_message_def split: list.splits sum.splits if_splits)
  moreover have "controller_socket k \<noteq> Sv_shell" "controller_socket k \<noteq> Sv_controller" for k
    using controller_socket_cases [of k] by auto
  ultimately show ?thesis
    using n by (auto simp: controllers_kept_def read_from_def)
qed

lemma server_turn_keeps_controllers:
  assumes ok: "default_kernel_ok env make_header" and "from_outside poll" "server_turn env poll st = (r, st')"
  shows "controllers_kept st st'"
proof -
  obtain r1 st1 where poll: "poll_channels env poll st = (r1, st1)" by fastforce
  note kept = poll_keeps_controllers [OF assms(2) poll]
  have notify: "controllers_kept s (snd (notify env c m s))" for c m s
  proof -
    let ?s = "s\<lparr>notified := notified s @ [(c, m)]\<rparr>"
    have "controllers_kept ?s (snd (notify env c m s))"
      using ok by (cases c) (auto simp: default_kernel_ok_def notify_def seq_def prog_simps)
    then show ?thesis by (simp add: controllers_kept_def)
  qed
  show ?thesis
  proof (cases r1)
    case (Inl f)
    with assms(3) poll kept show ?thesis by (simp add: server_turn_resolved seq_def)
  next
    case (Inr msg)
    have "controllers_kept st1 st'"
    proof (cases msg)
      case None
      with assms(3) poll Inr show ?thesis by (simp add: server_turn_resolved seq_def prog_simps controllers_kept_def)
    next
      case (Some mc)
      obtain m c where mc: "mc = (m, c)" by fastforce
      have "st' = snd (notify env c m st1)"
        using assms(3) poll Inr Some mc
        by (cases c) (auto simp: server_turn_resolved seq_def prog_simps split: prod.splits sum.splits)
      with notify show ?thesis by simp
    qed
    with kept show ?thesis by (rule controllers_kept_trans)
  qed
qed

text \<open>Every kernel that only calls the methods of the server keeps the first of these.\<close>

definition keeps_controllers :: "('j server, 'a) prog \<Rightarrow> bool" where
  "keeps_controllers p \<longleftrightarrow> (\<forall>st. controllers_kept st (snd (p st)))"

lemma keeps_seq: "keeps_controllers p \<Longrightarrow> (\<And>x. keeps_controllers (f x)) \<Longrightarrow> keeps_controllers (seq p f)"
  by (auto simp: keeps_controllers_def seq_def split: prod.split sum.split)
    (metis controllers_kept_trans snd_conv)+

lemma keeps_try_catch: "keeps_controllers p \<Longrightarrow> (\<And>e. keeps_controllers (h e)) \<Longrightarrow> keeps_controllers (try_catch p h)"
  by (auto simp: keeps_controllers_def try_catch_def split: prod.split sum.split fault.split)
    (metis controllers_kept_trans snd_conv)+

lemma keeps_simple:
  "keeps_controllers (ret x)" "keeps_controllers (lift_res r)" "keeps_controllers (set_request_stop b)"
  "keeps_controllers (on_net (net_send Sv_shell w))" "keeps_controllers (on_net (net_send Sv_controller w))"
  "keeps_controllers (on_net (net_send Sv_stdin w))" "keeps_controllers (on_net (net_send Sv_publisher_pub w))"
  "keeps_controllers (on_net (net_recv Sv_stdin))" "keeps_controllers (on_net (modify (arrive (map (Pair Sv_stdin) reply))))"
proof -
  have "on_socket s (map (Pair Sv_stdin) reply) = (if s = Sv_stdin then reply else [])" for s
    by (induction reply) auto
  moreover have "controller_socket k \<noteq> Sv_shell" "controller_socket k \<noteq> Sv_controller" "controller_socket k \<noteq> Sv_stdin"
    "controller_socket k \<noteq> Sv_publisher_pub" for k
    using controller_socket_cases [of k] by auto
  moreover note this [THEN not_sym]
  ultimately show "keeps_controllers (ret x)" "keeps_controllers (lift_res r)" "keeps_controllers (set_request_stop b)"
    "keeps_controllers (on_net (net_send Sv_shell w))" "keeps_controllers (on_net (net_send Sv_controller w))"
    "keeps_controllers (on_net (net_send Sv_stdin w))" "keeps_controllers (on_net (net_send Sv_publisher_pub w))"
    "keeps_controllers (on_net (net_recv Sv_stdin))" "keeps_controllers (on_net (modify (arrive (map (Pair Sv_stdin) reply))))"
    by (auto simp: keeps_controllers_def controllers_kept_def prog_simps set_request_stop_def on_net_eval net_send_def
        net_recv_eq read_from_def)
qed

lemma keeps_run_all: "(\<And>x. keeps_controllers (f x)) \<Longrightarrow> keeps_controllers (run_all f xs)"
  by (induction xs) (auto intro: keeps_seq keeps_simple)

lemma keeps_run_action: "keeps_controllers (run_action (xserver_zmq env) c a)"
  by (cases a) (auto simp: xserver_zmq_def send_shell_def send_control_def send_on_def publish_def stop_impl_def
      intro!: keeps_seq keeps_simple)

lemma keeps_run_call:
  assumes "\<And>msg. keeps_controllers (stdin_listener env msg)"
  shows "keeps_controllers (run_call (xserver_zmq env) call)"
proof (cases call)
  case (Act a)
  then show ?thesis by (simp add: keeps_run_action)
next
  case (Input m reply)
  have "keeps_controllers (send_stdin_impl env m (map (Pair Sv_stdin) [reply]))"
    unfolding send_stdin_impl_def send_stdin_def send_on_def
    by (intro keeps_seq keeps_try_catch keeps_simple) (simp split: option.split add: keeps_simple assms)
  then show ?thesis by (simp add: Input xserver_zmq_def)
qed

lemma api_kernel_ok:
  assumes "\<forall>tpc. \<exists>w. welcome_message J make_header
    (Some (server_serialize_iopub (kernel_env xserver_zmq J auth eh K :: 'j default_env))) tpc = Inr w"
  shows "default_kernel_ok (kernel_env xserver_zmq J auth eh K) make_header"
proof -
  let ?W = "\<lambda>l. xserver_zmq (stdin_env J auth eh l)"
  have stdin: "keeps_controllers (stdin_handler ?W K msg)" for msg
    unfolding stdin_handler_def by (intro keeps_run_all keeps_run_action)
  have "keeps_controllers (shell_listener (kernel_env xserver_zmq J auth eh K) msg)"
    "keeps_controllers (control_listener (kernel_env xserver_zmq J auth eh K) msg)" for msg
    by (auto simp: kernel_env_def Let_def stdin_env_def
        intro!: keeps_run_all keeps_run_call [unfolded stdin_env_def] keeps_run_action stdin [unfolded stdin_env_def])
  with assms show ?thesis by (simp add: default_kernel_ok_def keeps_controllers_def kernel_env_def stdin_env_def Let_def)
qed

section \<open>Steps of the threads are steps of the network\<close>

lemma default_wires_simps [simp]:
  "w_pc (default_wires s) = dy_pc s" "w_delivered (default_wires s) = dy_delivered s" "w_taken (default_wires s) = dy_taken s"
  "w_running (default_wires s) = dy_running s" "w_inbox (default_wires s) 0 = inbox (dy_publisher s) Pub_controller"
  "w_inbox (default_wires s) (Suc 0) = inbox (dy_heartbeat s) Hb_controller"
  "w_answered (default_wires s) 0 = on_socket Pub_controller (outbox (dy_publisher s))"
  "w_answered (default_wires s) (Suc 0) = on_socket Hb_controller (outbox (dy_heartbeat s))"
  by (simp_all add: default_wires_def)

text \<open>No reply has been handed over and not been read; and who has escaped from the loop has not begun the stop.\<close>

definition default_idle :: "'j default_system \<Rightarrow> bool" where
  "default_idle s \<longleftrightarrow> (\<forall>k. inbox (sv_net (dy_server s)) (controller_socket k) = []) \<and> (dy_escaped s \<longrightarrow> dy_pc s = Serving)"

lemma controller_send_run:
  "on_net (net_send c [w]) st = (Inr (), st\<lparr>sv_net := (sv_net st)\<lparr>outbox := outbox (sv_net st) @ [(c, [w])]\<rparr>\<rparr>)"
  by (simp add: on_net_eval net_send_def)

lemma controller_reply_run:
  assumes "inbox (sv_net st) c = []"
  shows "\<exists>n. seq (on_net (modify (arrive [(c, [f])]))) (\<lambda>_. on_net (net_recv_frame c)) st = (Inr f, st\<lparr>sv_net := n\<rparr>) \<and>
    inbox n = inbox (sv_net st) \<and> outbox n = outbox (sv_net st)"
  using assms by (auto simp: seq_def on_net_eval modify_def net_recv_frame_def arrive_def fun_eq_iff)

lemma default_put_wires:
  assumes "k < 2"
  shows "default_wires (s\<lparr>dy_server := (dy_server s)\<lparr>sv_net := (sv_net (dy_server s))
      \<lparr>outbox := outbox (sv_net (dy_server s)) @ [(controller_socket k, [w])]\<rparr>\<rparr>, dy_pc := pc\<rparr>)
    = put_request k w pc (default_wires s)"
  using assms by (auto simp: default_wires_def put_request_def fun_eq_iff below_2)

lemma default_take_wires:
  "outbox n = outbox (sv_net (dy_server s)) \<Longrightarrow>
   default_wires (s\<lparr>dy_server := (dy_server s)\<lparr>sv_net := n\<rparr>, dy_pc := pc, dy_taken := (dy_taken s)(k := Suc (dy_taken s k))\<rparr>)
     = take_reply k pc (default_wires s)"
  by (auto simp: default_wires_def take_reply_def fun_eq_iff)

lemma default_hand_wires:
  assumes "k < 2"
  shows "default_wires ((default_hand_request k m s)\<lparr>dy_delivered := (dy_delivered s)(k := Suc (dy_delivered s k))\<rparr>)
    = hand_over k m (default_wires s)"
  using assms by (auto simp: default_wires_def default_hand_request_def hand_over_def below_2 fun_eq_iff)

lemma default_step_wires:
  assumes ok: "default_kernel_ok env make_header" and step: "default_step env make_header s s'"
    and idle: "default_idle s" and inv: "wires_inv echo_order (default_wires s)"
  shows "(default_wires s' = default_wires s \<or> wires_step echo_order (default_wires s) (default_wires s')) \<and> default_idle s'"
proof -
  have greets: "\<forall>tpc. \<exists>w. welcome_message (env_json env) make_header (Some (server_serialize_iopub env)) tpc = Inr w"
    using ok by (simp add: default_kernel_ok_def)
  have empty: "\<And>k. inbox (sv_net (dy_server s)) (controller_socket k) = []" using idle by (simp add: default_idle_def)
  note single = reply_single [OF inv echo_stop_order_ok]
  have main: "default_wires s' = default_wires s\<lparr>w_pc := pc\<rparr> \<and> (\<forall>k. inbox (sv_net srv) (controller_socket k) = [])"
    if "s' = s\<lparr>dy_server := srv, dy_pc := pc, dy_escaped := b\<rparr>" "from_outside poll" "server_turn env poll (dy_server s) = (r, srv)"
    for srv pc b poll r
    using server_turn_keeps_controllers [OF ok that(2,3)] that(1) empty
    by (auto simp: default_wires_def controllers_kept_def fun_eq_iff)
  from step obtain a where "default_act env make_header a s s'" by (auto simp: default_step_def)
  then show ?thesis
  proof (cases rule: default_act.cases)
    case (publisher batch status n)
    have "default_wires s' = after_turn 0 (inbox n Pub_controller) (on_socket Pub_controller (outbox n)) (status = Running)
        (default_wires s)"
      by (auto simp: publisher(2) default_wires_def after_turn_def fun_eq_iff)
    then show ?thesis
      using thread_turn_wires [of 0 echo_order "default_wires s" Pub_controller "dy_publisher s" status n]
        pub_thread.turn_serves [OF greets publisher(5)] publisher(2-4) idle by (simp add: default_idle_def)
  next
    case (heartbeat batch status n)
    have "default_wires s' = after_turn 1 (inbox n Hb_controller) (on_socket Hb_controller (outbox n)) (status = Running)
        (default_wires s)"
      by (auto simp: heartbeat(2) default_wires_def after_turn_def fun_eq_iff)
    then show ?thesis
      using thread_turn_wires [of 1 echo_order "default_wires s" Hb_controller "dy_heartbeat s" status n]
        hb_thread.turn_serves [OF TrueI heartbeat(5)] heartbeat(2-4) idle by (simp add: default_idle_def)
  next
    case (deliver k m rest)
    have "default_wires s' = hand_over k m (default_wires s)" using default_hand_wires [OF deliver(3)] deliver(2) by simp
    moreover have "default_idle s'" using idle deliver(2) by (simp add: default_idle_def default_hand_request_def)
    ultimately show ?thesis using wires_step.deliver [of k echo_order "default_wires s" m rest] deliver(3,4) by simp
  next
    case (serve poll status srv)
    let ?pc = "if status = Running then Serving else Ask 0"
    from main [where srv = srv and pc = ?pc and b = "dy_escaped s" and poll = poll] serve
    have "default_wires s' = default_wires s\<lparr>w_pc := ?pc\<rparr>" "\<forall>k. inbox (sv_net srv) (controller_socket k) = []"
      by simp_all
    moreover have "default_wires s\<lparr>w_pc := Serving\<rparr> = default_wires s" using serve(3) by (simp add: default_wires_def)
    ultimately show ?thesis
      using wires_step.quit [of "default_wires s" echo_order] serve(2-4) by (auto simp: default_idle_def)
  next
    case (escape poll e srv)
    from main [where srv = srv and pc = Serving and b = True and poll = poll] escape
    have "default_wires s' = default_wires s\<lparr>w_pc := Serving\<rparr>" "\<forall>k. inbox (sv_net srv) (controller_socket k) = []"
      by simp_all
    moreover have "default_wires s\<lparr>w_pc := Serving\<rparr> = default_wires s" using escape(3) by (simp add: default_wires_def)
    ultimately show ?thesis using escape(2,3) by (simp add: default_idle_def)
  next
    case (ask k srv)
    have k: "k < 2" using inv ask(3) by (simp add: wires_inv_def protocol_inv_def wires_protocol_def)
    have "default_wires s' = put_request k (stop_frame echo_order k) (Await k) (default_wires s)" "default_idle s'"
      using ask idle by (auto simp: controller_send_run default_put_wires [OF k] default_idle_def)
    then show ?thesis using wires_step.ask [of "default_wires s" k echo_order] ask(3) by simp
  next
    case (advance k m rest response srv)
    obtain r where m: "m = [r]" using single [OF advance(4)] advance(3) by auto
    obtain n where "srv = (dy_server s)\<lparr>sv_net := n\<rparr>" "inbox n = inbox (sv_net (dy_server s))" "outbox n = outbox (sv_net (dy_server s))"
      using controller_reply_run [OF empty, of k r] advance(5) by (auto simp: m)
    then have "default_wires s' = take_reply k (after_reply echo_order k) (default_wires s)" "default_idle s'"
      using advance(2,3) idle by (auto simp: default_take_wires default_idle_def)
    then show ?thesis using wires_step.advance [of "default_wires s" k m rest echo_order] advance(3,4) by simp
  qed
qed

section \<open>The stop can always be completed\<close>

lemma default_stop_served:
  assumes ok: "default_kernel_ok env make_header" and "k < 2" "dy_running s k"
    "w_inbox (default_wires s) k = [[stop_frame echo_order k]]"
  shows "\<exists>s'. (default_step env make_header)\<^sup>*\<^sup>* s s' \<and> dy_pc s' = dy_pc s \<and> \<not> dy_running s' k"
proof (cases "k = 0")
  case True
  have greets: "\<forall>tpc. \<exists>w. welcome_message (env_json env) make_header (Some (server_serialize_iopub env)) tpc = Inr w"
    using ok by (simp add: default_kernel_ok_def)
  define emb where "emb n r = s\<lparr>dy_publisher := n, dy_running := (dy_running s)(0 := r)\<rparr>" for n r
  have "emb (dy_publisher s) True = s" using assms(3) True by (simp add: emb_def fun_upd_idem)
  moreover have "default_step env make_header (emb n True) (emb n' (status = Running))"
    if "publisher_turn (env_json env) make_header (Some (server_serialize_iopub env)) (Poll_arrivals []) n = (Inr status, n')"
    for n status n'
    using default_step_publisher [of "emb n True" "[]" env make_header status n'] that by (simp add: emb_def)
  note pub_thread.eventually_served [where emb = emb and step = "default_step env make_header" and st = "dy_publisher s"
      and w = "''stop''", OF greets this]
  ultimately obtain n where "(default_step env make_header)\<^sup>*\<^sup>* s (emb n False)" using assms(4) True by auto
  then show ?thesis using True by (intro exI [of _ "emb n False"]) (simp add: emb_def)
next
  case False
  with assms(2) have k: "k = 1" by simp
  define emb where "emb n r = s\<lparr>dy_heartbeat := n, dy_running := (dy_running s)(1 := r)\<rparr>" for n r
  have "emb (dy_heartbeat s) True = s" using assms(3) k by (simp add: emb_def fun_upd_idem)
  moreover have "default_step env make_header (emb n True) (emb n' (status = Running))"
    if "heartbeat_turn (Poll_arrivals []) n = (Inr status, n')" for n status n'
    using default_step_heartbeat [of "emb n True" "[]" status n' env make_header] that by (simp add: emb_def)
  note hb_thread.eventually_served [where emb = emb and step = "default_step env make_header" and st = "dy_heartbeat s"
      and w = "[]", OF TrueI this]
  ultimately obtain n where "(default_step env make_header)\<^sup>*\<^sup>* s (emb n False)" using assms(4) k by auto
  then show ?thesis using k by (intro exI [of _ "emb n False"]) (simp add: emb_def)
qed

lemma default_asks: "dy_pc s = Ask k \<Longrightarrow> \<exists>s'. default_step env make_header s s' \<and> dy_pc s' = Await k"
  using default_step_ask [OF _ controller_send_run, of s k env make_header] by (intro exI conjI) (assumption | simp)+

lemma default_delivers:
  assumes "k < 2" "requests_under_way (default_wires s) k = [stop_frame echo_order k] # rest"
  shows "\<exists>s'. default_step env make_header s s' \<and> default_wires s' = hand_over k [stop_frame echo_order k] (default_wires s)"
  using default_step_deliver [OF assms, of env make_header] default_hand_wires [OF assms(1)] by blast

lemma default_advances:
  assumes "default_idle s" "dy_pc s = Await k" "replies_under_way (default_wires s) k = [r] # rest"
  shows "\<exists>s'. default_step env make_header s s' \<and> dy_pc s' = after_reply echo_order k"
proof -
  have "inbox (sv_net (dy_server s)) (controller_socket k) = []" using assms(1) by (simp add: default_idle_def)
  from controller_reply_run [OF this, of r] obtain n where
    "seq (on_net (modify (arrive [(controller_socket k, [r])]))) (\<lambda>_. on_net (net_recv_frame (controller_socket k))) (dy_server s)
      = (Inr r, (dy_server s)\<lparr>sv_net := n\<rparr>)" by blast
  from default_step_advance [OF assms(2,3) this, of env make_header] show ?thesis
    by (intro exI conjI) (assumption | simp)+
qed

interpretation dflt: stopping_process "default_step env make_header" initial_default default_wires echo_order
    "default_kernel_ok env make_header" default_idle "\<lambda>s. True" for env make_header
proof
  show "default_wires initial_default = initial_wires"
    by (auto simp: default_wires_def initial_default_def initial_wires_def empty_net_def)
  show "default_idle initial_default" by (simp add: default_idle_def initial_default_def empty_net_def)
qed (use default_step_wires default_asks default_delivers default_stop_served default_advances echo_stop_order_ok in \<open>simp_all\<close>)

text \<open>The exchanges of the system are those of \<open>stop_channels\<close>: run without interruption they are the same program.\<close>

lemma default_stops_by_exchanges:
  "stop_channels arriving = on_net (
     seq (stop_exchange (controller_socket 0) (stop_frame echo_order 0) (arriving 0)) (\<lambda>_.
     seq (stop_exchange (controller_socket 1) (stop_frame echo_order 1) (arriving 1)) (\<lambda>_. ret ())))"
  by (simp only: echo_order_simps, simp add: fun_eq_iff stop_channels_def on_net_eval stop_exchange_def seq_def
      prog_simps split: prod.split sum.split)

section \<open>Properties\<close>

definition sample_default_env :: "jv default_env" where
  "sample_default_env = quiet_env\<lparr>env_json := sample_json\<lparr>j_dump := \<lambda>eh v. Inr (jv_print v)\<rparr>\<rparr>"

lemma sample_default_kernel_ok: "default_kernel_ok sample_default_env (\<lambda>msg_type user session. JStr msg_type)"
  by (simp add: default_kernel_ok_def controllers_kept_def sample_default_env_def quiet_env_def set_request_stop_def prog_simps
      welcome_message_def server_serialize_iopub_def create_xpub_message_def sample_json_def make_xpub_message_def
      serialize_iopub_def serialize_message_base_def)

text \<open>
  C16. The threads of the single-threaded server: however the main thread, the publisher and the heartbeat
  interleave, in every reachable state both threads run until \<^verbatim>\<open>stop_channels\<close> has asked the publisher to
  stop, each stops as it sends its answer, the heartbeat is asked only when the publisher has
  stopped, and neither is left when the call returns; but once an exception has left the main loop, both run for ever.
\<close>

theorem default_threads_stop_in_order:
  assumes "default_kernel_ok env make_header" "reachable_default env make_header s" "j < 2"
  shows "(dy_running s j \<longleftrightarrow> (case dy_pc s of Serving \<Rightarrow> True | Requesting \<Rightarrow> True | Ask k \<Rightarrow> k \<le> j
      | Await k \<Rightarrow> k < j \<or> (k = j \<and> replies_under_way (default_wires s) k = []) | Finished \<Rightarrow> False)) \<and>
    (dy_escaped s \<longrightarrow> (\<forall>s'. (default_step env make_header)\<^sup>*\<^sup>* s s' \<longrightarrow> dy_running s' j))"
proof (intro conjI impI allI)
  have runs: "dy_running t j \<longleftrightarrow> (case dy_pc t of Serving \<Rightarrow> True | Requesting \<Rightarrow> True | Ask k \<Rightarrow> k \<le> j
      | Await k \<Rightarrow> k < j \<or> (k = j \<and> replies_under_way (default_wires t) k = []) | Finished \<Rightarrow> False)"
    "default_idle t" if "(default_step env make_header)\<^sup>*\<^sup>* initial_default t" for t
    using dflt.reachable_inv [OF that assms(1)] running_iff [of echo_order "default_wires t" j] assms(3) by simp_all
  note s = assms(2) [unfolded reachable_default_def]
  show "dy_running s j \<longleftrightarrow> (case dy_pc s of Serving \<Rightarrow> True | Requesting \<Rightarrow> True | Ask k \<Rightarrow> k \<le> j
      | Await k \<Rightarrow> k < j \<or> (k = j \<and> replies_under_way (default_wires s) k = []) | Finished \<Rightarrow> False)"
    by (rule runs(1) [OF s])
  fix s' assume escaped: "dy_escaped s" and steps: "(default_step env make_header)\<^sup>*\<^sup>* s s'"
  from steps have "dy_escaped s'"
    by (induction rule: rtranclp_induct) (use escaped in \<open>auto simp: default_step_def elim!: default_act.cases simp: default_hand_request_def\<close>)
  with runs [OF rtranclp_trans [OF s steps]] show "dy_running s' j" by (simp add: default_idle_def)
qed

text \<open>A malformed shell message is read.\<close>

theorem default_threads_stop_in_order_witness:
  "\<exists>s. reachable_default sample_default_env (\<lambda>msg_type user session. JStr msg_type) s \<and>
    (\<forall>s'. (default_step sample_default_env (\<lambda>msg_type user session. JStr msg_type))\<^sup>*\<^sup>* s s' \<longrightarrow> dy_running s' 1)"
proof -
  let ?poll = "Poll_arrivals [(Sv_shell, [''garbage''])]"
  have "deserialize (env_json sample_default_env) [''garbage''] (p_auth sample_default_env)
      = Inl (Throws (Runtime_error ''ERROR: Delimiter not present in message''))"
    by (simp add: deserialize_def deserialize_zmq_id_missing DELIMITER_def)
  then obtain e srv where "server_turn sample_default_env ?poll (dy_server initial_default) = (Inl (Throws e), srv)"
    by (simp add: server_turn_resolved seq_def poll_channels_eq initial_default_def next_message_def empty_net_def arrive_def)
  with default_step_escape [of initial_default ?poll sample_default_env e srv "\<lambda>msg_type user session. JStr msg_type"]
  have "reachable_default sample_default_env (\<lambda>msg_type user session. JStr msg_type) (initial_default\<lparr>dy_server := srv, dy_escaped := True\<rparr>)"
    by (simp add: reachable_default_def initial_default_def)
  with default_threads_stop_in_order [OF sample_default_kernel_ok this, of 1] show ?thesis by auto
qed

text \<open>A stop is requested: a message arrives on the control socket and its listener asks for it.\<close>

lemma default_stop_requested:
  "\<exists>s. reachable_default sample_default_env (\<lambda>msg_type user session. JStr msg_type) s \<and> dy_pc s = Ask 0"
proof -
  let ?m = "[''id'', DELIMITER, ''s'', ''H'', ''{}'', ''{}'', ''{}'']"
  obtain msg where "deserialize (env_json sample_default_env) ?m (p_auth sample_default_env) = Inr msg"
    using deserialize_found [of "[''id'']" "[''s'', ''H'', ''{}'', ''{}'', ''{}'']" "env_json sample_default_env" no_xauthentication]
    by (simp add: sample_default_env_def quiet_env_def deserialize_message_base_parts no_xauthentication_eq sample_json_def DELIMITER_def)
  moreover have "control_listener sample_default_env = (\<lambda>msg. set_request_stop True)"
    by (simp add: sample_default_env_def quiet_env_def)
  ultimately obtain srv :: "jv server" where
    "server_turn sample_default_env (Poll_arrivals [(Sv_controller, ?m)]) (dy_server initial_default) = (Inr Stopped, srv)"
    by (simp add: server_turn_resolved poll_channels_eq next_message_def empty_net_def arrive_def initial_default_def
        notify_def set_request_stop_def seq_def prog_simps Let_def)
  from default_step_serve [of initial_default "Poll_arrivals [(Sv_controller, ?m)]" sample_default_env Stopped srv
      "\<lambda>msg_type user session. JStr msg_type", OF _ _ _ this]
  have s: "reachable_default sample_default_env (\<lambda>msg_type user session. JStr msg_type) (initial_default\<lparr>dy_server := srv, dy_pc := Ask 0\<rparr>)"
    by (simp add: reachable_default_def initial_default_def)
  then show ?thesis by (intro exI [of _ "initial_default\<lparr>dy_server := srv, dy_pc := Ask 0\<rparr>"]) simp
qed

end
