(* ===== verification/Fair_Stop.thy ===== *)
theory Fair_Stop
  imports Default_System Split_System
begin

text \<open>
  The servers under a fair scheduler (\<open>Fair_Runs\<close>): the stop of a single-threaded server comes to its end in every fair
  run, and so does that of a split server whose shell serves the control thread first. The default runner of the split
  servers serves the shell first, and for it there are fair runs in which the stop never ends.
\<close>

section \<open>The single-threaded server\<close>

interpretation fair_dflt: fairly_stopping "default_step env make_header" initial_default default_wires echo_order
    "default_kernel_ok env make_header" default_idle "\<lambda>s. True" "default_act env make_header" for env make_header
proof
  fix s s' :: "'a default_system" and k r m rest
  let ?act = "default_act env make_header"
  show "default_step env make_header s s' \<longleftrightarrow> (\<exists>a. ?act a s s')" by (simp add: default_step_def)
  {
    assume "w_pc (default_wires s) = Ask k"
    then show "\<exists>s'. ?act Controller s s'" using default_act.ask [OF _ controller_send_run] by fastforce
  next
    assume idle: "default_idle s" and "w_pc (default_wires s) = Await k" "replies_under_way (default_wires s) k = [[r]]"
    moreover from idle have "inbox (sv_net (dy_server s)) (controller_socket k) = []" by (simp add: default_idle_def)
    from controller_reply_run [OF this] obtain n where
      "seq (on_net (modify (arrive [(controller_socket k, [r])]))) (\<lambda>_. on_net (net_recv_frame (controller_socket k)))
        (dy_server s) = (Inr r, (dy_server s)\<lparr>sv_net := n\<rparr>)" by blast
    ultimately show "\<exists>s'. ?act Controller s s'" using default_act.advance by fastforce
  next
    assume "?act Controller s s'" "stopping (default_wires s)"
    then show "w_pc (default_wires s') \<noteq> w_pc (default_wires s)"
      by (auto simp: stopping_def elim!: default_act.cases)
  next
    assume "k < length echo_order" "requests_under_way (default_wires s) k = m # rest"
    then show "\<exists>s'. ?act (Network k) s s'" using default_act.deliver [of k s m rest env make_header] by auto
  next
    assume "?act (Network k) s s'"
    then show "w_delivered (default_wires s') k \<noteq> w_delivered (default_wires s) k"
      by (auto elim!: default_act.cases)
  next
    assume ok: "default_kernel_ok env make_header" and "k < length echo_order" "w_running (default_wires s) k"
    moreover from ok obtain status n where
      "publisher_turn (env_json env) make_header (Some (server_serialize_iopub env)) (Poll_arrivals []) (dy_publisher s) = (Inr status, n)"
      using publisher_turn_ok [of "env_json env" make_header "Some (server_serialize_iopub env)" "Poll_arrivals []" "dy_publisher s"]
      by (auto simp: default_kernel_ok_def)
    moreover obtain status' n' where "heartbeat_turn (Poll_arrivals []) (dy_heartbeat s) = (Inr status', n')"
      using heartbeat_turn_ok by blast
    ultimately show "\<exists>s'. ?act (Channel k) s s'"
      using default_act.publisher [of s "[]" env make_header status n] default_act.heartbeat [of s "[]" status' n' env make_header]
      by (auto simp: below_2)
  next
    assume "?act (Channel k) s s'" "w_inbox (default_wires s) k = [[stop_frame echo_order k]]"
    then show "\<not> w_running (default_wires s') k"
      by (auto elim!: default_act.cases dest!: publisher_turn_ctl heartbeat_turn_ctl)
  }
qed

section \<open>Split servers\<close>

lemma split_finished_rests:
  assumes "wires_inv split_order (split_wires s)" "w_pc (split_wires s) = Finished"
  shows "\<not> runner_act turn env make_header a s s'"
proof
  note views = wires_views [OF assms(1)]
  assume "runner_act turn env make_header a s s'"
  then show False
    using assms(2) views [of 0] views [of 1] views [of 2] by (cases rule: runner_act.cases) (auto simp: gone_view_def below_3)
qed

text \<open>A shell runner that serves the control thread whenever it asks.\<close>

locale prompt_runner = split_shell_runner +
  assumes prompt_returns: "kernel_ok \<Longrightarrow> inbox (sp_shell st) Sh_controller = [[''stop'']] \<Longrightarrow>
      \<exists>status st'. turn [] st = (Inr status, st')"
    and prompt_stops: "kernel_ok \<Longrightarrow> inbox (sp_shell st) Sh_controller = [[''stop'']] \<Longrightarrow>
      on_socket Sh_controller batch = [] \<Longrightarrow> turn batch st = (Inr status, st') \<Longrightarrow> status = Stopped"

sublocale prompt_runner \<subseteq> fair_split: fairly_stopping "runner_step turn env make_header" initial_system split_wires
    split_order kernel_ok messenger_idle "runner_fit fit" "runner_act turn env make_header"
proof
  fix s s' :: "'a split_system" and k r m rest
  let ?act = "runner_act turn env make_header"
  show "runner_step turn env make_header s s' \<longleftrightarrow> (\<exists>a. ?act a s s')" by (simp add: runner_step_def)
  {
    assume "w_pc (split_wires s) = Ask k"
    then show "\<exists>s'. ?act Controller s s'" using runner_act.ask [OF _ messenger_send_run] by fastforce
  next
    assume idle: "messenger_idle s" and "w_pc (split_wires s) = Await k" "replies_under_way (split_wires s) k = [[r]]"
    moreover from idle have "\<And>c. inbox (sp_messenger (sy_server s)) c = []" by (simp add: messenger_idle_def)
    note messenger_reply_run(2) [OF this, of k r]
    ultimately show "\<exists>s'. ?act Controller s s'" using runner_act.advance by fastforce
  next
    assume "?act Controller s s'" "stopping (split_wires s)"
    then show "w_pc (split_wires s') \<noteq> w_pc (split_wires s)"
      by (auto simp: stopping_def elim!: runner_act.cases)
  next
    assume "k < length split_order" "requests_under_way (split_wires s) k = m # rest"
    then show "\<exists>s'. ?act (Network k) s s'" using runner_act.deliver [of k s m rest turn env make_header] by auto
  next
    assume "?act (Network k) s s'"
    then show "w_delivered (split_wires s') k \<noteq> w_delivered (split_wires s) k"
      by (auto elim!: runner_act.cases)
  next
    assume ok: kernel_ok and k: "k < length split_order" "w_running (split_wires s) k"
      "w_inbox (split_wires s) k = [[stop_frame split_order k]]"
    obtain status n where
      "publisher_turn (env_json env) make_header (split_publisher_cb env) (Poll_arrivals []) (sy_publisher s) = (Inr status, n)"
      using control_side [OF ok] publisher_turn_ok [of "env_json env" make_header "split_publisher_cb env" "Poll_arrivals []" "sy_publisher s"]
      by (auto simp: control_side_ok_def)
    moreover obtain status' n' where "heartbeat_turn (Poll_arrivals []) (sy_heartbeat s) = (Inr status', n')"
      using heartbeat_turn_ok by blast
    moreover have "k = 0 \<Longrightarrow> \<exists>status st'. turn [] (sy_server s) = (Inr status, st')"
      using k(3) by (intro prompt_returns [OF ok]) simp
    ultimately show "\<exists>s'. ?act (Channel k) s s'"
      using runner_act.publisher [of s "[]" env make_header status n turn] runner_act.heartbeat [of s "[]" status' n' turn env make_header]
        runner_act.shell [of s "[]" turn _ _ env make_header] k by (auto simp: below_3)
  next
    assume "?act (Channel k) s s'" "w_inbox (split_wires s) k = [[stop_frame split_order k]]" and ok: kernel_ok
    then show "\<not> w_running (split_wires s') k"
      by (auto elim!: runner_act.cases dest!: publisher_turn_ctl heartbeat_turn_ctl prompt_stops [OF ok])
  }
qed

text \<open>Those that poll by themselves and prefer the control thread.\<close>

definition control_first :: "(bool \<Rightarrow> bool \<Rightarrow> channel option) \<Rightarrow> bool" where
  "control_first pick \<longleftrightarrow> fair_choice pick \<and> (\<forall>shell. pick shell True = Some CONTROL)"

lemma polled_turn_prompt:
  assumes "control_first pick" "shell_listeners env f" "inbox (sp_shell st) Sh_controller = [[''stop'']]"
    "on_socket Sh_controller batch = []"
  shows "\<exists>st'. polled_turn pick env batch st = (Inr Stopped, st')"
proof -
  define n where n: "n = arrive batch (sp_shell st)"
  have m: "inbox (sp_shell (st\<lparr>sp_shell := n\<rparr>)) Sh_controller = [''stop''] # []" using assms(3,4) by (simp add: n)
  from shell_serve_controller [OF m assms(2) stop_frame_fit] assms(1) m show ?thesis
    by (auto simp: polled_turn_serves_chosen [OF n] control_first_def)
qed

lemma control_first_runner:
  assumes "control_first pick"
  shows "prompt_runner (polled_turn pick env) (split_kernel_ok env f make_header)
    (\<lambda>st. inbox_ok env f (sp_shell st)) (\<lambda>n. length (inbox n Sh_shell)) env make_header"
proof (rule prompt_runner.intro [OF polled_runner])
  show "fair_choice pick" using assms by (simp add: control_first_def)
  show "prompt_runner_axioms (polled_turn pick env) (split_kernel_ok env f make_header)"
  proof
    fix st st' :: "'a split_server" and batch status
    assume "split_kernel_ok env f make_header" and waits: "inbox (sp_shell st) Sh_controller = [[''stop'']]"
    then have ok: "shell_listeners env f" by (simp add: split_kernel_ok_def)
    show "\<exists>status st'. polled_turn pick env [] st = (Inr status, st')"
      using polled_turn_prompt [OF assms ok waits, of "[]"] by auto
    assume "on_socket Sh_controller batch = []" "polled_turn pick env batch st = (Inr status, st')"
    with polled_turn_prompt [OF assms ok waits this(1)] show "status = Stopped" by auto
  qed
qed

context prompt_runner
begin

lemma prompt_fair_stop:
  assumes kernel_ok "fair_run (runner_act turn env make_header) f" "(runner_step turn env make_header)\<^sup>*\<^sup>* initial_system (f 0)"
    "sy_pc (f i) = Ask k \<or> sy_pc (f i) = Await k"
  shows "\<exists>n\<ge>i. \<forall>m\<ge>n. sy_pc (f m) = Finished \<and> (\<forall>j < 3. \<not> sy_running (f m) j)"
proof -
  have "stopping (split_wires (f i))" using assms(4) by (auto simp: stopping_def)
  from fair_split.fair_stop [OF assms(1-3) this] show ?thesis by simp
qed

lemma split_fair_run:
  assumes kernel_ok "(runner_step turn env make_header)\<^sup>*\<^sup>* initial_system s" "runner_fit fit s" "sy_pc s = Ask k"
  shows "\<exists>run. fair_run (runner_act turn env make_header) run \<and> run 0 = s"
proof -
  have "stopping (split_wires s)" using assms(4) by (auto simp: stopping_def)
  from fair_split.stop_fair_run [OF assms(1-3) this split_finished_rests] show ?thesis by blast
qed

end

section \<open>A flood of messages on the shell\<close>

text \<open>A turn of the default runner that finds a message on the shell leaves the control thread waiting.\<close>

lemma shell_turn_prefers_shell:
  assumes ok: "split_kernel_ok env f make_header" and fit: "inbox_ok env f (sp_shell st)"
    and m: "shell_message_ok env f (Sh_shell, m)"
  shows "\<exists>st'. shell_turn env (Poll_arrivals [(Sh_shell, m)]) st = (Inr Running, st') \<and>
    inbox (sp_shell st') Sh_controller = inbox (sp_shell st) Sh_controller \<and> inbox_ok env f (sp_shell st')"
proof -
  define n where n: "n = arrive [(Sh_shell, m)] (sp_shell st)"
  let ?st = "st\<lparr>sp_shell := n\<rparr>"
  have listeners: "shell_listeners env f" using ok by (simp add: split_kernel_ok_def)
  have n_ok: "inbox_ok env f n" using fit m by (auto simp: n inbox_ok_def)
  obtain w ms where w: "inbox n Sh_shell = w # ms" by (cases "inbox n Sh_shell") (auto simp: n)
  then have "shell_message_ok env f (Sh_shell, w)" using n_ok by (simp add: inbox_ok_def)
  from shell_serve_shell [of ?st w ms, OF _ listeners this] w obtain st' where
    st': "shell_serve env (Some SHELL) ?st = (Inr Running, st')" "inbox (sp_shell st') = (inbox n)(Sh_shell := ms)" by auto
  with inbox_ok_tail [OF n_ok w] w show ?thesis
    by (intro exI [of _ st']) (simp add: shell_turn_arrivals [OF n] n)
qed

definition starved :: "'j split_env \<Rightarrow> ('j \<Rightarrow> 'j) \<Rightarrow> 'j split_system \<Rightarrow> bool" where
  "starved env f s \<longleftrightarrow> messenger_idle s \<and> wires_inv split_order (split_wires s) \<and> sy_pc s = Await 0 \<and>
     w_inbox (split_wires s) 0 = [[''stop'']] \<and> inbox_ok env f (sp_shell (sy_server s))"

lemma starved_wires:
  assumes "starved env f s"
  shows "\<And>k. k < 3 \<Longrightarrow> sy_running s k \<and> requests_under_way (split_wires s) k = []"
    "w_inbox (split_wires s) 1 = []" "w_inbox (split_wires s) 2 = []" "replies_under_way (split_wires s) 0 = []"
proof -
  have inv: "wires_inv split_order (split_wires s)" "sy_pc s = Await 0" "w_inbox (split_wires s) 0 = [[''stop'']]"
    using assms by (simp_all add: starved_def)
  note view = wires_views [OF inv(1)]
  have zero: "sy_running s 0 \<and> requests_under_way (split_wires s) 0 = [] \<and> replies_under_way (split_wires s) 0 = []"
    using view [of 0] inv(2,3) by (auto simp: under_way_def)
  have others: "sy_running s k \<and> w_inbox (split_wires s) k = [] \<and> requests_under_way (split_wires s) k = []"
    if "k = 1 \<or> k = 2" for k
    using view [of k] inv(2) that by (auto simp: quiet_view_def)
  show "sy_running s k \<and> requests_under_way (split_wires s) k = []" if "k < 3" for k
    using that zero others [of k] by (auto simp: below_3)
  show "w_inbox (split_wires s) 1 = []" "w_inbox (split_wires s) 2 = []" using others [of 1] others [of 2] by auto
  show "replies_under_way (split_wires s) 0 = []" using zero by simp
qed

abbreviation default_shell_act where
  "default_shell_act env \<equiv> runner_act (\<lambda>batch. shell_turn env (Poll_arrivals batch)) env"

lemma starved_turn:
  assumes ok: "split_kernel_ok env f make_header" and m: "shell_message_ok env f (Sh_shell, m)"
    and s: "starved env f s" and a: "a \<in> set [Channel 0, Channel 1, Channel 2]"
  shows "\<exists>s'. default_shell_act env make_header a s s' \<and> starved env f s'"
proof -
  let ?act = "default_shell_act env make_header"
  have keeps: "starved env f s'" if "?act a s s'" "sy_pc s' = Await 0" "w_inbox (split_wires s') 0 = [[''stop'']]"
    "inbox_ok env f (sp_shell (sy_server s'))" for a s'
  proof -
    have "system_step env make_header s s'" using that(1) by (rule runner_stepI)
    then have "(system_step env make_header)\<^sup>*\<^sup>* s s'" by (rule r_into_rtranclp)
    from default_runner.split.steps_inv [OF this ok] s that(2-4) show ?thesis by (simp add: starved_def)
  qed
  note runs = starved_wires(1) [OF s]
  from s have inbox: "inbox (sp_shell (sy_server s)) Sh_controller = [[''stop'']]" "sy_pc s = Await 0"
    "inbox_ok env f (sp_shell (sy_server s))" by (simp_all add: starved_def)
  from a consider "a = Channel 0" | "a = Channel 1" | "a = Channel 2" by auto
  then show ?thesis
  proof cases
    case 1
    from shell_turn_prefers_shell [OF ok inbox(3) m] obtain st' where
      st': "shell_turn env (Poll_arrivals [(Sh_shell, m)]) (sy_server s) = (Inr Running, st')"
        "inbox (sp_shell st') Sh_controller = [[''stop'']]" "inbox_ok env f (sp_shell st')"
      using inbox by auto
    from runner_act.shell [of s "[(Sh_shell, m)]" "\<lambda>batch. shell_turn env (Poll_arrivals batch)" Running st' env make_header]
      st'(1) runs [of 0]
    have "?act a s (s\<lparr>sy_server := st', sy_running := (sy_running s)(0 := True)\<rparr>)" by (simp add: 1)
    from keeps [OF this] st' inbox this show ?thesis by (intro exI conjI) simp_all
  next
    case 2
    obtain status n where n: "publisher_turn (env_json env) make_header (split_publisher_cb env) (Poll_arrivals []) (sy_publisher s)
        = (Inr status, n)"
      using ok publisher_turn_ok [of "env_json env" make_header "split_publisher_cb env" "Poll_arrivals []" "sy_publisher s"]
      by (auto simp: split_kernel_ok_def control_side_ok_def)
    from runner_act.publisher [OF _ _ n] runs [of 1]
    have "?act a s (s\<lparr>sy_publisher := n, sy_running := (sy_running s)(1 := (status = Running))\<rparr>)" by (simp add: 2)
    from keeps [OF this] inbox this show ?thesis by (intro exI conjI) simp_all
  next
    case 3
    obtain status n where n: "heartbeat_turn (Poll_arrivals []) (sy_heartbeat s) = (Inr status, n)"
      using heartbeat_turn_ok by blast
    from runner_act.heartbeat [OF _ _ n] runs [of 2]
    have "?act a s (s\<lparr>sy_heartbeat := n, sy_running := (sy_running s)(2 := (status = Running))\<rparr>)" by (simp add: 3)
    from keeps [OF this] inbox this show ?thesis by (intro exI conjI) simp_all
  qed
qed

lemma starved_others:
  assumes "starved env f s" "a \<notin> set [Channel 0, Channel 1, Channel 2]"
  shows "\<not> default_shell_act env make_header a s s'"
proof
  assume "default_shell_act env make_header a s s'"
  then show False
    using assms starved_wires(1,4) [OF assms(1)] by (cases rule: runner_act.cases) (auto simp: starved_def)
qed

lemma reachable_starves:
  assumes ok: "split_kernel_ok env f make_header" and s: "reachable_system env make_header s" "sy_pc s = Ask 0" "shell_fit env f s"
  shows "\<exists>s1 s2. default_shell_act env make_header Controller s s1 \<and> default_shell_act env make_header (Network 0) s1 s2 \<and>
    starved env f s2"
proof -
  let ?act = "default_shell_act env make_header"
  from default_runner.runner_reachable(2,3) [OF ok s(1) [unfolded reachable_system_def]]
  have inv: "messenger_idle s" "wires_inv split_order (split_wires s)" .
  have quiet: "requests_under_way (split_wires s) 0 = []" "w_inbox (split_wires s) 0 = []" "sy_running s 0"
    using wires_views [OF inv(2), of 0] s(2) by (auto simp: quiet_view_def)
  define s1 where "s1 = s\<lparr>sy_server := (sy_server s)\<lparr>sp_messenger := (sp_messenger (sy_server s))
      \<lparr>outbox := outbox (sp_messenger (sy_server s)) @ [(messenger_channel 0, [''stop''])]\<rparr>\<rparr>, sy_pc := Await 0\<rparr>"
  have ask: "?act Controller s s1"
    using runner_act.ask [OF s(2) messenger_send_run, where env = env and make_header = make_header] by (simp add: s1_def)
  have w1: "split_wires s1 = put_request 0 ''stop'' (Await 0) (split_wires s)"
    using send_request_wires [where k = 0 and s = s and w = "''stop''" and pc = "Await 0"] by (simp add: s1_def)
  have "requests_under_way (split_wires s1) 0 = [''stop''] # []"
    using quiet(1) inv(2) by (simp add: w1 put_request_def requests_under_way_def wires_inv_def)
  note deliver = runner_act.deliver [OF _ this, where env = env and make_header = make_header]
  define s2 where "s2 = (hand_request 0 [''stop''] s1)\<lparr>sy_delivered := (sy_delivered s1)(0 := Suc (sy_delivered s1 0))\<rparr>"
  have del: "?act (Network 0) s1 s2" using deliver by (simp add: s2_def)
  have "(system_step env make_header)\<^sup>*\<^sup>* s s2"
    by (rule rtranclp_trans [OF r_into_rtranclp r_into_rtranclp]) (rule runner_stepI [OF ask] runner_stepI [OF del])+
  from default_runner.split.steps_inv [OF this ok inv]
  have "messenger_idle s2" "wires_inv split_order (split_wires s2)" by simp_all
  moreover have "sy_pc s2 = Await 0" "w_inbox (split_wires s2) 0 = [[''stop'']]" "inbox_ok env f (sp_shell (sy_server s2))"
    using quiet s(3) stop_frame_fit by (auto simp: s2_def s1_def hand_request_def runner_fit_def inbox_ok_def)
  ultimately have "starved env f s2" by (simp add: starved_def)
  with ask del show ?thesis by blast
qed

section \<open>Properties\<close>

lemma default_finished_rests:
  assumes "wires_inv echo_order (default_wires s)" "w_pc (default_wires s) = Finished"
  shows "\<not> default_act env make_header a s s'"
proof
  note views = wires_views [OF assms(1)]
  assume "default_act env make_header a s s'"
  then show False
    using assms(2) views [of 0] views [of 1] by (cases rule: default_act.cases) (auto simp: gone_view_def below_2)
qed

text \<open>
  C17. The stop of a single-threaded server comes to its end under every fair scheduler: in every run, from a reachable
  state, in which no thread and no internal connection is suspended for ever, whatever messages keep arriving for the publisher
  and the heartbeat, once the main thread stops the channels, \<^verbatim>\<open>stop_channels\<close> has returned from some moment on and
  neither thread runs.
\<close>

theorem default_stop_fair:
  assumes "default_kernel_ok env make_header" "fair_run (default_act env make_header) f"
    "reachable_default env make_header (f 0)" "dy_pc (f i) = Ask k \<or> dy_pc (f i) = Await k"
  shows "\<exists>n\<ge>i. \<forall>m\<ge>n. dy_pc (f m) = Finished \<and> (\<forall>j < 2. \<not> dy_running (f m) j)"
proof -
  have "stopping (default_wires (f i))" using assms(4) by (auto simp: stopping_def)
  from fair_dflt.fair_stop [OF assms(1,2) assms(3) [unfolded reachable_default_def] this] show ?thesis by simp
qed

theorem default_stop_fair_witness:
  "\<exists>f n. fair_run (default_act sample_default_env (\<lambda>msg_type user session. JStr msg_type)) f \<and> dy_pc (f 0) = Ask 0 \<and>
    (\<forall>m\<ge>n. dy_pc (f m) = Finished \<and> (\<forall>j < 2. \<not> dy_running (f m) j))"
proof -
  let ?header = "\<lambda>msg_type user session. JStr msg_type"
  obtain s where s: "reachable_default sample_default_env ?header s" "dy_pc s = Ask 0"
    using default_stop_requested by blast
  then have "stopping (default_wires s)" by (simp add: stopping_def)
  from fair_dflt.stop_fair_run [OF sample_default_kernel_ok s(1) [unfolded reachable_default_def] TrueI this default_finished_rests]
  obtain f where f: "fair_run (default_act sample_default_env ?header) f" "f 0 = s" by blast
  with default_stop_fair [OF sample_default_kernel_ok f(1), of 0 0] s show ?thesis by auto
qed



text \<open>
  C19. The default runner of the split servers serves the shell first, so that a front end that keeps sending to the shell
  keeps the server from stopping: from every reachable state in which the control thread begins to stop the
  channels, with well-formed messages on the shell, there is a run, fair to all threads and connections, in which the
  shell takes turns for ever and yet the request to stop is never read, no thread ever ends, and the control thread
  waits for ever.
\<close>

theorem shell_flood_starves_stop:
  assumes "split_kernel_ok env f make_header" "reachable_system env make_header s" "sy_pc s = Ask 0" "shell_fit env f s"
    "shell_message_ok env f (Sh_shell, m)"
  shows "\<exists>run. fair_run (default_shell_act env make_header) run \<and> run 0 = s \<and>
    (\<forall>i. \<exists>j\<ge>i. default_shell_act env make_header (Channel 0) (run j) (run (Suc j))) \<and>
    (\<forall>i\<ge>2. sy_pc (run i) = Await 0 \<and> inbox (sp_shell (sy_server (run i))) Sh_controller = [[''stop'']] \<and>
      (\<forall>j < 3. sy_running (run i) j))"
proof -
  let ?act = "default_shell_act env make_header"
  from reachable_starves [OF assms(1-4)] obtain s1 s2 where
    s2: "?act Controller s s1" "?act (Network 0) s1 s2" "starved env f s2" by blast
  have "\<exists>run. fair_run ?act run \<and> run 0 = s2 \<and> (\<forall>i. starved env f (run i)) \<and>
      (\<forall>a \<in> set [Channel 0, Channel 1, Channel 2]. \<forall>i. \<exists>j\<ge>i. ?act a (run j) (run (Suc j)))"
    by (rule turns_fair_run [where J = "starved env f", OF s2(3) _ starved_turn [OF assms(1,5)]])
      (simp, assumption, assumption, rule starved_others)
  then obtain run where run: "fair_run ?act run" "run 0 = s2" "\<And>i. starved env f (run i)"
      "\<And>i. \<exists>j\<ge>i. ?act (Channel 0) (run j) (run (Suc j))"
    by auto
  let ?run = "case_nat s (case_nat s1 run)"
  have "fair_run ?act (case_nat s1 run)" by (rule fair_run_prepend [where a = "Network 0", OF run(1)]) (simp add: run(2) s2(2))
  then have "fair_run ?act ?run" by (rule fair_run_prepend [where a = Controller]) (simp add: s2(1))
  moreover have "\<exists>j\<ge>i. ?act (Channel 0) (?run j) (?run (Suc j))" for i
  proof -
    from run(4) [of i] obtain j where j: "i \<le> j" "?act (Channel 0) (run j) (run (Suc j))" by blast
    then have "i \<le> Suc (Suc j)" "?act (Channel 0) (?run (Suc (Suc j))) (?run (Suc (Suc (Suc j))))" by simp_all
    then show ?thesis by blast
  qed
  moreover have "sy_pc (?run i) = Await 0 \<and> inbox (sp_shell (sy_server (?run i))) Sh_controller = [[''stop'']] \<and>
      (\<forall>j < 3. sy_running (?run i) j)" if "2 \<le> i" for i
  proof -
    define n where "n = i - 2"
    then have "i = Suc (Suc n)" using that by simp
    moreover from run(3) [of n] have "sy_pc (run n) = Await 0"
        "inbox (sp_shell (sy_server (run n))) Sh_controller = [[''stop'']]" by (simp_all add: starved_def)
    ultimately show ?thesis using starved_wires(1) [OF run(3) [of n]] by simp
  qed
  moreover have "?run 0 = s" by simp
  ultimately show ?thesis by blast
qed

theorem shell_flood_starves_stop_witness:
  "\<exists>run. fair_run (default_shell_act sample_split_env (\<lambda>msg_type user session. JStr msg_type)) run \<and>
    reachable_system sample_split_env (\<lambda>msg_type user session. JStr msg_type) (run 0) \<and> sy_pc (run 0) = Ask 0 \<and>
    (\<forall>i\<ge>2. sy_pc (run i) = Await 0)"
proof -
  obtain s where s: "reachable_system sample_split_env (\<lambda>msg_type user session. JStr msg_type) s" "sy_pc s = Ask 0"
      "shell_fit sample_split_env id s"
    using stop_requested_reachable by blast
  have m: "shell_message_ok sample_split_env id (Sh_shell, [''garbage''])"
    by (simp add: shell_message_ok.simps deserialize_def deserialize_zmq_id_missing DELIMITER_def)
  from shell_flood_starves_stop [OF sample_split_kernel_ok s m] s show ?thesis by blast
qed

end
