(* ===== verification/Client_Api.thy ===== *)
theory Client_Api
  imports Construction Threads
begin

text \<open>
  The client as one object: \<^verbatim>\<open>xclient_zmq_impl\<close> with its channels, its threads, its messenger and its
  listeners, its methods, and \<^verbatim>\<open>xclient_zmq\<close>, through which a program uses it
  (\<^verbatim>\<open>src/client/xclient_zmq.cpp\<close>). The operations on each part are those of \<open>Client\<close>, \<open>Messengers\<close> and
  \<open>Threads\<close>.
\<close>

section \<open>The object\<close>

record 'j client_object =
  ob_env :: "'j client_env"
  ob_client :: "'j client"
  ob_heartbeat :: heartbeat_client
  ob_messenger :: "client_messenger_socket net"
  ob_wiring :: "client_part wiring"
  ob_threads :: client_process

definition on_ob_client :: "('j client_env \<Rightarrow> ('j client, 'a) prog) \<Rightarrow> ('j client_object, 'a) prog" where
  "on_ob_client p = seq (gets ob_env) (\<lambda>env. zoom ob_client (\<lambda>c ob. ob\<lparr>ob_client := c\<rparr>) (p env))"

definition on_ob_wiring :: "(client_part wiring, 'a) prog \<Rightarrow> ('j client_object, 'a) prog" where
  "on_ob_wiring = zoom ob_wiring (\<lambda>w ob. ob\<lparr>ob_wiring := w\<rparr>)"

definition on_ob_threads :: "(client_process, 'a) prog \<Rightarrow> ('j client_object, 'a) prog" where
  "on_ob_threads = zoom ob_threads (\<lambda>t ob. ob\<lparr>ob_threads := t\<rparr>)"

text \<open>A new object: no listener is registered and no thread runs.\<close>

definition client_object_new :: "'j json_api \<Rightarrow> xauthentication \<Rightarrow> error_handler \<Rightarrow> 'j client_object" where
  "client_object_new J auth eh = \<lparr>
     ob_env = \<lparr>cl_json = J, cl_auth = auth, cl_error_handler = eh, m_shell_listener = None, m_control_listener = None,
       m_iopub_listener = None\<rparr>,
     ob_client = \<lparr>cl_net = empty_net, cl_iopub = \<lparr>io_net = empty_net, m_message_queue = []\<rparr>, client_notified = []\<rparr>,
     ob_heartbeat = \<lparr>hc_net = empty_net, hb_awaiting = False, hc_request_stop = False, retry_count = 0,
       status_listener = False, kernel_status = []\<rparr>,
     ob_messenger = empty_net, ob_wiring = [], ob_threads = client_process_new\<rparr>"

text \<open>The constructor of \<^verbatim>\<open>xclient_zmq_impl\<close>, which \<^verbatim>\<open>make_xclient_zmq\<close> calls.\<close>

definition make_xclient_zmq :: "'j json_api \<Rightarrow> 'c mac_api \<Rightarrow> (bytes \<Rightarrow> string) \<Rightarrow> bind_result
    \<Rightarrow> xkernel_configuration \<Rightarrow> error_handler \<Rightarrow> 'j client_object res" where
  "make_xclient_zmq J M hex_string bind config eh =
     rbind (make_xauthentication M hex_string (m_signature_scheme config) (c_key config)) (\<lambda>auth.
     case on_ob_wiring (client_wiring bind config) (client_object_new J auth eh) of
       (Inr _, ob) \<Rightarrow> Inr ob
     | (Inl f, _) \<Rightarrow> Inl f)"

section \<open>Its methods\<close>

text \<open>Whether what a thread runs returns is a parameter, as in \<open>Threads\<close>; so is what arrives while a method waits.\<close>

record ('j, 'st) client_api =
  ca_connect :: "('st, unit) prog"
  ca_start :: "('st, unit) prog"
  ca_stop_channels :: "(nat \<Rightarrow> (client_messenger_socket \<times> multipart) list) \<Rightarrow> ('st, unit) prog"
  ca_send_on_shell :: "'j xmessage \<Rightarrow> ('st, unit) prog"
  ca_send_on_control :: "'j xmessage \<Rightarrow> ('st, unit) prog"
  ca_receive_on_shell :: "bool \<Rightarrow> ('st, 'j xmessage option) prog"
  ca_receive_on_control :: "bool \<Rightarrow> ('st, 'j xmessage option) prog"
  ca_iopub_queue_size :: "('st, nat) prog"
  ca_pop_iopub_message :: "('st, 'j xpub_message option) prog"
  ca_register_shell_listener :: "('j xmessage \<Rightarrow> ('j client, unit) prog) \<Rightarrow> ('st, unit) prog"
  ca_register_control_listener :: "('j xmessage \<Rightarrow> ('j client, unit) prog) \<Rightarrow> ('st, unit) prog"
  ca_register_iopub_listener :: "('j xpub_message \<Rightarrow> ('j client, unit) prog) \<Rightarrow> ('st, unit) prog"
  ca_register_kernel_status_listener :: "('st, unit) prog"
  ca_wait_for_message :: "client_socket poll_result list \<Rightarrow> ('st, loop_status) prog"

definition xclient_zmq_impl :: "(thread_function \<Rightarrow> bool) \<Rightarrow> ('j, 'j client_object) client_api" where
  "xclient_zmq_impl returns = \<lparr>
     ca_connect = on_ob_wiring client_connect,
     ca_start = on_ob_threads (client_start returns),
     ca_stop_channels = (\<lambda>replies.
       zoom ob_messenger (\<lambda>n ob. ob\<lparr>ob_messenger := n\<rparr>) (client_messenger_stop_channels replies)),
     ca_send_on_shell = (\<lambda>msg. on_ob_client (\<lambda>env. send_on_shell env msg)),
     ca_send_on_control = (\<lambda>msg. on_ob_client (\<lambda>env. send_on_control env msg)),
     ca_receive_on_shell = (\<lambda>blocking. on_ob_client (\<lambda>env. receive_on_shell env blocking)),
     ca_receive_on_control = (\<lambda>blocking. on_ob_client (\<lambda>env. receive_on_control env blocking)),
     ca_iopub_queue_size = gets (\<lambda>ob. iopub_queue_size (cl_iopub (ob_client ob))),
     ca_pop_iopub_message = on_ob_client (\<lambda>env. on_iopub pop_iopub_message),
     ca_register_shell_listener = (\<lambda>l. modify (\<lambda>ob. ob\<lparr>ob_env := register_shell_listener l (ob_env ob)\<rparr>)),
     ca_register_control_listener = (\<lambda>l. modify (\<lambda>ob. ob\<lparr>ob_env := register_control_listener l (ob_env ob)\<rparr>)),
     ca_register_iopub_listener = (\<lambda>l. modify (\<lambda>ob. ob\<lparr>ob_env := register_iopub_listener l (ob_env ob)\<rparr>)),
     ca_register_kernel_status_listener =
       zoom ob_heartbeat (\<lambda>h ob. ob\<lparr>ob_heartbeat := h\<rparr>) register_kernel_status_listener,
     ca_wait_for_message = (\<lambda>polls. on_ob_client (\<lambda>env. wait_for_message env polls))\<rparr>"

text \<open>\<^verbatim>\<open>xclient_zmq\<close> forwards every call to the object it owns.\<close>

definition xclient_zmq :: "('j, 'st) client_api \<Rightarrow> ('j, 'st) client_api" where
  "xclient_zmq p_client_impl = \<lparr>
     ca_connect = ca_connect p_client_impl,
     ca_start = ca_start p_client_impl,
     ca_stop_channels = ca_stop_channels p_client_impl,
     ca_send_on_shell = ca_send_on_shell p_client_impl,
     ca_send_on_control = ca_send_on_control p_client_impl,
     ca_receive_on_shell = ca_receive_on_shell p_client_impl,
     ca_receive_on_control = ca_receive_on_control p_client_impl,
     ca_iopub_queue_size = ca_iopub_queue_size p_client_impl,
     ca_pop_iopub_message = ca_pop_iopub_message p_client_impl,
     ca_register_shell_listener = ca_register_shell_listener p_client_impl,
     ca_register_control_listener = ca_register_control_listener p_client_impl,
     ca_register_iopub_listener = ca_register_iopub_listener p_client_impl,
     ca_register_kernel_status_listener = ca_register_kernel_status_listener p_client_impl,
     ca_wait_for_message = ca_wait_for_message p_client_impl\<rparr>"

lemma xclient_zmq_forwards [simp]: "xclient_zmq p_client_impl = p_client_impl"
  by (simp add: xclient_zmq_def)

text \<open>The destructor of \<^verbatim>\<open>xclient_zmq\<close> destroys the object, which joins the threads.\<close>

definition xclient_zmq_delete :: "(thread_function \<Rightarrow> bool) \<Rightarrow> ('j client_object, unit) prog" where
  "xclient_zmq_delete returns = on_ob_threads (client_delete returns)"

section \<open>Waiting for a message\<close>

lemma on_ob_client_run:
  "on_ob_client p ob = (fst (p (ob_env ob) (ob_client ob)), ob\<lparr>ob_client := snd (p (ob_env ob) (ob_client ob))\<rparr>)"
  by (simp add: on_ob_client_def seq_def prog_simps zoom_def split_def Let_def)

text \<open>The three listeners are registered, in any order; what was registered before does not matter.\<close>

definition register_listeners where
  "register_listeners api ls lc li =
     seq (ca_register_shell_listener api ls) (\<lambda>_.
     seq (ca_register_control_listener api lc) (\<lambda>_. ca_register_iopub_listener api li))"

definition listening_env where
  "listening_env ob ls lc li = (ob_env ob)\<lparr>m_shell_listener := Some ls, m_control_listener := Some lc, m_iopub_listener := Some li\<rparr>"

lemma register_listeners_run:
  "register_listeners (xclient_zmq_impl returns) ls lc li ob = (Inr (), ob\<lparr>ob_env := listening_env ob ls lc li\<rparr>)"
  by (simp add: register_listeners_def xclient_zmq_impl_def seq_def prog_simps register_shell_listener_def
      register_control_listener_def register_iopub_listener_def listening_env_def)

lemma waits_run: "ca_wait_for_message (xclient_zmq_impl returns) polls = on_ob_client (\<lambda>env. wait_for_message env polls)"
  by (simp add: xclient_zmq_impl_def)

lemma client_waits_run:
  "seq (register_listeners (xclient_zmq_impl returns) ls lc li) (\<lambda>_. ca_wait_for_message (xclient_zmq_impl returns) polls) ob =
     (fst (wait_for_message (listening_env ob ls lc li) polls (ob_client ob)),
      ob\<lparr>ob_env := listening_env ob ls lc li,
        ob_client := snd (wait_for_message (listening_env ob ls lc li) polls (ob_client ob))\<rparr>)"
  by (simp add: seq_def register_listeners_run waits_run on_ob_client_run)

text \<open>
  A listener that raises loses its message: the exception is caught inside the loop of \<^verbatim>\<open>poll\<close>, which goes on waiting.
  So does a listener that was never registered, since calling an empty function raises.
\<close>

lemma raising_listener_loses_message:
  assumes "n = arrive batch (cl_net st)" "inbox n Cl_shell = m # ms" "deserialize (cl_json env) m (cl_auth env) = Inr msg"
    "\<And>st. client_listener env (Shell_note msg) st = (Inl (Throws e), st)"
  shows "\<exists>st'. client_poll_turn env (Poll_arrivals batch) st = (Inr Running, st') \<and>
    received (cl_net st') = received (cl_net st) @ [(Cl_shell, m)] \<and> inbox (cl_net st') Cl_shell = ms"
proof -
  have "received n = received (cl_net st)" by (simp add: assms(1))
  with assms(2-4) show ?thesis
    by (auto simp: client_poll_turn_eq Let_def client_serve_def seq_def try_catch_def client_notify_def on_cl_eval
        net_recv_def prog_simps simp del: arrive_selects simp flip: assms(1))
qed

lemma unregistered_listener_raises:
  "m_shell_listener env = None \<Longrightarrow> client_listener env (Shell_note msg) st = (Inl (Throws Bad_function_call), st)"
  by (simp add: call_listener_def prog_simps)


definition sample_client_object :: "jv client_object" where
  "sample_client_object = (client_object_new sample_json no_xauthentication strict)
     \<lparr>ob_client := \<lparr>cl_net = empty_net, cl_iopub = \<lparr>io_net = empty_net,
        m_message_queue = [make_xpub_message ''a'' (base_data sample_message), make_xpub_message ''b'' (base_data sample_message)]\<rparr>,
       client_notified = []\<rparr>\<rparr>"


section \<open>The life of a client object\<close>

lemma make_xclient_zmq_Inr:
  assumes "make_xclient_zmq J M hex_string bind config eh = Inr ob"
  obtains auth w where "client_wiring bind config [] = (Inr (), w)" "ob = (client_object_new J auth eh)\<lparr>ob_wiring := w\<rparr>"
proof -
  from assms obtain auth where auth: "(case on_ob_wiring (client_wiring bind config) (client_object_new J auth eh) of
      (Inr _, ob) \<Rightarrow> Inr ob | (Inl f, _) \<Rightarrow> Inl f) = Inr ob"
    by (auto simp: make_xclient_zmq_def rbind_Inr_iff)
  obtain r w where w: "client_wiring bind config [] = (r, w)" by (cases "client_wiring bind config []")
  with auth have "r = Inr ()" "ob = (client_object_new J auth eh)\<lparr>ob_wiring := w\<rparr>"
    by (auto simp: on_ob_wiring_def zoom_def client_object_new_def split: sum.splits)
  with w that show thesis by simp
qed

lemma connect_start_run:
  assumes "client_connect w = (Inr (), w')"
  shows "\<exists>threads. seq (ca_connect (xclient_zmq_impl r)) (\<lambda>_. ca_start (xclient_zmq_impl r))
      (ob\<lparr>ob_wiring := w, ob_threads := client_process_new\<rparr>) = (Inr (), ob\<lparr>ob_wiring := w', ob_threads := threads\<rparr>) \<and>
    client_start r client_process_new = (Inr (), threads)"
proof -
  have "\<exists>threads. client_start r client_process_new = (Inr (), threads)"
    by (simp add: client_start_def client_start_iopub_thread_def client_start_heartbeat_thread_def seq_def on_cl_world_def
        zoom_def xthread_new_def xthread_assign_eq client_process_new_def xthread_default_def fresh_world_def Let_def prog_simps)
  then obtain threads where threads: "client_start r client_process_new = (Inr (), threads)" by blast
  have "ca_connect (xclient_zmq_impl r) = (on_ob_wiring client_connect :: ('a client_object, unit) prog)"
    "ca_start (xclient_zmq_impl r) = (on_ob_threads (client_start r) :: ('a client_object, unit) prog)"
    by (simp_all add: xclient_zmq_impl_def)
  with assms threads show ?thesis
    by (simp add: seq_def on_ob_wiring_def on_ob_threads_def zoom_def)
qed



end
