(* ===== verification/Dap_Api.thy ===== *)
theory Dap_Api
  imports Dap_Client Construction
begin

text \<open>
  The DAP client as the class a debugger derives from, \<^verbatim>\<open>xdap_tcp_client\<close>
  (\<^verbatim>\<open>src/debugger/xdap_tcp_client.cpp\<close>): its configuration, its constructor, which gives the object it owns
  a handler of events that calls the virtual \<^verbatim>\<open>handle_event\<close> of the subclass, and the methods the subclass may call.
\<close>

section \<open>The class\<close>

record xdap_tcp_configuration =
  cf_dap_tcp_type :: dap_tcp_type
  cf_dap_init_type :: dap_init_type
  cf_user_name :: string
  cf_session_id :: string

definition xdap_tcp_configuration_new :: "dap_tcp_type \<Rightarrow> dap_init_type \<Rightarrow> string \<Rightarrow> string \<Rightarrow> xdap_tcp_configuration" where
  "xdap_tcp_configuration_new adap_tcp_type adap_init_type user_name session_id =
     \<lparr>cf_dap_tcp_type = adap_tcp_type, cf_dap_init_type = adap_init_type, cf_user_name = user_name, cf_session_id = session_id\<rparr>"

text \<open>What the process around the client provides: headers, sockets, and fuel for its loop.\<close>

record 'j dap_platform =
  pl_json :: "'j json_api"
  pl_make_header :: "string \<Rightarrow> string \<Rightarrow> string \<Rightarrow> 'j"
  pl_bind :: bind_result
  pl_routing_id :: string
  pl_fuel :: nat

text \<open>The members that the constructor of \<^verbatim>\<open>xdap_tcp_client_impl\<close> sets once and for all.\<close>

definition xdap_tcp_client_impl_new :: "'j dap_platform \<Rightarrow> xauthentication \<Rightarrow> xdap_tcp_configuration
    \<Rightarrow> ('j \<Rightarrow> ('u, unit) prog) \<Rightarrow> ('j \<Rightarrow> ('u dap_client, unit) prog) \<Rightarrow> ('j, 'u) dap_env" where
  "xdap_tcp_client_impl_new pl auth dap_config cb handler =
     \<lparr>dp_json = pl_json pl, dp_auth = auth, m_dap_tcp_type = cf_dap_tcp_type dap_config,
      m_dap_init_type = cf_dap_init_type dap_config, m_user_name = cf_user_name dap_config,
      m_session_id = cf_session_id dap_config, m_event_callback = cb, m_event_handler = handler,
      dp_make_header = pl_make_header pl, dp_bind = pl_bind pl, dp_routing_id = pl_routing_id pl, dp_fuel = pl_fuel pl\<rparr>"

text \<open>The protected methods, as the object that is owned provides them and as the class forwards them.\<close>

record ('j, 'st) dap_methods =
  da_forward_event :: "'j \<Rightarrow> ('st, unit) prog"
  da_send_dap_request :: "'j \<Rightarrow> ('st, unit) prog"
  da_wait_for_message :: "('j \<Rightarrow> bool res) \<Rightarrow> ('st, 'j) prog"

definition xdap_tcp_client_impl :: "('j, 'u) dap_env \<Rightarrow> ('j, 'u dap_client) dap_methods" where
  "xdap_tcp_client_impl env =
     \<lparr>da_forward_event = forward_event env, da_send_dap_request = send_dap_request env,
      da_wait_for_message = dap_wait_for_message env\<rparr>"

definition xdap_tcp_client :: "('j, 'st) dap_methods \<Rightarrow> ('j, 'st) dap_methods" where
  "xdap_tcp_client p_impl =
     \<lparr>da_forward_event = da_forward_event p_impl, da_send_dap_request = da_send_dap_request p_impl,
      da_wait_for_message = da_wait_for_message p_impl\<rparr>"

text \<open>
  The constructor. The handler it passes on calls \<^verbatim>\<open>handle_event\<close>, the code of a subclass, which reaches the object
  through the protected methods. None of those calls the handler again, so that they can be those of an object
  that has no handler yet (\<open>protected_methods_handler\<close>).
\<close>

definition make_xdap_tcp_client :: "'j dap_platform \<Rightarrow> 'c mac_api \<Rightarrow> (bytes \<Rightarrow> string) \<Rightarrow> xkernel_configuration \<Rightarrow> int
    \<Rightarrow> xdap_tcp_configuration \<Rightarrow> ('j \<Rightarrow> ('u, unit) prog)
    \<Rightarrow> (('j, 'u dap_client) dap_methods \<Rightarrow> 'j \<Rightarrow> ('u dap_client, unit) prog) \<Rightarrow> 'u \<Rightarrow> frame list
    \<Rightarrow> (('j, 'u) dap_env \<times> 'u dap_client) res" where
  "make_xdap_tcp_client pl M hex_string config socket_linger dap_config cb handle_event user stream =
     rbind (make_xauthentication M hex_string (m_signature_scheme config) (c_key config)) (\<lambda>auth.
     let p_impl = xdap_tcp_client_impl_new pl auth dap_config cb;
         this = xdap_tcp_client (xdap_tcp_client_impl (p_impl (\<lambda>message. fail Undefined)))
     in Inr (p_impl (handle_event this), make_dap_client socket_linger user stream))"

definition xdap_tcp_client_start_debugger :: "('j, 'u) dap_env \<Rightarrow> string \<Rightarrow> string \<Rightarrow> string \<Rightarrow> string \<Rightarrow> multipart
    \<Rightarrow> dap_poll list \<Rightarrow> ('u dap_client, loop_status) prog" where
  "xdap_tcp_client_start_debugger p_impl tcp_end_point publisher_end_point controller_end_point
       controller_header_end_point hello events =
     start_debugger p_impl tcp_end_point publisher_end_point controller_end_point
       controller_header_end_point hello events"

section \<open>What a subclass calls\<close>

lemma xdap_tcp_client_forwards [simp]: "xdap_tcp_client p_impl = p_impl"
  by (simp add: xdap_tcp_client_def)

lemma xdap_tcp_client_impl_new_selects [simp]:
  "dp_json (xdap_tcp_client_impl_new pl auth cf cb h) = pl_json pl" "dp_auth (xdap_tcp_client_impl_new pl auth cf cb h) = auth"
  "m_event_callback (xdap_tcp_client_impl_new pl auth cf cb h) = cb"
  "m_event_handler (xdap_tcp_client_impl_new pl auth cf cb h) = h"
  "dp_make_header (xdap_tcp_client_impl_new pl auth cf cb h) = pl_make_header pl"
  "m_user_name (xdap_tcp_client_impl_new pl auth cf cb h) = cf_user_name cf"
  "m_session_id (xdap_tcp_client_impl_new pl auth cf cb h) = cf_session_id cf"
  by (simp_all add: xdap_tcp_client_impl_new_def)

lemma handler_selects:
  "dp_json (env\<lparr>m_event_handler := h\<rparr>) = dp_json env" "dp_auth (env\<lparr>m_event_handler := h\<rparr>) = dp_auth env"
  "m_event_callback (env\<lparr>m_event_handler := h\<rparr>) = m_event_callback env"
  "dp_make_header (env\<lparr>m_event_handler := h\<rparr>) = dp_make_header env"
  "m_user_name (env\<lparr>m_event_handler := h\<rparr>) = m_user_name env" "m_session_id (env\<lparr>m_event_handler := h\<rparr>) = m_session_id env"
  by simp_all

lemma send_dap_request_handler: "send_dap_request (env\<lparr>m_event_handler := h\<rparr>) message = send_dap_request env message"
  unfolding send_dap_request_def handler_selects ..

lemma dap_wait_for_message_handler: "dap_wait_for_message (env\<lparr>m_event_handler := h\<rparr>) condition st = dap_wait_for_message env condition st"
  unfolding dap_wait_for_message_def handler_selects ..

lemma forward_event_handler: "forward_event (env\<lparr>m_event_handler := h\<rparr>) message = forward_event env message"
  unfolding forward_event_def forward_stopped_def publish_debug_event_def debug_event_def Let_def handler_selects
    send_dap_request_handler ext [OF dap_wait_for_message_handler] ..

lemma protected_methods_handler: "xdap_tcp_client_impl (env\<lparr>m_event_handler := h\<rparr>) = xdap_tcp_client_impl env"
  by (simp add: xdap_tcp_client_impl_def send_dap_request_handler dap_wait_for_message_handler forward_event_handler fun_eq_iff)

text \<open>The handler of the object is the one of the subclass, on the methods of this very object.\<close>

lemma make_xdap_tcp_client_Inr:
  assumes "make_xdap_tcp_client pl M hex_string config socket_linger dap_config cb handle user stream = Inr (env, st)"
  shows "make_xauthentication M hex_string (m_signature_scheme config) (c_key config) = Inr (dp_auth env)"
    "st = make_dap_client socket_linger user stream" "dp_json env = pl_json pl" "m_event_callback env = cb"
    "m_event_handler env = handle (xdap_tcp_client (xdap_tcp_client_impl env))"
proof -
  from assms obtain auth where auth: "make_xauthentication M hex_string (m_signature_scheme config) (c_key config) = Inr auth"
    and parts: "xdap_tcp_client_impl_new pl auth dap_config cb
        (handle (xdap_tcp_client_impl (xdap_tcp_client_impl_new pl auth dap_config cb (\<lambda>message. fail Undefined)))) = env"
      "make_dap_client socket_linger user stream = st"
    by (auto simp: make_xdap_tcp_client_def rbind_Inr_iff Let_def)
  from parts auth show "make_xauthentication M hex_string (m_signature_scheme config) (c_key config) = Inr (dp_auth env)"
    "st = make_dap_client socket_linger user stream" "dp_json env = pl_json pl" "m_event_callback env = cb" by auto
  have "xdap_tcp_client_impl_new pl auth dap_config cb h = (xdap_tcp_client_impl_new pl auth dap_config cb h')\<lparr>m_event_handler := h\<rparr>"
    for h h' by (simp add: xdap_tcp_client_impl_new_def)
  then have "xdap_tcp_client_impl (xdap_tcp_client_impl_new pl auth dap_config cb h)
      = xdap_tcp_client_impl (xdap_tcp_client_impl_new pl auth dap_config cb h')" for h h'
    by (metis protected_methods_handler)
  then show "m_event_handler env = handle (xdap_tcp_client (xdap_tcp_client_impl env))"
    using parts(1) by (metis xdap_tcp_client_forwards xdap_tcp_client_impl_new_selects(4))
qed

section \<open>A debugger that forwards its events\<close>

text \<open>
  The subclass that the header of the class asks for: its handler hands every event to \<^verbatim>\<open>forward_event\<close>. An event that
  does not report stopped threads goes to the callback and is published under the header received last.
\<close>

definition forwards_events :: "('j, 'st) dap_methods \<Rightarrow> 'j \<Rightarrow> ('st, unit) prog" where
  "forwards_events this message = da_forward_event this message"

definition plain_event :: "'j json_api \<Rightarrow> 'j \<Rightarrow> bool" where
  "plain_event J message \<longleftrightarrow> j_contains J message ''event'' \<and> \<not> isl (j_at J message ''event'') \<and>
     \<not> member_is J ''event'' ''stopped'' message"

lemma plain_event_not_stopped:
  assumes "well_formed_dap J parsed raw" "plain_event J (parsed raw)"
  shows "stopped_all_threads J (parsed raw) = Inr (False, parsed raw)"
  using assms
  by (auto simp: well_formed_dap_def plain_event_def not_isl_iff member_is_def stopped_all_threads_def j_index_def)

lemma forward_event_plain:
  assumes "stopped_all_threads (dp_json env) message = Inr (False, message)"
    "m_event_callback env message (dp_user st) = (Inr (), u)"
    "debug_event_parent (dp_json env) (dp_parent_header st) = Inr parent"
    "serialize_iopub (dp_json env) (debug_event env parent message) (dp_auth env) strict = Inr wire"
  shows "forward_event env message st = (Inr (), st\<lparr>dp_user := u,
    dp_net := (dp_net st)\<lparr>outbox := outbox (dp_net st) @ sends Dp_publisher wire\<rparr>\<rparr>)"
  using assms
  by (simp add: forward_event_def publish_debug_event_def seq_def lift_res_def gets_def on_user_def on_dp_def zoom_def
      net_send_sends Let_def)

lemma published_events:
  assumes "make_xauthentication M hex_string scheme key = Inr (dp_auth env)"
    "\<forall>raw \<in> E. reads_back_parts (dp_json env) strict (debug_event env parent (parsed raw))"
  obtains wire where
    "\<forall>raw \<in> E. serialize_iopub (dp_json env) (debug_event env parent (parsed raw)) (dp_auth env) strict = Inr (wire raw) \<and>
       deserialize_iopub (dp_json env) (wire raw) (dp_auth env) = Inr (debug_event env parent (parsed raw))"
proof -
  from assms(1) have auth: "authenticator (dp_auth env)" by (rule make_xauthentication_authenticator)
  have "\<forall>raw \<in> E. \<exists>wire. serialize_iopub (dp_json env) (debug_event env parent (parsed raw)) (dp_auth env) strict = Inr wire \<and>
      deserialize_iopub (dp_json env) wire (dp_auth env) = Inr (debug_event env parent (parsed raw))"
    using assms(2) by (blast intro: authenticator.pub_message_roundtrip [OF auth])
  from bchoice [OF this] that show thesis by blast
qed


definition forward_table :: "(string \<times> jv) list" where
  "forward_table =
     [(''e'', JObj [(''type'', JStr ''event''), (''event'', JStr ''output'')]),
      (''d'', JObj [(''type'', JStr ''response''), (''command'', JStr ''disconnect'')]),
      (''{}'', JObj []), (''h'', JStr ''debug_event'')]"

definition forward_value :: "string \<Rightarrow> jv" where
  "forward_value raw = (case map_of forward_table raw of Some v \<Rightarrow> v | None \<Rightarrow> JNull)"

definition forward_platform :: "jv dap_platform" where
  "forward_platform = \<lparr>pl_json = table_json forward_table, pl_make_header = (\<lambda>tp user session. JStr tp),
     pl_bind = (\<lambda>e. None), pl_routing_id = ''id'', pl_fuel = 10\<rparr>"

definition forward_configuration :: xdap_tcp_configuration where
  "forward_configuration = xdap_tcp_configuration_new client_type sequential ''u'' ''s''"

definition forward_env :: "(jv, jv list) dap_env" where
  "forward_env = xdap_tcp_client_impl_new forward_platform sample_auth forward_configuration (\<lambda>v. modify (\<lambda>u. u @ [v]))
     (forwards_events (xdap_tcp_client_impl (xdap_tcp_client_impl_new forward_platform sample_auth forward_configuration
        (\<lambda>v. modify (\<lambda>u. u @ [v])) (\<lambda>message. fail Undefined))))"

lemma make_forward_env:
  "make_xdap_tcp_client forward_platform echo_mac id sample_config 0 forward_configuration (\<lambda>v. modify (\<lambda>u. u @ [v]))
     forwards_events [] [] = Inr (forward_env, make_dap_client 0 [] [])"
  by (simp add: make_xdap_tcp_client_def make_sample_auth forward_env_def Let_def)


end
