(* ===== verification/Debug_System.thy ===== *)
theory Debug_System
  imports Dap_Client Debugger
begin

text \<open>
  The kernel's debugger (\<^verbatim>\<open>src/debugger/xdebugger_base.cpp\<close>), the DAP client
  (\<^verbatim>\<open>src/debugger/xdap_tcp_client_impl.cpp\<close>) and the adapter together: a request of the front end on its way
  to the adapter, and the response on its way back.
\<close>

section \<open>Turns of an idle client\<close>

definition dap_idle :: "'u dap_client \<Rightarrow> bool" where
  "dap_idle st \<longleftrightarrow> dp_message_queue st = [] \<and> inbox (dp_net st) Dp_controller_header = [] \<and>
     inbox (dp_net st) Dp_controller = [] \<and> \<not> m_wait_attach st \<and> \<not> dp_request_stop st"

lemma arrive_nothing [simp]: "arrive [] n = n"
  by (simp add: arrive_def)

lemma on_dp_eval: "on_dp p st = (fst (p (dp_net st)), st\<lparr>dp_net := snd (p (dp_net st))\<rparr>)"
  by (simp add: on_dp_def zoom_def split_def Let_def)

lemma idle_queue:
  "dp_message_queue st = [] \<Longrightarrow> 0 < fuel \<Longrightarrow> process_message_queue env fuel st = (Inr (), st)"
  by (cases fuel) (simp_all add: prog_simps)

lemma frame_read:
  assumes "inbox n s = []"
  shows "net_recv_frame s (arrive [(s, [f])] n) = (Inr f, n\<lparr>received := received n @ [(s, [f])]\<rparr>)"
proof -
  have "(inbox (arrive [(s, [f])] n))(s := []) = inbox n" using assms by (auto simp: fun_eq_iff)
  then show ?thesis using assms by (simp add: net_recv_frame_def arrive_def)
qed

text \<open>A header is noted and acknowledged, a request is passed on to the adapter as it is.\<close>

lemma dap_turn_header:
  assumes "dap_idle st" "0 < dp_fuel env"
  shows "dap_turn env (Dap_arrivals [(Dp_controller_header, [header])] False) st =
    (Inr Running, st\<lparr>dp_parent_header := header, dp_net := (dp_net st)\<lparr>
       received := received (dp_net st) @ [(Dp_controller_header, [header])],
       outbox := outbox (dp_net st) @ [(Dp_controller_header, [''ACK''])]\<rparr>\<rparr>)"
  using assms
  by (simp add: dap_idle_def dap_turn_def handle_header_socket_def seq_def prog_simps on_dp_eval readable_def
      frame_read net_send_def idle_queue)

lemma dap_turn_request:
  assumes "dap_idle st" "0 < dp_fuel env"
  shows "dap_turn env (Dap_arrivals [(Dp_controller, [request])] False) st =
    (Inr Running, st\<lparr>tcp_out := tcp_out st @ [get_tcp_id st, request], dp_net := (dp_net st)\<lparr>
       received := received (dp_net st) @ [(Dp_controller, [request])]\<rparr>\<rparr>)"
  using assms
  by (simp add: dap_idle_def dap_turn_def handle_control_socket_def tcp_send_def get_tcp_id_def seq_def prog_simps on_dp_eval
      readable_def frame_read idle_queue Let_def)

section \<open>Reading what the adapter sends\<close>

lemma routed_append: "routed J parsed handle (ms @ ms') st = routed J parsed handle ms' (routed J parsed handle ms st)"
  by (simp add: routed_def Let_def bex_Un disj_assoc del: set_filter)

lemma routed_Nil: "dp_message_queue st = [] \<Longrightarrow> routed J parsed handle [] st = st"
  by (simp add: routed_def)

lemma routed_tcp: "(routed J parsed handle ms st)\<lparr>tcp_in := ins\<rparr> = routed J parsed handle ms (st\<lparr>tcp_in := ins\<rparr>)"
  by (simp add: routed_def Let_def)

text \<open>The response that ends the debugging session.\<close>

definition ends_session :: "'j json_api \<Rightarrow> (string \<Rightarrow> 'j) \<Rightarrow> string \<Rightarrow> bool" where
  "ends_session J parsed raw \<longleftrightarrow> \<not> member_is J ''type'' ''event'' (parsed raw) \<and>
     member_is J ''command'' ''disconnect'' (parsed raw)"

lemma routed_idle:
  "dap_idle st \<Longrightarrow> \<forall>raw \<in> set ms. \<not> ends_session J parsed raw \<Longrightarrow> dap_idle (routed J parsed handle ms st)"
  by (auto simp: dap_idle_def routed_def Let_def ends_session_def)

lemma dap_turn_tcp:
  assumes "\<And>v st. m_event_handler env v st = (Inr (), st\<lparr>dp_user := handle v (dp_user st)\<rparr>)"
    "dap_idle st" "tcp_in st = tcp_frames cs" "payload cs = concat (map dap_buffer ms)" "ms \<noteq> []"
    "\<forall>m \<in> set ms. length m < size_max" "\<forall>m \<in> set ms. well_formed_dap (dp_json env) parsed m"
    "\<forall>m \<in> set ms. \<not> ends_session (dp_json env) parsed m" "length ms < dp_fuel env"
  obtains k es where "0 < k" "k \<le> length ms" "payload es = concat (map dap_buffer (drop k ms))"
    "dap_turn env (Dap_arrivals [] True) st =
       (Inr Running, routed (dp_json env) parsed handle (take k ms) (st\<lparr>tcp_in := tcp_frames es\<rparr>))"
proof -
  from handle_tcp_socket_messages [OF assms(4-6), of "[]"] obtain k es where
    k: "0 < k" "k \<le> length ms" "payload es = concat (map dap_buffer (drop k ms))"
      "handle_tcp_socket (tcp_frames cs) [] = Inr (tcp_frames es, [] @ take k ms)" by blast
  let ?st = "st\<lparr>tcp_in := tcp_frames es, dp_message_queue := take k ms\<rparr>"
  let ?st' = "routed (dp_json env) parsed handle (take k ms) (st\<lparr>tcp_in := tcp_frames es\<rparr>)"
  have "process_message_queue env (dp_fuel env) ?st = (Inr (), routed (dp_json env) parsed handle (take k ms) ?st)"
    using process_message_queue_run [OF assms(1), of ?st parsed "dp_fuel env"] assms(7,9) k(2)
    by (auto dest: in_set_takeD)
  moreover have "routed (dp_json env) parsed handle (take k ms) ?st = ?st'"
    by (rule routed_queue)
  moreover have "dap_idle (st\<lparr>tcp_in := tcp_frames es\<rparr>)" using assms(2) by (simp add: dap_idle_def)
  then have "dap_idle ?st'" using assms(8) by (auto intro!: routed_idle dest: in_set_takeD)
  ultimately have "dap_turn env (Dap_arrivals [] True) st = (Inr Running, ?st')"
    using assms(2,3) k(4)
    by (simp add: dap_idle_def dap_turn_def dap_handle_tcp_def seq_def prog_simps on_dp_eval readable_def)
  with k(1-3) that show thesis by blast
qed

text \<open>The whole stream, in as many turns as the socket is readable for.\<close>

lemma dap_turns_tcp:
  assumes "\<And>v st. m_event_handler env v st = (Inr (), st\<lparr>dp_user := handle v (dp_user st)\<rparr>)"
  shows "dap_idle st \<Longrightarrow> tcp_in st = tcp_frames cs \<Longrightarrow> payload cs = concat (map dap_buffer ms) \<Longrightarrow>
    \<forall>m \<in> set ms. length m < size_max \<Longrightarrow> \<forall>m \<in> set ms. well_formed_dap (dp_json env) parsed m \<Longrightarrow>
    \<forall>m \<in> set ms. \<not> ends_session (dp_json env) parsed m \<Longrightarrow> length ms < dp_fuel env \<Longrightarrow>
    \<exists>n es. n \<le> length ms \<and> payload es = [] \<and>
      run_loop (dap_turn env) (replicate n (Dap_arrivals [] True)) st =
        (Inr Running, routed (dp_json env) parsed handle ms (st\<lparr>tcp_in := tcp_frames es\<rparr>))"
proof (induction "length ms" arbitrary: ms cs st rule: less_induct)
  case less
  show ?case
  proof (cases "ms = []")
    case True
    with less.prems(1-3) show ?thesis
      by (intro exI [of _ 0] exI [of _ cs]) (simp add: prog_simps routed_Nil dap_idle_def)
  next
    case False
    from dap_turn_tcp [OF assms less.prems(1-3) False less.prems(4-7)] obtain k es where
      k: "0 < k" "k \<le> length ms" "payload es = concat (map dap_buffer (drop k ms))"
        "dap_turn env (Dap_arrivals [] True) st =
          (Inr Running, routed (dp_json env) parsed handle (take k ms) (st\<lparr>tcp_in := tcp_frames es\<rparr>))" .
    let ?st = "routed (dp_json env) parsed handle (take k ms) (st\<lparr>tcp_in := tcp_frames es\<rparr>)"
    have "length (drop k ms) < length ms" using k(1) False by simp
    moreover have "dap_idle (st\<lparr>tcp_in := tcp_frames es\<rparr>)" using less.prems(1) by (simp add: dap_idle_def)
    then have "dap_idle ?st" using less.prems(6) by (auto intro!: routed_idle dest: in_set_takeD)
    moreover have "tcp_in ?st = tcp_frames es" by (simp add: routed_def Let_def)
    moreover have "\<forall>m \<in> set (drop k ms). length m < size_max \<and> well_formed_dap (dp_json env) parsed m \<and>
        \<not> ends_session (dp_json env) parsed m" "length (drop k ms) < dp_fuel env"
      using less.prems(4-7) by (auto dest: in_set_dropD)
    ultimately obtain n es' where
      "n \<le> length (drop k ms)" "payload es' = []"
      "run_loop (dap_turn env) (replicate n (Dap_arrivals [] True)) ?st =
        (Inr Running, routed (dp_json env) parsed handle (drop k ms) (?st\<lparr>tcp_in := tcp_frames es'\<rparr>))"
      using less.hyps [of "drop k ms" ?st es] k(3) by blast
    moreover have "routed (dp_json env) parsed handle (drop k ms) (?st\<lparr>tcp_in := tcp_frames es'\<rparr>) =
        routed (dp_json env) parsed handle ms (st\<lparr>tcp_in := tcp_frames es'\<rparr>)"
      by (simp add: routed_tcp flip: routed_append)
    ultimately show ?thesis
      using k(1,2,4) by (intro exI [of _ "Suc n"] exI [of _ es']) (simp add: seq_def)
  qed
qed

section \<open>A request that is passed on\<close>

text \<open>What a request without a handler of its own comes to, made to a running debugger.\<close>

lemma process_forwarded_request:
  assumes "m_is_started st" "j_path (db_json env) message [''command''] = Inr v"
    "j_get_string (db_json env) v = Inr command" "v \<noteq> j_string (db_json env) ''disconnect''"
    "request_handlers env command = None" "started_handlers env command = None"
    "j_dump (db_json env) strict header = Inr header_buffer" "j_dump (db_json env) strict message = Inr content"
    "inbox (db_net st) Db_header = [ack] # acks" "inbox (db_net st) Db_request = [raw_reply] # replies"
    "j_parse (db_json env) raw_reply = Inr reply"
  shows "\<exists>st'. process_request_impl env header message st = (Inr reply, st') \<and>
    outbox (db_net st') = outbox (db_net st) @ [(Db_header, [header_buffer]), (Db_request, [dap_buffer content])]"
proof -
  let ?st1 = "st\<lparr>db_net := (db_net st)\<lparr>inbox := (inbox (db_net st))(Db_header := acks),
    received := received (db_net st) @ [(Db_header, [ack])],
    outbox := outbox (db_net st) @ [(Db_header, [header_buffer])]\<rparr>\<rparr>"
  have header: "send_recv_header header_buffer st = (Inr ack, ?st1)"
    using send_recv_run [OF assms(9)] by (simp add: send_recv_header_def)
  have "\<exists>st'. forward_message env message ?st1 = (Inr reply, st') \<and>
      outbox (db_net st') = outbox (db_net st) @ [(Db_header, [header_buffer]), (Db_request, [dap_buffer content])]"
    using send_recv_run [of ?st1 Db_request raw_reply replies "dap_buffer content"] assms(8,10,11)
    by (simp add: forward_message_def send_recv_request_def seq_def lift_res_def)
  then show ?thesis
    using assms(1-7) header
    by (auto simp: process_request_impl_def start_on_initialize_def dispatch_request_def stop_on_disconnect_def
        j_path_is_def seq_def [of "send_recv_header header_buffer"] Let_def seq_def ret_def lift_res_def gets_def
        simp del: j_path.simps)
qed

text \<open>
  C26. A debug request and its response: a request that the running debugger passes on reaches the adapter
  as it was made, in the frame format of the protocol and after its header has been acknowledged; whatever
  events the adapter sends first and however TCP cuts its stream, the client hands the events to the
  handler, in order, and the response to the debugger, which returns it; then the client is idle again, and
  holds the header of the request for the events that follow.
\<close>

theorem debug_request_is_answered:
  assumes "\<And>v st. m_event_handler cenv v st = (Inr (), st\<lparr>dp_user := handle v (dp_user st)\<rparr>)"
    and client: "dap_idle cl" "tcp_in cl = tcp_frames cs" "payload cs = concat (map dap_buffer (events @ [raw]))"
      "\<forall>m \<in> set (events @ [raw]). length m < size_max \<and> well_formed_dap (dp_json cenv) parsed m"
      "\<forall>m \<in> set events. member_is (dp_json cenv) ''type'' ''event'' (parsed m)"
      "\<not> member_is (dp_json cenv) ''type'' ''event'' (parsed raw)"
      "\<not> member_is (dp_json cenv) ''command'' ''disconnect'' (parsed raw)" "length events + 1 < dp_fuel cenv"
    and debugger: "db_json denv = dp_json cenv" "m_is_started db" "j_path (dp_json cenv) message [''command''] = Inr v"
      "j_get_string (dp_json cenv) v = Inr command" "v \<noteq> j_string (dp_json cenv) ''disconnect''"
      "request_handlers denv command = None" "started_handlers denv command = None"
      "j_dump (dp_json cenv) strict header = Inr header_buffer" "j_dump (dp_json cenv) strict message = Inr content"
      "inbox (db_net db) Db_header = []" "inbox (db_net db) Db_request = []"
  shows "\<exists>n cl' db'.
    run_loop (dap_turn cenv) ([Dap_arrivals [(Dp_controller_header, [header_buffer])] False,
      Dap_arrivals [(Dp_controller, [dap_buffer content])] False] @ replicate n (Dap_arrivals [] True)) cl = (Inr Running, cl') \<and>
    tcp_out cl' = tcp_out cl @ [get_tcp_id cl, dap_buffer content] \<and>
    dp_user cl' = fold (\<lambda>m. handle (parsed m)) events (dp_user cl) \<and>
    outbox (dp_net cl') = outbox (dp_net cl) @ [(Dp_controller_header, [''ACK'']), (Dp_controller, [raw])] \<and>
    dp_parent_header cl' = header_buffer \<and> dap_idle cl' \<and>
    process_request_impl denv header message
      (db\<lparr>db_net := arrive [(Db_header, [''ACK'']), (Db_request, [raw])] (db_net db)\<rparr>) = (Inr (parsed raw), db') \<and>
    outbox (db_net db') = outbox (db_net db) @ [(Db_header, [header_buffer]), (Db_request, [dap_buffer content])]"
proof -
  let ?J = "dp_json cenv" and ?ms = "events @ [raw]"
  let ?cl1 = "cl\<lparr>dp_parent_header := header_buffer, dp_net := (dp_net cl)\<lparr>
      received := received (dp_net cl) @ [(Dp_controller_header, [header_buffer])],
      outbox := outbox (dp_net cl) @ [(Dp_controller_header, [''ACK''])]\<rparr>\<rparr>"
  let ?cl2 = "?cl1\<lparr>tcp_out := tcp_out cl @ [get_tcp_id cl, dap_buffer content], dp_net := (dp_net ?cl1)\<lparr>
      received := received (dp_net ?cl1) @ [(Dp_controller, [dap_buffer content])]\<rparr>\<rparr>"
  have fuel: "0 < dp_fuel cenv" "length ?ms < dp_fuel cenv" using client(8) by simp_all
  have idle: "dap_idle ?cl1" "dap_idle ?cl2" using client(1) by (simp_all add: dap_idle_def)
  have turn1: "dap_turn cenv (Dap_arrivals [(Dp_controller_header, [header_buffer])] False) cl = (Inr Running, ?cl1)"
    using dap_turn_header [of cl cenv header_buffer] client(1) fuel(1) by simp
  have turn2: "dap_turn cenv (Dap_arrivals [(Dp_controller, [dap_buffer content])] False) ?cl1 = (Inr Running, ?cl2)"
    using dap_turn_request [OF idle(1) fuel(1), of "dap_buffer content"] by (simp add: get_tcp_id_def)
  have session: "\<forall>m \<in> set ?ms. \<not> ends_session ?J parsed m"
    using client(5,7) by (auto simp: ends_session_def)
  have stream: "tcp_in ?cl2 = tcp_frames cs" using client(2) by simp
  have wf: "\<forall>m \<in> set ?ms. length m < size_max" "\<forall>m \<in> set ?ms. well_formed_dap ?J parsed m" using client(4) by simp_all
  from dap_turns_tcp [where handle = handle, OF assms(1) idle(2) stream client(3) wf session fuel(2)] obtain n es where
    turns: "run_loop (dap_turn cenv) (replicate n (Dap_arrivals [] True)) ?cl2 =
      (Inr Running, routed ?J parsed handle ?ms (?cl2\<lparr>tcp_in := tcp_frames es\<rparr>))" (is "_ = (_, ?cl')") by blast
  have run: "run_loop (dap_turn cenv) ([Dap_arrivals [(Dp_controller_header, [header_buffer])] False,
      Dap_arrivals [(Dp_controller, [dap_buffer content])] False] @ replicate n (Dap_arrivals [] True)) cl = (Inr Running, ?cl')"
    unfolding append_Cons append_Nil run_loop.simps seq_def turn1 prod.case sum.case if_True simp_thms
      turn2 turns by simp
  have only: "filter (\<lambda>m. member_is ?J ''type'' ''event'' (parsed m)) ?ms = events"
    "filter (\<lambda>m. \<not> member_is ?J ''type'' ''event'' (parsed m)) ?ms = [raw]"
    using client(5,6) by (auto simp: filter_id_conv filter_empty_conv)
  have "dap_idle (?cl2\<lparr>tcp_in := tcp_frames es\<rparr>)" using idle(2) by (simp add: dap_idle_def)
  then have "dap_idle ?cl'" using session by (rule routed_idle)
  moreover have "dp_user ?cl' = fold (\<lambda>m. handle (parsed m)) events (dp_user cl)"
    "outbox (dp_net ?cl') = outbox (dp_net cl) @ [(Dp_controller_header, [''ACK'']), (Dp_controller, [raw])]"
    "tcp_out ?cl' = tcp_out cl @ [get_tcp_id cl, dap_buffer content]" "dp_parent_header ?cl' = header_buffer"
    unfolding routed_def Let_def only by simp_all
  moreover have "j_parse ?J raw = Inr (parsed raw)" using wf(2) by (simp add: well_formed_dap_def)
  with process_forwarded_request [of "db\<lparr>db_net := arrive [(Db_header, [''ACK'']), (Db_request, [raw])] (db_net db)\<rparr>"
      denv message v command header header_buffer content "''ACK''" "[]" raw "[]" "parsed raw"] debugger
  obtain db' where "process_request_impl denv header message
      (db\<lparr>db_net := arrive [(Db_header, [''ACK'']), (Db_request, [raw])] (db_net db)\<rparr>) = (Inr (parsed raw), db')"
    "outbox (db_net db') = outbox (db_net db) @ [(Db_header, [header_buffer]), (Db_request, [dap_buffer content])]"
    by auto
  ultimately show ?thesis using run by blast
qed

definition evaluate_table :: "(string \<times> jv) list" where
  "evaluate_table =
     [(''h'', JObj []), (''q'', JObj [(''command'', JStr ''evaluate'')]),
      (''e'', JObj [(''type'', JStr ''event'')]),
      (''r'', JObj [(''type'', JStr ''response''), (''command'', JStr ''evaluate'')])]"

definition evaluate_value :: "string \<Rightarrow> jv" where
  "evaluate_value raw = (case map_of evaluate_table raw of Some v \<Rightarrow> v | None \<Rightarrow> JNull)"

theorem debug_request_is_answered_witness:
  "\<exists>n cl' db'.
    run_loop (dap_turn (sample_dap_env evaluate_table)) ([Dap_arrivals [(Dp_controller_header, [''h''])] False,
      Dap_arrivals [(Dp_controller, [dap_buffer ''q''])] False] @ replicate n (Dap_arrivals [] True))
      (make_dap_client 0 [] (tcp_frames [(''i'', dap_buffer ''e'' @ dap_buffer ''r'')])) = (Inr Running, cl') \<and>
    dp_user cl' = [JObj [(''type'', JStr ''event'')]] \<and>
    outbox (dp_net cl') = [(Dp_controller_header, [''ACK'']), (Dp_controller, [''r''])] \<and>
    process_request_impl (sample_db_env evaluate_table) (JObj []) (JObj [(''command'', JStr ''evaluate'')])
      ((make_debugger Map.empty)\<lparr>m_is_started := True,
         db_net := arrive [(Db_header, [''ACK'']), (Db_request, [''r''])] empty_net\<rparr>) =
      (Inr (JObj [(''type'', JStr ''response''), (''command'', JStr ''evaluate'')]), db')"
proof -
  let ?cl = "make_dap_client 0 [] (tcp_frames [(''i'', dap_buffer ''e'' @ dap_buffer ''r'')]) :: jv list dap_client"
  let ?db = "(make_debugger Map.empty)\<lparr>m_is_started := True\<rparr> :: jv debugger"
  have handler: "m_event_handler (sample_dap_env evaluate_table) v st
      = (Inr (), st\<lparr>dp_user := (\<lambda>v u. u @ [v]) v (dp_user st)\<rparr>)" for v st
    by (simp add: sample_dap_env_def on_user_def zoom_def modify_def)
  have cl: "dap_idle ?cl" "tcp_in ?cl = tcp_frames [(''i'', dap_buffer ''e'' @ dap_buffer ''r'')]"
    "payload [(''i'', dap_buffer ''e'' @ dap_buffer ''r'')] = concat (map dap_buffer ([''e''] @ [''r'']))"
    "\<forall>m \<in> set ([''e''] @ [''r'']). length m < size_max \<and> well_formed_dap (dp_json (sample_dap_env evaluate_table)) evaluate_value m"
    "\<forall>m \<in> set [''e'']. member_is (dp_json (sample_dap_env evaluate_table)) ''type'' ''event'' (evaluate_value m)"
    "\<not> member_is (dp_json (sample_dap_env evaluate_table)) ''type'' ''event'' (evaluate_value ''r'')"
    "\<not> member_is (dp_json (sample_dap_env evaluate_table)) ''command'' ''disconnect'' (evaluate_value ''r'')"
    "length [''e''] + 1 < dp_fuel (sample_dap_env evaluate_table)"
    by (simp_all add: dap_idle_def make_dap_client_def empty_net_def size_max_def well_formed_dap_def member_is_def
        sample_dap_env_def evaluate_value_def evaluate_table_def)
  have db: "db_json (sample_db_env evaluate_table) = dp_json (sample_dap_env evaluate_table)" "m_is_started ?db"
    "j_path (dp_json (sample_dap_env evaluate_table)) (JObj [(''command'', JStr ''evaluate'')]) [''command''] = Inr (JStr ''evaluate'')"
    "j_get_string (dp_json (sample_dap_env evaluate_table)) (JStr ''evaluate'') = Inr ''evaluate''"
    "JStr ''evaluate'' \<noteq> j_string (dp_json (sample_dap_env evaluate_table)) ''disconnect''"
    "request_handlers (sample_db_env evaluate_table) ''evaluate'' = None"
    "started_handlers (sample_db_env evaluate_table) ''evaluate'' = None"
    "j_dump (dp_json (sample_dap_env evaluate_table)) strict (JObj []) = Inr ''h''"
    "j_dump (dp_json (sample_dap_env evaluate_table)) strict (JObj [(''command'', JStr ''evaluate'')]) = Inr ''q''"
    "inbox (db_net ?db) Db_header = []" "inbox (db_net ?db) Db_request = []"
    by (simp_all add: sample_db_env_def sample_dap_env_def evaluate_table_def request_handlers_def started_handlers_def
        make_debugger_def empty_net_def)
  have net: "db_net ?db = empty_net" by (simp add: make_debugger_def)
  from debug_request_is_answered [where handle = "\<lambda>v u. u @ [v]", OF handler cl db]
  show ?thesis
    unfolding net by (auto simp: make_dap_client_def empty_net_def evaluate_value_def evaluate_table_def)
qed

end
