(* ===== verification/Example_Kernel.thy ===== *)
theory Example_Kernel
  imports Server_Default
begin

text \<open>
  The example kernel: \<^verbatim>\<open>src/example/src/custom_interpreter.cpp\<close> and the choice of the configuration
  file in \<^verbatim>\<open>src/example/src/main.cpp\<close>. What it calls of xeus, the replies its helpers build and the
  publications of the interpreter, are parameters.
\<close>

section \<open>What the interpreter calls\<close>

text \<open>
  \<open>create_complete_reply\<close> takes the matches and the range they replace; \<open>create_inspect_reply\<close> the data
  found, if any; \<open>create_info_reply\<close> its texts in their order.
\<close>

record ('j, 'st) xeus_helpers =
  ex_json :: "'j json_api"
  publish_execution_result :: "int \<Rightarrow> 'j \<Rightarrow> 'j \<Rightarrow> ('st, unit) prog"
  publish_execution_error :: "string \<Rightarrow> string \<Rightarrow> string list \<Rightarrow> ('st, unit) prog"
  create_successful_reply :: 'j
  create_complete_reply :: "string list \<Rightarrow> int \<Rightarrow> int \<Rightarrow> 'j"
  create_inspect_reply :: "'j option \<Rightarrow> 'j"
  create_is_complete_reply :: "string \<Rightarrow> 'j"
  create_info_reply :: "string list \<Rightarrow> 'j"

section \<open>The interpreter\<close>

definition execute_request_impl :: "('j, 'st) xeus_helpers \<Rightarrow> int \<Rightarrow> ('st, 'j) prog" where
  "execute_request_impl X execution_counter =
     (let J = ex_json X in
      seq (lift_res (j_set J (j_null J) ''text/plain'' (j_string J ''Hello World !!''))) (\<lambda>pub_data.
      seq (publish_execution_result X execution_counter pub_data (j_object J [])) (\<lambda>_.
      seq (publish_execution_error X ''TypeError'' ''123'' [''!@#$'', ''*(*'']) (\<lambda>_.
      ret (create_successful_reply X)))))"

text \<open>\<^verbatim>\<open>code[0]\<close> of an empty string is the terminating null character.\<close>

definition complete_request_impl :: "('j, 'st) xeus_helpers \<Rightarrow> string \<Rightarrow> int \<Rightarrow> 'j" where
  "complete_request_impl X code cursor_pos =
     (if (case code of [] \<Rightarrow> CHR 0x00 | c # cs \<Rightarrow> c) = CHR ''H''
      then create_complete_reply X [''Hello'', ''Hey'', ''Howdy''] 5 cursor_pos
      else create_complete_reply X [] cursor_pos cursor_pos)"

text \<open>
  A JSON value initialised with a braced list of two strings is an array: it would be an object only
  if every element were a pair.
\<close>

definition inspect_request_impl :: "('j, 'st) xeus_helpers \<Rightarrow> string \<Rightarrow> 'j" where
  "inspect_request_impl X code =
     (let J = ex_json X in
      if code = ''print''
      then create_inspect_reply X (Some (j_array J
             [j_string J ''text/plain'', j_string J ''Print objects to the text stream file, [...]'']))
      else create_inspect_reply X None)"

definition is_complete_request_impl :: "('j, 'st) xeus_helpers \<Rightarrow> string \<Rightarrow> 'j" where
  "is_complete_request_impl X code = create_is_complete_reply X ''complete''"

definition kernel_info_request_impl :: "('j, 'st) xeus_helpers \<Rightarrow> 'j" where
  "kernel_info_request_impl X =
     create_info_reply X ['''', ''my_kernel'', ''0.1.0'', ''python'', ''3.7'', ''text/x-python'', ''.py'']"

section \<open>The configuration file\<close>

text \<open>\<^verbatim>\<open>argv\<close> ends with a null pointer, from which a string cannot be made; beyond it there is nothing.\<close>

definition connection_file :: "string list \<Rightarrow> string res" where
  "connection_file argv =
     (if length argv = 1 then Inr ''connection.json''
      else if 2 < length argv then Inr (argv ! 2) else Inl Undefined)"

section \<open>What the front end sees\<close>

text \<open>A program that records the calls made on it.\<close>

datatype 'j publication = Result int 'j 'j | Error string string "string list"

definition recording :: "('j, 'j publication list) xeus_helpers \<Rightarrow> bool" where
  "recording X \<longleftrightarrow>
     publish_execution_result X = (\<lambda>n data metadata. modify (\<lambda>l. l @ [Result n data metadata])) \<and>
     publish_execution_error X = (\<lambda>name val trace. modify (\<lambda>l. l @ [Error name val trace]))"

text \<open>Each cell yields a result and an error, in this order, and still a reply that reports success.\<close>

lemma execute_publishes:
  assumes "recording X" "j_set (ex_json X) (j_null (ex_json X)) ''text/plain'' (j_string (ex_json X) ''Hello World !!'') = Inr data"
  shows "execute_request_impl X n log = (Inr (create_successful_reply X),
    log @ [Result n data (j_object (ex_json X) []), Error ''TypeError'' ''123'' [''!@#$'', ''*(*'']])"
  using assms by (simp add: execute_request_impl_def recording_def seq_def prog_simps)

text \<open>
  Started with one argument, the file's name alone, the program reads the null pointer behind it; started with an option in front, it
  reads the name.
\<close>

lemma connection_file_cases:
  "connection_file [prog] = Inr ''connection.json''" "connection_file [prog, file] = Inl Undefined"
  "connection_file (prog # opt # file # others) = Inr file"
  by (simp_all add: connection_file_def)

end
