(* ===== verification/Spec2Isabelle.thy ===== *)
theory Spec2Isabelle
  imports Dap_Framing Serializer Publisher Messengers Server_Default Server_Split Client Handshake
    Dap_Client Debugger Stop_Protocol Split_System Construction Threads
    Auth_Threads Server_Object End_To_End Server_Api Default_System Fair_Stop Client_Api Dap_Api Debug_System Example_Kernel
begin

text \<open>
  \<^bold>\<open>The program.\<close> xeus-zmq connects a Jupyter kernel written with xeus to its front ends over
  ZeroMQ. Its parts, under \<^verbatim>\<open>src/\<close> of the repository, and how they interact:

  \<^item> \<^verbatim>\<open>common\<close> signs messages (\<^verbatim>\<open>xauthentication\<close>), turns them into multipart messages and back
    (\<^verbatim>\<open>xzmq_serializer\<close>) and sets up sockets (\<^verbatim>\<open>xmiddleware\<close>);
  \<^item> \<^verbatim>\<open>server\<close> holds three servers. The default one serves shell and control from the main
    thread (\<^verbatim>\<open>xserver_zmq_impl\<close>, \<^verbatim>\<open>xserver_zmq_default\<close>); the split ones give each its
    own thread and differ in which of the two is the main thread (\<^verbatim>\<open>xserver_zmq_split\<close>,
    \<^verbatim>\<open>xshell\<close>, \<^verbatim>\<open>xcontrol\<close>, the runners). In all of them a publisher thread
    (\<^verbatim>\<open>xpublisher\<close>) forwards what the others publish, and a heartbeat thread
    (\<^verbatim>\<open>xheartbeat\<close>) echoes. Threads talk over internal sockets: whoever controls the others
    asks each in turn to stop and waits for its answer (\<^verbatim>\<open>xzmq_messenger\<close>). A kernel that is
    started by a client registers with it (\<^verbatim>\<open>xhandshaking\<close>);
  \<^item> \<^verbatim>\<open>client\<close> is the other end: request channels, a thread that collects published
    messages, a heartbeat thread, and the client's side of the registration;
  \<^item> \<^verbatim>\<open>example\<close> (beside \<^verbatim>\<open>src/src\<close>) is a small kernel;
  \<^item> \<^verbatim>\<open>debugger\<close> holds the kernel's debugger (\<^verbatim>\<open>xdebugger_base\<close>) and the thread that speaks
    the Debug Adapter Protocol over TCP (\<^verbatim>\<open>xdap_tcp_client_impl\<close>); the two exchange requests over
    internal sockets, and the second publishes events.

  \<^bold>\<open>How code is modelled.\<close> A call has an outcome (\<open>Cpp_Prelude\<close>): a value, an exception,
  undefined behaviour, or blocking for ever. Code with state is a function from the state to the
  outcome and the state it leaves (\<open>prog\<close>, \<open>seq\<close>, \<open>try_catch\<close> in \<open>Sockets\<close>), so that what happened before an
  exception stays done. Each component has a datatype of its sockets and a record \<open>net\<close> for its end of
  the network: what has arrived and is unread, what has been read, what has been sent. One turn of a
  polling loop takes what has arrived as its argument, and \<open>run_loop\<close> runs the turns; the theorems hold
  for every list of arrivals. Strings and frames are lists of characters, \<^verbatim>\<open>size_t\<close> is a
  natural number with its wrap-around at \<open>2 ^ 64\<close> written out where the code depends on it, and a
  subscript of the debugger is a 32-bit integer. Definitions keep the names of the code; a component's
  prefix tells apart what two classes both have.

  \<^bold>\<open>The theories\<close>, in the order in which they build on each other, with what their lemmas show:

  \<^item> \<open>Cpp_Prelude\<close>, \<open>Sockets\<close>, \<open>Json_Api\<close>: outcomes, strings and numbers of the standard library; programs
    and sockets; the JSON library as a parameter, with a concrete instance for the closed
    theorems. \<open>Sockets\<close> has the contracts of a polling loop (\<open>answering_loop\<close>, \<open>stoppable_loop\<close>), which
    publisher, heartbeat and the client's collecting thread are interpretations of.
  \<^item> \<open>Dap_Framing\<close>: \<^verbatim>\<open>handle_tcp_socket\<close> and the framing of \<^verbatim>\<open>send_dap_request\<close>. Messages
    are recovered byte for byte however the stream is cut into chunks.
  \<^item> \<open>Authentication\<close>, \<open>Serializer\<close>: signatures whatever was signed before, which wire messages are accepted and
    which malformed ones fail how, round trips, and authenticity of what is accepted (contract
    \<open>authenticator\<close>, which both kinds of authentication objects fulfil).
  \<^item> \<open>Auth_Threads\<close>: the calls of several threads on one authentication object, operation by operation: under its mutex each
    returns what it would return alone.
  \<^item> \<open>Middleware\<close>, \<open>Publisher\<close>, \<open>Messengers\<close>: end points and the search for a free port; the publisher and the heartbeat refine
    their specifications and never fail; the exchanges that stop channels come in order.
  \<^item> \<open>Server_Default\<close>, \<open>Server_Split\<close>: the loops of the servers, which message is served next, that nothing is lost or
    reordered, what an invalid message does, aborting the queue, and requests of the control thread to the shell. The loops are
    written over the methods their base classes offer (\<open>zmq_api\<close>, \<open>split_impl\<close>, \<open>runner_api\<close>, \<open>xshell_runner\<close>, \<open>xcontrol_runner\<close>), as in the code.
  \<^item> \<open>Client\<close>, \<open>Handshake\<close>: the client's threads, its polling and waiting, and both sides of the registration.
  \<^item> \<open>Stop_Protocol\<close>, \<open>Stop_Network\<close>: what a controlling thread and the threads it controls promise each
    other, apart from the code. \<open>Stop_Protocol\<close> is abstract: a controller and its channels in the order of their stop,
    their invariant, and the contract of a controlled thread (\<open>controlled_thread\<close>). \<open>Stop_Network\<close> puts
    a network in between and has the contract of a process (\<open>stopping_process\<close>): its
    channels follow the protocol, and its stop can be completed.
  \<^item> \<open>Channel_Threads\<close>: the publisher and the heartbeat are controlled threads.
  \<^item> \<open>Fair_Runs\<close>: infinite runs, fairness towards each actor (the controller, the network of a channel, a channel's thread), and the contract
    \<open>fairly_stopping\<close>: a process in which the actor who is next is always able to act stops in every fair run.
  \<^item> \<open>Split_System\<close>, \<open>Default_System\<close>, \<open>Client_System\<close>: the threads of a split server, of a single-threaded one and of a client,
    taking turns in any order, fulfil the contract of a process. A split server does so with every shell runner that keeps the contract
    \<open>split_shell_runner\<close>, the default one and those that choose their channels in an order of their own; an exception that leaves the single-threaded server's loop leaves its threads running,
    and a client whose heartbeat was not answered in time can no longer be stopped. Each step belongs to an actor
    (\<open>runner_act\<close>, \<open>default_act\<close>, \<open>client_act\<close>).
  \<^item> \<open>Fair_Stop\<close>: in every fair run a requested stop of the single-threaded server is completed, and of a split server whose shell
    runner serves the control thread whenever it asks; the default runner, which serves the shell first, can be kept from it for ever.
  \<^item> \<open>Construction\<close>: the constructors of whole processes. Every internal connection has exactly one counterpart of a
    compatible socket type, and registration connects a kernel and a client.
  \<^item> \<open>Threads\<close>: the joining thread, the threads each server and the client start, and their destruction.
  \<^item> \<open>Server_Object\<close>, \<open>Client_Api\<close>, \<open>Dap_Api\<close>: split servers, clients and DAP clients as the objects a program makes and uses: the
    factories, the outer classes and the virtual methods, and the life of an object from its construction to its destructor.
  \<^item> \<open>Server_Api\<close>: the methods of xeus' server interface as both servers implement them, and kernels that call them
    (contracts \<open>server_channel\<close>, \<open>stdin_channel\<close>). The servers agree on what they send for the same
    messages, but not on how they abort the queue when a listener raises.
  \<^item> \<open>End_To_End\<close>: server and client together. A request is answered under its own identities; a shutdown is answered, and
    the server's threads can all end; what the kernel publishes arrives in order, through the publisher and the
    client's collecting thread, except for what waits behind the publisher's stop.
  \<^item> \<open>Dap_Client\<close>, \<open>Debugger\<close>: all requests and events of the debugger and its protocol client; the invariant of the breakpoints
    (an ordered map, contract \<open>ordered_map\<close>), routing of the message queue, waiting for an answer, and
    slicing of variables, cleaning of stack traces.
  \<^item> \<open>Debug_System\<close> and this theory: debugger and protocol client together, a request with its response, and a stop of all threads.
  \<^item> \<open>Example_Kernel\<close>: the example's interpreter over xeus' helpers, and its choice of the configuration file.

  \<^bold>\<open>Parameters and hypotheses.\<close> Code that is not in the repository is an argument: JSON (\<open>json_api\<close>),
  OpenSSL's MAC (\<open>mac_api\<close>), xeus' message headers and its initial configuration, the listeners and callbacks of
  the kernel, the outcome of binding to an end point, the ports drawn at random, and what arrives on each socket. Hypotheses about
  them state documented behaviour only: what dumps parses back, a MAC depends only on what was fed since
  it was initialised, a listener does what the contract asks of it. Sending does not fail. An authentication
  object is passed as its methods, which \<open>Auth_Threads\<close> justifies.

  \<^bold>\<open>Loops, bounds and fuel.\<close> The loops over polls recurse on the list of polls and need no bound. The loops over the
  TCP stream recurse on the chunks that arrive; a stream that ends early is the outcome
  \<open>Blocks\<close>. The search for a port recurses on the tries left. Three loops have
  fuel: \<open>abort_queue\<close> and \<open>split_abort_queue\<close>, for which a fuel beyond the number of waiting messages is
  enough (\<open>abort_queue_drains\<close>, \<open>split_abort_queue_drains\<close>), and \<open>process_message_queue\<close>, for which a fuel beyond the length of the queue is
  enough while the event handler queues nothing itself (\<open>process_message_queue_dispatches\<close>); in \<open>dap_turn\<close> it is the field
  \<open>dp_fuel\<close> of the environment.

  \<^bold>\<open>The interleaved system.\<close> A step of \<open>Split_System\<close>, \<open>Default_System\<close> and \<open>Client_System\<close> is a whole turn of one of the threads, which is what is visible to the
  others: they share no state but the queues of the internal sockets, the authentication object being
  locked in each call. A request of the control thread to the shell is made by the kernel's code while a
  control message is being handled; in the system it is a step of its own between two turns.

  Fairness is a property of infinite runs: an actor that can act from some point on acts again. It is assumed in the theorems
  of \<open>Fair_Stop\<close> only; the others hold under every schedule.

  \<^bold>\<open>Not modelled.\<close> The ZeroMQ context and native thread handles (values handed through); the
  tests; the memory management of the factories (\<^verbatim>\<open>unique_ptr\<close>), of which the objects they make are modelled; log output.
\<close>

section \<open>The debugger learns which threads are stopped\<close>


text \<open>The closed instance: the adapter answers a question about two threads after another event.\<close>

definition stopped_env :: "(jv, jv debugger) dap_env" where
  "stopped_env =
     \<lparr>dp_json = table_json stopped_table, dp_auth = sample_auth, m_dap_tcp_type = client_type,
      m_dap_init_type = sequential, m_user_name = ''u'', m_session_id = ''s'',
      m_event_callback = get_event_callback (sample_db_env stopped_table), m_event_handler = (\<lambda>v. ret ()),
      dp_make_header = (\<lambda>tp user session. JStr tp), dp_bind = (\<lambda>e. None), dp_routing_id = ''id'',
      dp_fuel = 10\<rparr>"

definition stopped_state :: "jv debugger dap_client" where
  "stopped_state = make_dap_client 0 (sample_debugger ''r'')
     (tcp_frames [(''i'', dap_buffer ''e'' @ dap_buffer ''t'')])"


end
